theory Spec2Isabelle
  imports Complex_Main "HOL-Library.Sublist"
begin

section \<open>JavaScript strings\<close>

text \<open>
  A JavaScript string is a sequence of UTF-16 code units; a code unit is modelled by its
  number.  \<open>js\<close> writes an ASCII literal.  \<open>String.prototype.toLowerCase\<close> is a built-in
  of the language (Unicode case conversion): every function below that calls it takes it as
  the parameter \<open>toLowerCase\<close>, so that what is proved holds for the built-in whatever it
  does on a given string.
\<close>

type_synonym jsstring = "nat list"

definition js :: "string \<Rightarrow> jsstring" where
  "js s = map of_char s"

text \<open>\<open>s.startsWith(t)\<close> and \<open>s.includes(t)\<close> (named \<open>includes_str\<close>): a match of \<open>t\<close> is looked for at every
  position of \<open>s\<close>, from the left.\<close>

fun startsWith :: "jsstring \<Rightarrow> jsstring \<Rightarrow> bool" where
  "startsWith s [] = True"
| "startsWith [] (c # t) = False"
| "startsWith (a # s) (c # t) = (a = c \<and> startsWith s t)"

fun includes_str :: "jsstring \<Rightarrow> jsstring \<Rightarrow> bool" where
  "includes_str [] t = (t = [])"
| "includes_str (a # s) t = (startsWith (a # s) t \<or> includes_str s t)"

text \<open>The specification's wording, "label contains search text (case-insensitive
  substring match)": the lowered text occurs somewhere inside the lowered label.\<close>

definition caseInsensitiveSubstring :: "(jsstring \<Rightarrow> jsstring) \<Rightarrow> jsstring \<Rightarrow> jsstring \<Rightarrow> bool" where
  "caseInsensitiveSubstring toLowerCase text lbl =
     (\<exists>before after. toLowerCase lbl = before @ toLowerCase text @ after)"

text \<open>The built-in \<open>toLowerCase\<close> on strings made of Basic Latin letters and of code units
  that have no case (CJK ideographs, digits, punctuation): only \<open>A\<close>..\<open>Z\<close> change.  It is
  used to run the model on the sample data, whose labels are of this kind.\<close>

definition toLowerCase_basic :: "jsstring \<Rightarrow> jsstring" where
  "toLowerCase_basic s = map (\<lambda>c. if 65 \<le> c \<and> c \<le> 90 then c + 32 else c) s"

section \<open>The graph data model (types.ts)\<close>

text \<open>An optional numeric field of a JavaScript object: absent, \<open>null\<close> or a number.\<close>

datatype jsnum = Undefined | Null | Num real

text \<open>\<open>interface GraphNode extends d3.SimulationNodeDatum\<close>.  The fields \<open>id\<close>,
  \<open>group\<close>, \<open>x\<close> and \<open>y\<close> are named \<open>node_id\<close>, \<open>node_group\<close>, \<open>node_x\<close> and
  \<open>node_y\<close> here, and the field \<open>index\<close> of \<open>SimulationNodeDatum\<close> is \<open>node_index\<close>.\<close>

record GraphNode =
  node_id :: jsstring
  label :: jsstring
  node_group :: jsstring
  description :: "jsstring option"
  node_index :: jsnum
  node_x :: jsnum
  node_y :: jsnum
  vx :: jsnum
  vy :: jsnum
  fx :: jsnum
  fy :: jsnum

text \<open>\<open>source: string | GraphNode\<close>: a link endpoint is a node id or a node object.  The
  type parameter is what stands for the object: the node itself where the graph is only
  read, its address where objects are shared and written.\<close>

datatype 'n endpoint = EndId jsstring | EndObj 'n

record 'n GraphLink =
  source :: "'n endpoint"
  target :: "'n endpoint"
  relation :: jsstring

record 'n GraphData =
  nodes :: "'n list"
  links :: "'n GraphLink list"

text \<open>A node as the generation service and \<open>INITIAL_DATA\<close> give it: no position yet.\<close>

definition mkNode :: "jsstring \<Rightarrow> jsstring \<Rightarrow> jsstring \<Rightarrow> GraphNode" where
  "mkNode i l g = \<lparr>node_id = i, label = l, node_group = g, description = None,
     node_index = Undefined, node_x = Undefined, node_y = Undefined, vx = Undefined, vy = Undefined,
     fx = Undefined, fy = Undefined\<rparr>"

definition mkLink :: "jsstring \<Rightarrow> jsstring \<Rightarrow> jsstring \<Rightarrow> 'n GraphLink" where
  "mkLink s t r = \<lparr>source = EndId s, target = EndId t, relation = r\<rparr>"

text \<open>\<open>INITIAL_DATA\<close> of App.tsx; the Chinese labels are written as their UTF-16 code
  units.\<close>

definition label_ai :: jsstring where "label_ai = [0x4EBA, 0x5DE5, 0x667A, 0x80FD]"
definition label_ml :: jsstring where "label_ml = [0x673A, 0x5668, 0x5B66, 0x4E60]"
definition label_dl :: jsstring where "label_dl = [0x6DF1, 0x5EA6, 0x5B66, 0x4E60]"
definition label_nn :: jsstring where "label_nn = [0x795E, 0x7ECF, 0x7F51, 0x7EDC]"
definition group_tech :: jsstring where "group_tech = [0x6280, 0x672F]"
definition group_concept :: jsstring where "group_concept = [0x6982, 0x5FF5]"
definition group_model :: jsstring where "group_model = [0x6A21, 0x578B]"
definition rel_contains :: jsstring where "rel_contains = [0x5305, 0x542B]"
definition rel_uses :: jsstring where "rel_uses = [0x4F7F, 0x7528]"
definition rel_belongs :: jsstring where "rel_belongs = [0x5C5E, 0x4E8E]"

definition INITIAL_DATA :: "GraphNode GraphData" where
  "INITIAL_DATA = \<lparr>
     nodes = [mkNode (js ''ai'') label_ai group_tech,
              mkNode (js ''ml'') label_ml group_tech,
              mkNode (js ''dl'') label_dl group_tech,
              mkNode (js ''nn'') label_nn group_concept,
              mkNode (js ''gemini'') (js ''Gemini'') group_model],
     links = [mkLink (js ''ai'') (js ''ml'') rel_contains,
              mkLink (js ''ml'') (js ''dl'') rel_contains,
              mkLink (js ''dl'') (js ''nn'') rel_uses,
              mkLink (js ''gemini'') (js ''ai'') rel_belongs]\<rparr>"

section \<open>The highlight controller (KnowledgeGraph, the highlighting effect)\<close>

text \<open>\<open>typeof e === 'object' ? e.id : e\<close>\<close>

definition endpointId :: "GraphNode endpoint \<Rightarrow> jsstring" where
  "endpointId e = (case e of EndId s \<Rightarrow> s | EndObj n \<Rightarrow> node_id n)"

definition isSearchActive :: "jsstring \<Rightarrow> bool" where
  "isSearchActive filterText = (length filterText > 0)"

definition isSelectionActive :: "GraphNode option \<Rightarrow> bool" where
  "isSelectionActive selectedNode = (selectedNode \<noteq> None)"

definition labelMatches :: "(jsstring \<Rightarrow> jsstring) \<Rightarrow> jsstring \<Rightarrow> GraphNode \<Rightarrow> bool" where
  "labelMatches toLowerCase filterText n =
     includes_str (toLowerCase (label n)) (toLowerCase filterText)"

definition isNodeHighlighted ::
  "(jsstring \<Rightarrow> jsstring) \<Rightarrow> jsstring \<Rightarrow> GraphNode option \<Rightarrow> GraphNode GraphData \<Rightarrow> GraphNode \<Rightarrow> bool" where
  "isNodeHighlighted toLowerCase filterText selectedNode data d =
     (if isSearchActive filterText then labelMatches toLowerCase filterText d
      else case selectedNode of
        Some sel \<Rightarrow>
          node_id d = node_id sel \<or>
          list_ex (\<lambda>l.
              (endpointId (source l) = node_id sel \<and> endpointId (target l) = node_id d) \<or>
              (endpointId (target l) = node_id sel \<and> endpointId (source l) = node_id d))
            (links data)
      | None \<Rightarrow> True)"

text \<open>\<open>typeof e === 'object' ? e : data.nodes.find(n => n.id === e)\<close>\<close>

definition endpointNode :: "GraphNode GraphData \<Rightarrow> GraphNode endpoint \<Rightarrow> GraphNode option" where
  "endpointNode data e =
     (case e of EndObj n \<Rightarrow> Some n | EndId s \<Rightarrow> find (\<lambda>n. node_id n = s) (nodes data))"

definition isLinkHighlighted ::
  "(jsstring \<Rightarrow> jsstring) \<Rightarrow> jsstring \<Rightarrow> GraphNode option \<Rightarrow> GraphNode GraphData \<Rightarrow> GraphNode GraphLink \<Rightarrow> bool" where
  "isLinkHighlighted toLowerCase filterText selectedNode data d =
     (case selectedNode of
        Some sel \<Rightarrow> endpointId (source d) = node_id sel \<or> endpointId (target d) = node_id sel
      | None \<Rightarrow>
          if isSearchActive filterText then
            (case endpointNode data (source d) of
               None \<Rightarrow> False
             | Some sourceNode \<Rightarrow>
                 (case endpointNode data (target d) of
                    None \<Rightarrow> False
                  | Some targetNode \<Rightarrow>
                      labelMatches toLowerCase filterText sourceNode \<and>
                      labelMatches toLowerCase filterText targetNode))
          else True)"

subsection \<open>The viewport transform (d3-zoom's \<open>Transform\<close>)\<close>

record Transform =
  tk :: real
  tx :: real
  ty :: real

definition zoomIdentity :: Transform where
  "zoomIdentity = \<lparr>tk = 1, tx = 0, ty = 0\<rparr>"

definition translate :: "Transform \<Rightarrow> real \<Rightarrow> real \<Rightarrow> Transform" where
  "translate t a b = \<lparr>tk = tk t, tx = tx t + tk t * a, ty = ty t + tk t * b\<rparr>"

definition scale :: "Transform \<Rightarrow> real \<Rightarrow> Transform" where
  "scale t s = \<lparr>tk = tk t * s, tx = tx t, ty = ty t\<rparr>"

text \<open>The truthiness of an optional number: \<open>undefined\<close>, \<open>null\<close> and \<open>0\<close> are falsy.\<close>

definition truthy :: "jsnum \<Rightarrow> bool" where
  "truthy v = (case v of Num r \<Rightarrow> r \<noteq> 0 | _ \<Rightarrow> False)"

definition numOf :: "jsnum \<Rightarrow> real" where
  "numOf v = (case v of Num r \<Rightarrow> r | _ \<Rightarrow> 0)"

text \<open>"Auto-center on search match": the transform handed to \<open>zoom.transform\<close> under a
  750ms transition, or \<open>None\<close> when no transform is applied.  \<open>zoomReady\<close> says that
  \<open>zoomRef.current\<close> and \<open>svgSelectionRef.current\<close> are set.  \<open>firstMatch\<close> is looked up in
  \<open>data.nodes\<close>, the graph held in React state.\<close>

definition autoCenter ::
  "(jsstring \<Rightarrow> jsstring) \<Rightarrow> jsstring \<Rightarrow> GraphNode GraphData \<Rightarrow> real \<times> real \<Rightarrow> bool \<Rightarrow> Transform option" where
  "autoCenter toLowerCase filterText data dimensions zoomReady =
     (if isSearchActive filterText \<and> zoomReady then
        (case find (labelMatches toLowerCase filterText) (nodes data) of
           None \<Rightarrow> None
         | Some firstMatch \<Rightarrow>
             if truthy (node_x firstMatch) \<and> truthy (node_y firstMatch) then
               Some (translate
                       (scale (translate zoomIdentity (fst dimensions / 2) (snd dimensions / 2)) 1.5)
                       (- numOf (node_x firstMatch)) (- numOf (node_y firstMatch)))
             else None)
      else None)"

subsection \<open>The highlighting pass\<close>

definition accentStroke :: jsstring where "accentStroke = js ''#6366f1''"
definition defaultStroke :: jsstring where "defaultStroke = js ''#cbd5e1''"

text \<open>What one run of the effect leaves on the elements of the SVG, once its transitions
  have ended: the opacity of every node group, the opacity and stroke of every link line,
  the opacity of every link label, and the viewport transform it animates to, if any.
  \<open>domNodes\<close> and \<open>domLinks\<close> are the data bound to the elements \<open>.nodes g\<close> and
  \<open>.links line\<close> (the link labels are bound to the same links).\<close>

record Highlighting =
  nodeOpacity :: "real list"
  linkOpacity :: "real list"
  linkStroke :: "jsstring list"
  labelOpacity :: "real list"
  zoomTo :: "Transform option"

definition highlightEffect ::
  "(jsstring \<Rightarrow> jsstring) \<Rightarrow> jsstring \<Rightarrow> GraphNode option \<Rightarrow> GraphNode GraphData \<Rightarrow> real \<times> real \<Rightarrow> bool
     \<Rightarrow> GraphNode list \<Rightarrow> GraphNode GraphLink list \<Rightarrow> Highlighting" where
  "highlightEffect toLowerCase filterText selectedNode data dimensions zoomReady domNodes domLinks =
     (if \<not> isSearchActive filterText \<and> \<not> isSelectionActive selectedNode then
        \<lparr>nodeOpacity = map (\<lambda>d. 1) domNodes,
         linkOpacity = map (\<lambda>d. 1) domLinks,
         linkStroke = map (\<lambda>d. defaultStroke) domLinks,
         labelOpacity = map (\<lambda>d. 1) domLinks,
         zoomTo = None\<rparr>
      else
        \<lparr>nodeOpacity =
           map (\<lambda>d. if isNodeHighlighted toLowerCase filterText selectedNode data d then 1 else 0.1) domNodes,
         linkOpacity =
           map (\<lambda>d. if isLinkHighlighted toLowerCase filterText selectedNode data d then 1 else 0.1) domLinks,
         linkStroke =
           map (\<lambda>d. if isLinkHighlighted toLowerCase filterText selectedNode data d
                    then accentStroke else defaultStroke) domLinks,
         labelOpacity =
           map (\<lambda>d. if isLinkHighlighted toLowerCase filterText selectedNode data d then 1 else 0.1) domLinks,
         zoomTo = autoCenter toLowerCase filterText data dimensions zoomReady\<rparr>)"

subsection \<open>The specification's wording of the highlighting rules\<close>



section \<open>JSON values and the validation of an imported file (App.tsx)\<close>

text \<open>What \<open>JSON.parse\<close> returns.  \<open>JSON.parse\<close> itself is a built-in; the handlers take
  it as the parameter \<open>JSON_parse\<close>, with \<open>None\<close> for a text it rejects (a SyntaxError).\<close>

datatype json = JNull | JBool bool | JNum real | JStr jsstring | JArr "json list"
  | JObj "(jsstring \<times> json) list"

text \<open>An expression either throws or returns a value.\<close>

datatype 'a attempt = Throws | Returns 'a

text \<open>\<open>v.p\<close> on a parsed value: a TypeError on \<open>null\<close>, the property of an object (the
  last binding of a repeated key, as \<open>JSON.parse\<close> keeps it), \<open>undefined\<close> (\<open>None\<close>) where
  the object has no such key and on numbers, booleans, strings and arrays, which have none
  of the properties read here.\<close>

definition getProp :: "json \<Rightarrow> jsstring \<Rightarrow> json option attempt" where
  "getProp v p =
     (case v of JNull \<Rightarrow> Throws | JObj fs \<Rightarrow> Returns (map_of (rev fs) p) | _ \<Rightarrow> Returns None)"

definition isArray :: "json option \<Rightarrow> bool" where
  "isArray v = (case v of Some (JArr xs) \<Rightarrow> True | _ \<Rightarrow> False)"

definition arrayItems :: "json option \<Rightarrow> json list" where
  "arrayItems v = (case v of Some (JArr xs) \<Rightarrow> xs | _ \<Rightarrow> [])"

definition truthyJson :: "json option \<Rightarrow> bool" where
  "truthyJson v =
     (case v of None \<Rightarrow> False | Some JNull \<Rightarrow> False | Some (JBool b) \<Rightarrow> b
      | Some (JNum r) \<Rightarrow> r \<noteq> 0 | Some (JStr s) \<Rightarrow> s \<noteq> [] | Some _ \<Rightarrow> True)"

text \<open>\<open>parsedData.nodes.every((n) => n.id && n.label)\<close>: the elements are visited from
  the left, the visit stops at the first falsy result, and reading a property of a \<open>null\<close>
  element throws.\<close>

fun everyNodeValid :: "json list \<Rightarrow> bool attempt" where
  "everyNodeValid [] = Returns True"
| "everyNodeValid (n # ns) =
     (case getProp n (js ''id'') of
        Throws \<Rightarrow> Throws
      | Returns i \<Rightarrow>
          if \<not> truthyJson i then Returns False
          else (case getProp n (js ''label'') of
                  Throws \<Rightarrow> Throws
                | Returns l \<Rightarrow> if truthyJson l then everyNodeValid ns else Returns False))"

datatype Alert = AlertTooLarge | AlertNodeFields | AlertNotArrays | AlertCannotParse

datatype ImportDecision = Accept json | Reject Alert

text \<open>The \<open>try\<close> block of the JSON import: the parsed value is accepted, or one of three
  alerts is raised; every exception inside the block ends in the "cannot parse" alert.\<close>

definition validateImport :: "(jsstring \<Rightarrow> json option) \<Rightarrow> jsstring \<Rightarrow> ImportDecision" where
  "validateImport JSON_parse content =
     (case JSON_parse content of
        None \<Rightarrow> Reject AlertCannotParse
      | Some parsedData \<Rightarrow>
          (case getProp parsedData (js ''nodes'') of
             Throws \<Rightarrow> Reject AlertCannotParse
           | Returns ns \<Rightarrow>
               if \<not> isArray ns then Reject AlertNotArrays
               else (case getProp parsedData (js ''links'') of
                       Throws \<Rightarrow> Reject AlertCannotParse
                     | Returns ls \<Rightarrow>
                         if \<not> isArray ls then Reject AlertNotArrays
                         else (case everyNodeValid (arrayItems ns) of
                                 Throws \<Rightarrow> Reject AlertCannotParse
                               | Returns validNodes \<Rightarrow>
                                   if validNodes then Accept parsedData
                                   else Reject AlertNodeFields))))"

text \<open>The specification's wording of a validated graph: \<open>nodes\<close> and \<open>links\<close> are arrays
  and every node has a non-empty \<open>id\<close> and \<open>label\<close>.\<close>

definition hasIdAndLabel :: "json \<Rightarrow> bool" where
  "hasIdAndLabel n =
     (\<exists>i l. getProp n (js ''id'') = Returns i \<and> truthyJson i \<and>
            getProp n (js ''label'') = Returns l \<and> truthyJson l)"

definition validGraphJson :: "json \<Rightarrow> bool" where
  "validGraphJson j =
     (\<exists>ns ls. getProp j (js ''nodes'') = Returns (Some (JArr ns)) \<and>
              getProp j (js ''links'') = Returns (Some (JArr ls)) \<and>
              list_all hasIdAndLabel ns)"

subsection \<open>The generation service (geminiService.ts)\<close>

text \<open>What the call of the hosted model comes back with: a failure of the call, or a
  response whose \<open>text\<close> may be absent.  The prompt sent does not enter the properties
  below and is left out.\<close>

datatype ServiceResponse = ServiceError | ResponseText "jsstring option"

text \<open>\<open>generateKnowledgeGraph\<close>: every error (a failed call, no text, a text that does not
  parse) is rethrown as one error; a text that parses is returned as it is, under the
  annotation \<open>as GraphData\<close>.\<close>

definition generateKnowledgeGraph :: "(jsstring \<Rightarrow> json option) \<Rightarrow> ServiceResponse \<Rightarrow> json attempt" where
  "generateKnowledgeGraph JSON_parse response =
     (case response of
        ServiceError \<Rightarrow> Throws
      | ResponseText None \<Rightarrow> Throws
      | ResponseText (Some jsonText) \<Rightarrow>
          if jsonText = [] then Throws
          else (case JSON_parse jsonText of None \<Rightarrow> Throws | Some data \<Rightarrow> Returns data))"

subsection \<open>Reading a parsed value as \<open>GraphData\<close>\<close>

text \<open>
  \<open>setGraphData(parsedData)\<close> and \<open>as GraphData\<close> put a parsed value where a
  \<open>GraphData\<close> is expected, unchecked; what the page does with it depends on the value.
  A value is read as one of three things: a graph, when it has the shape the interface
  declares; a value on which the first reads of the set-up effect throw; or another value,
  which is not of the type the functions of this theory are written for.  The handlers take
  the reading as the parameter \<open>asGraphData\<close>; \<open>graphOfJson\<close> is the reading of the
  values of \<open>JSON.parse\<close>.
\<close>

datatype Reading = IsGraph "GraphNode GraphData" | Throwing | IllTyped

definition field :: "json \<Rightarrow> jsstring \<Rightarrow> json option" where
  "field j p = (case j of JObj fs \<Rightarrow> map_of (rev fs) p | _ \<Rightarrow> None)"

text \<open>A field of type \<open>string\<close>, \<open>string | undefined\<close>, \<open>number | undefined\<close> and
  \<open>number | null | undefined\<close>: \<open>None\<close> when the value is of another type.\<close>

definition jsonStr :: "json option \<Rightarrow> jsstring option" where
  "jsonStr v = (case v of Some (JStr s) \<Rightarrow> Some s | _ \<Rightarrow> None)"

definition jsonOptStr :: "json option \<Rightarrow> jsstring option option" where
  "jsonOptStr v = (case v of None \<Rightarrow> Some None | Some (JStr s) \<Rightarrow> Some (Some s) | _ \<Rightarrow> None)"

definition jsonNum :: "json option \<Rightarrow> jsnum option" where
  "jsonNum v = (case v of None \<Rightarrow> Some Undefined | Some (JNum r) \<Rightarrow> Some (Num r) | _ \<Rightarrow> None)"

definition jsonPin :: "json option \<Rightarrow> jsnum option" where
  "jsonPin v =
     (case v of None \<Rightarrow> Some Undefined | Some JNull \<Rightarrow> Some Null | Some (JNum r) \<Rightarrow> Some (Num r)
      | _ \<Rightarrow> None)"

definition nodeOfJson :: "json \<Rightarrow> GraphNode option" where
  "nodeOfJson j =
     (case j of
        JObj fs \<Rightarrow>
          Option.bind (jsonStr (field j (js ''id''))) (\<lambda>i.
          Option.bind (jsonStr (field j (js ''label''))) (\<lambda>l.
          Option.bind (jsonStr (field j (js ''group''))) (\<lambda>g.
          Option.bind (jsonOptStr (field j (js ''description''))) (\<lambda>d.
          Option.bind (jsonNum (field j (js ''index''))) (\<lambda>k.
          Option.bind (jsonNum (field j (js ''x''))) (\<lambda>x.
          Option.bind (jsonNum (field j (js ''y''))) (\<lambda>y.
          Option.bind (jsonNum (field j (js ''vx''))) (\<lambda>u.
          Option.bind (jsonNum (field j (js ''vy''))) (\<lambda>v.
          Option.bind (jsonPin (field j (js ''fx''))) (\<lambda>a.
          Option.bind (jsonPin (field j (js ''fy''))) (\<lambda>b.
            Some \<lparr>node_id = i, label = l, node_group = g, description = d, node_index = k,
                  node_x = x, node_y = y, vx = u, vy = v, fx = a, fy = b\<rparr>)))))))))))
      | _ \<Rightarrow> None)"

definition endpointOfJson :: "json option \<Rightarrow> GraphNode endpoint option" where
  "endpointOfJson v =
     (case v of
        Some (JStr s) \<Rightarrow> Some (EndId s)
      | Some (JObj fs) \<Rightarrow> map_option EndObj (nodeOfJson (JObj fs))
      | _ \<Rightarrow> None)"

definition linkOfJson :: "json \<Rightarrow> GraphNode GraphLink option" where
  "linkOfJson j =
     (case j of
        JObj fs \<Rightarrow>
          Option.bind (endpointOfJson (field j (js ''source''))) (\<lambda>s.
          Option.bind (endpointOfJson (field j (js ''target''))) (\<lambda>t.
          Option.bind (jsonStr (field j (js ''relation''))) (\<lambda>r.
            Some \<lparr>source = s, target = t, relation = r\<rparr>)))
      | _ \<Rightarrow> None)"

text \<open>
  The first reads of the set-up effect, \<open>!data.nodes.length\<close>, \<open>data.nodes.map(...)\<close> and
  \<open>data.links.map(...)\<close>.  Reading \<open>nodes\<close> of \<open>null\<close> throws, and so does reading
  \<open>length\<close> of \<open>undefined\<close> or \<open>null\<close>.  A \<open>length\<close> that is falsy (an empty array or
  string, and \<open>undefined\<close> on a number, a boolean or an object without that key) makes the
  effect return.  Otherwise \<open>map\<close> is called, which only an array has, first on \<open>nodes\<close>
  and then on \<open>links\<close>.
\<close>

definition setupThrows :: "json \<Rightarrow> bool" where
  "setupThrows j =
     (case getProp j (js ''nodes'') of
        Throws \<Rightarrow> True
      | Returns None \<Rightarrow> True
      | Returns (Some JNull) \<Rightarrow> True
      | Returns (Some (JArr ns)) \<Rightarrow> ns \<noteq> [] \<and> \<not> isArray (field j (js ''links''))
      | Returns (Some (JStr s)) \<Rightarrow> s \<noteq> []
      | Returns (Some (JObj fs)) \<Rightarrow> truthyJson (map_of (rev fs) (js ''length''))
      | Returns (Some _) \<Rightarrow> False)"

definition graphOfJson :: "json \<Rightarrow> Reading" where
  "graphOfJson j =
     (if setupThrows j then Throwing
      else case field j (js ''nodes'') of
             Some (JArr ns) \<Rightarrow>
               (case field j (js ''links'') of
                  Some (JArr ls) \<Rightarrow>
                    (case those (map nodeOfJson ns) of
                       None \<Rightarrow> IllTyped
                     | Some a \<Rightarrow>
                         (case those (map linkOfJson ls) of
                            None \<Rightarrow> IllTyped
                          | Some b \<Rightarrow> IsGraph \<lparr>nodes = a, links = b\<rparr>))
                | _ \<Rightarrow> IllTyped)
           | _ \<Rightarrow> IllTyped)"

section \<open>The object store\<close>

text \<open>
  Node objects are shared and written in place, so they live in a store: a list of objects,
  an object's address being its index; a new object is appended.  A graph in the store
  names its nodes by address, and so does a link whose endpoint is an object.  Link objects
  and the arrays are only replaced, never written after they are built, and are kept as
  values.
\<close>

type_synonym ref = nat

definition readEndpoint :: "GraphNode list \<Rightarrow> ref endpoint \<Rightarrow> GraphNode endpoint" where
  "readEndpoint h e = (case e of EndId s \<Rightarrow> EndId s | EndObj r \<Rightarrow> EndObj (h ! r))"

definition readLink :: "GraphNode list \<Rightarrow> ref GraphLink \<Rightarrow> GraphNode GraphLink" where
  "readLink h l = \<lparr>source = readEndpoint h (source l), target = readEndpoint h (target l),
     relation = relation l\<rparr>"

text \<open>The graph as a reader of the store sees it.\<close>

definition readGraph :: "GraphNode list \<Rightarrow> ref GraphData \<Rightarrow> GraphNode GraphData" where
  "readGraph h g = \<lparr>nodes = map (\<lambda>r. h ! r) (nodes g), links = map (readLink h) (links g)\<rparr>"

text \<open>Building the objects of a new graph (what \<open>JSON.parse\<close> does for the value it
  returns): every node and every endpoint object is a new object.\<close>

fun allocEndpoint :: "GraphNode endpoint \<Rightarrow> GraphNode list \<Rightarrow> ref endpoint \<times> GraphNode list" where
  "allocEndpoint (EndId s) h = (EndId s, h)"
| "allocEndpoint (EndObj n) h = (EndObj (length h), h @ [n])"

fun allocLinks :: "GraphNode GraphLink list \<Rightarrow> GraphNode list \<Rightarrow> ref GraphLink list \<times> GraphNode list" where
  "allocLinks [] h = ([], h)"
| "allocLinks (l # ls) h =
     (let (s, h1) = allocEndpoint (source l) h;
          (t, h2) = allocEndpoint (target l) h1;
          (rest, h3) = allocLinks ls h2
      in (\<lparr>source = s, target = t, relation = relation l\<rparr> # rest, h3))"

definition allocGraph :: "GraphNode GraphData \<Rightarrow> GraphNode list \<Rightarrow> ref GraphData \<times> GraphNode list" where
  "allocGraph g h =
     (let (ls, h2) = allocLinks (links g) (h @ nodes g)
      in (\<lparr>nodes = [length h ..< length h + length (nodes g)], links = ls\<rparr>, h2))"

section \<open>The page: React state, the SVG and the simulations\<close>

datatype Step = StepIdle | StepAnalyzing | StepBuilding | StepComplete | StepError

datatype Message = NoMessage | MsgAnalyzing | MsgBuilding | MsgComplete | MsgImported jsstring
  | MsgGenerationFailed

record GenerationStatus =
  loading :: bool
  step :: Step
  message :: Message

record File =
  file_name :: jsstring
  file_size :: nat
  file_content :: jsstring

text \<open>A force simulation: whether its timer runs, its node array and its link array (the
  links with their endpoints resolved).\<close>

record Simulation =
  running :: bool
  simNodes :: "ref list"
  simLinks :: "ref GraphLink list"

text \<open>The elements of the SVG with the data bound to them: a node group with its opacity
  and the translation its \<open>transform\<close> attribute holds (none before the first tick); a link
  line with its opacity and stroke, together with the opacity of its relation label.  The
  coordinates of lines and labels are functions of the same node positions and are left
  out.\<close>

record NodeElem =
  datum :: ref
  opacity :: real
  place :: "(jsnum \<times> jsnum) option"

record LinkElem =
  link_datum :: "ref GraphLink"
  link_opacity :: real
  stroke :: jsstring
  label_opacity :: real

text \<open>The content of the SVG after a run of the set-up effect: \<open>owner\<close> is the simulation
  whose tick callback and drag handlers are closed over these elements; \<open>gTransform\<close> is the
  \<open>transform\<close> attribute of the top group, set by the zoom handler.\<close>

record Svg =
  owner :: nat
  nodeElems :: "NodeElem list"
  linkElems :: "LinkElem list"
  gTransform :: "Transform option"

text \<open>
  The state of the page.  Of App: \<open>graphData\<close>, \<open>selectedNode\<close> (an object), \<open>query\<close>,
  \<open>status\<close>, the alerts shown so far and the number of generation requests in flight.  Of
  KnowledgeGraph: \<open>filterText\<close>, \<open>dimensions\<close>, the content of the SVG (\<open>None\<close>: no
  children), every simulation created so far, the clean-up registered by the last run of the
  set-up effect (the simulation it stops), whether \<open>zoomRef\<close> and \<open>svgSelectionRef\<close> are
  set, and the zoom transform stored on the SVG element.  \<open>crashed\<close>: an effect has thrown
  and React has unmounted the page.  \<open>illTyped\<close>: the value in \<open>graphData\<close> is not of the
  type \<open>GraphData\<close>; the functions of this theory, whose graphs are typed, do not follow
  the page from there on.
\<close>

record Page =
  heap :: "GraphNode list"
  graphData :: "ref GraphData"
  selectedNode :: "ref option"
  query :: jsstring
  status :: GenerationStatus
  alerts :: "Alert list"
  pending :: nat
  filterText :: jsstring
  dimensions :: "real \<times> real"
  svg :: "Svg option"
  sims :: "Simulation list"
  cleanup :: "nat option"
  zoomRef :: bool
  viewport :: Transform
  crashed :: bool
  illTyped :: bool

definition setGraphData :: "GraphNode GraphData \<Rightarrow> Page \<Rightarrow> Page" where
  "setGraphData newData p =
     (let (g, h) = allocGraph newData (heap p) in p\<lparr>heap := h, graphData := g\<rparr>)"

subsection \<open>The set-up effect (``Initialize and Run Simulation'')\<close>

text \<open>\<open>data.nodes.map(d => ({ ...d }))\<close>: one new object for each node, with the fields
  of the original.  \<open>data.links.map(d => ({ ...d }))\<close> copies each link object; the copy
  has the fields of the original, so an endpoint that is an object is the same object in
  both.\<close>

definition copyNodes :: "ref list \<Rightarrow> GraphNode list \<Rightarrow> ref list \<times> GraphNode list" where
  "copyNodes rs h = ([length h ..< length h + length rs], h @ map (\<lambda>r. h ! r) rs)"

definition copyLinks :: "ref GraphLink list \<Rightarrow> ref GraphLink list" where
  "copyLinks ls = map (\<lambda>d. \<lparr>source = source d, target = target d, relation = relation d\<rparr>) ls"

text \<open>
  \<open>d3.forceSimulation(nodes)\<close> (d3-force, not in src/) initialises the objects of the
  array it is given, in order: the object at position \<open>i\<close> gets \<open>index = i\<close>; a pin
  (\<open>fx\<close>, \<open>fy\<close> not \<open>null\<close> or \<open>undefined\<close>) becomes its coordinate; when \<open>x\<close> or \<open>y\<close> is
  not a number (\<open>isNaN\<close>, which holds of \<open>undefined\<close> and not of \<open>null\<close>) the object is
  placed on a spiral, at radius \<open>10 * sqrt (0.5 + i)\<close> and angle \<open>i * pi * (3 - sqrt 5)\<close>;
  when \<open>vx\<close> or \<open>vy\<close> is not a number both become 0.
\<close>

definition initialRadius :: real where
  "initialRadius = 10"

definition initialAngle :: real where
  "initialAngle = pi * (3 - sqrt 5)"

definition isNaN :: "jsnum \<Rightarrow> bool" where
  "isNaN v = (v = Undefined)"

definition initializeNode :: "nat \<Rightarrow> GraphNode \<Rightarrow> GraphNode" where
  "initializeNode i node =
     (let n1 = node\<lparr>node_index := Num (real i)\<rparr>;
          n2 = (case fx n1 of Num v \<Rightarrow> n1\<lparr>node_x := Num v\<rparr> | _ \<Rightarrow> n1);
          n3 = (case fy n2 of Num v \<Rightarrow> n2\<lparr>node_y := Num v\<rparr> | _ \<Rightarrow> n2);
          n4 = (if isNaN (node_x n3) \<or> isNaN (node_y n3)
                then n3\<lparr>node_x := Num (initialRadius * sqrt (0.5 + real i) * cos (real i * initialAngle)),
                        node_y := Num (initialRadius * sqrt (0.5 + real i) * sin (real i * initialAngle))\<rparr>
                else n3)
      in if isNaN (vx n4) \<or> isNaN (vy n4) then n4\<lparr>vx := Num 0, vy := Num 0\<rparr> else n4)"

definition initializeNodes :: "ref list \<Rightarrow> GraphNode list \<Rightarrow> GraphNode list" where
  "initializeNodes ns h =
     foldl (\<lambda>h' i. h'[ns ! i := initializeNode i (h' ! (ns ! i))]) h [0 ..< length ns]"

text \<open>d3-force's link force, when it is given the links (\<open>forceLink(links).id(d => d.id)\<close>):
  an endpoint that is not an object is replaced by the node of the simulation with that id
  (the last one, if several have it), and an error is thrown when there is none.  (It also
  writes an \<open>index\<close> into each link copy; the copies are read here only for their
  endpoints and relation, and the link record has no field for it.)\<close>

definition nodeById :: "GraphNode list \<Rightarrow> ref list \<Rightarrow> jsstring \<Rightarrow> ref option" where
  "nodeById h rs s = find (\<lambda>r. node_id (h ! r) = s) (rev rs)"

definition resolveEndpoint :: "GraphNode list \<Rightarrow> ref list \<Rightarrow> ref endpoint \<Rightarrow> ref endpoint option" where
  "resolveEndpoint h rs e =
     (case e of EndObj r \<Rightarrow> Some (EndObj r) | EndId s \<Rightarrow> map_option EndObj (nodeById h rs s))"

fun resolveLinks :: "GraphNode list \<Rightarrow> ref list \<Rightarrow> ref GraphLink list \<Rightarrow> ref GraphLink list option" where
  "resolveLinks h rs [] = Some []"
| "resolveLinks h rs (l # ls) =
     (case resolveEndpoint h rs (source l) of
        None \<Rightarrow> None
      | Some s \<Rightarrow>
          (case resolveEndpoint h rs (target l) of
             None \<Rightarrow> None
           | Some t \<Rightarrow>
               (case resolveLinks h rs ls of
                  None \<Rightarrow> None
                | Some rest \<Rightarrow> Some (\<lparr>source = s, target = t, relation = relation l\<rparr> # rest))))"

text \<open>The function the effect returned on its last run, called by React before the effect
  runs again: \<open>simulation.stop()\<close>.\<close>

definition runCleanup :: "Page \<Rightarrow> Page" where
  "runCleanup p =
     (case cleanup p of
        None \<Rightarrow> p
      | Some i \<Rightarrow> p\<lparr>sims := (sims p)[i := (sims p ! i)\<lparr>running := False\<rparr>], cleanup := None\<rparr>)"

text \<open>The body of the effect.  With no nodes it returns at once: nothing is cleared and no
  clean-up is registered.  Otherwise the SVG is cleared, the copies are made, the simulation
  is created on the copies of the nodes, which it initialises, and started, the link force
  is given the copies of the links, the zoom behaviour is attached, the elements are drawn
  and the clean-up is registered.  When the link force throws, the simulation has been
  created and its timer runs, without forces; nothing is drawn, no clean-up is registered,
  and React unmounts the page.\<close>

definition simulationEffect :: "Page \<Rightarrow> Page" where
  "simulationEffect p =
     (if nodes (graphData p) = [] then p
      else
        let (ns, h0) = copyNodes (nodes (graphData p)) (heap p);
            ls = copyLinks (links (graphData p));
            h = initializeNodes ns h0
        in case resolveLinks h ns ls of
             None \<Rightarrow>
               p\<lparr>heap := h,
                 sims := sims p @ [\<lparr>running = True, simNodes = ns, simLinks = []\<rparr>],
                 svg := None, crashed := True\<rparr>
           | Some rl \<Rightarrow>
               p\<lparr>heap := h,
                 sims := sims p @ [\<lparr>running = True, simNodes = ns, simLinks = rl\<rparr>],
                 cleanup := Some (length (sims p)),
                 zoomRef := True,
                 svg := Some \<lparr>owner = length (sims p),
                   nodeElems = map (\<lambda>r. \<lparr>datum = r, opacity = 1, place = None\<rparr>) ns,
                   linkElems = map (\<lambda>l. \<lparr>link_datum = l, link_opacity = 1, stroke = defaultStroke,
                                         label_opacity = 1\<rparr>) rl,
                   gTransform = None\<rparr>\<rparr>)"

subsection \<open>The highlighting effect on the page\<close>

definition restyleNode :: "NodeElem \<Rightarrow> real \<Rightarrow> NodeElem" where
  "restyleNode e v = e\<lparr>opacity := v\<rparr>"

definition restyleLink :: "LinkElem \<Rightarrow> real \<times> jsstring \<times> real \<Rightarrow> LinkElem" where
  "restyleLink e v = e\<lparr>link_opacity := fst v, stroke := fst (snd v), label_opacity := snd (snd v)\<rparr>"

definition restyle :: "Highlighting \<Rightarrow> Svg \<Rightarrow> Svg" where
  "restyle hl s =
     s\<lparr>nodeElems := map2 restyleNode (nodeElems s) (nodeOpacity hl),
       linkElems := map2 restyleLink (linkElems s)
                      (zip (linkOpacity hl) (zip (linkStroke hl) (labelOpacity hl))),
       gTransform := (case zoomTo hl of None \<Rightarrow> gTransform s | Some t \<Rightarrow> Some t)\<rparr>"

definition svgNodeData :: "Page \<Rightarrow> GraphNode list" where
  "svgNodeData p = (case svg p of None \<Rightarrow> [] | Some s \<Rightarrow> map (\<lambda>e. heap p ! datum e) (nodeElems s))"

definition svgLinkData :: "Page \<Rightarrow> GraphNode GraphLink list" where
  "svgLinkData p =
     (case svg p of None \<Rightarrow> [] | Some s \<Rightarrow> map (\<lambda>e. readLink (heap p) (link_datum e)) (linkElems s))"

definition pageHighlighting :: "(jsstring \<Rightarrow> jsstring) \<Rightarrow> Page \<Rightarrow> Highlighting" where
  "pageHighlighting toLowerCase p =
     highlightEffect toLowerCase (filterText p) (map_option (\<lambda>r. heap p ! r) (selectedNode p))
       (readGraph (heap p) (graphData p)) (dimensions p) (zoomRef p) (svgNodeData p) (svgLinkData p)"

definition highlightPage :: "(jsstring \<Rightarrow> jsstring) \<Rightarrow> Page \<Rightarrow> Page" where
  "highlightPage toLowerCase p =
     (let hl = pageHighlighting toLowerCase p
      in p\<lparr>svg := map_option (restyle hl) (svg p),
           viewport := (case zoomTo hl of None \<Rightarrow> viewport p | Some t \<Rightarrow> t)\<rparr>)"

text \<open>What React runs after a render in which \<open>data\<close> or \<open>dimensions\<close> changed: the
  clean-up of the set-up effect, the set-up effect, the highlighting effect.\<close>

definition afterDataChange :: "(jsstring \<Rightarrow> jsstring) \<Rightarrow> Page \<Rightarrow> Page" where
  "afterDataChange toLowerCase p =
     (let p1 = simulationEffect (runCleanup p)
      in if crashed p1 then p1 else highlightPage toLowerCase p1)"

subsection \<open>The handlers of App\<close>

text \<open>\<open>String.prototype.trim\<close> removes white space and line terminators at both ends.\<close>

definition isWhiteSpace :: "nat \<Rightarrow> bool" where
  "isWhiteSpace c \<longleftrightarrow>
     c \<in> {9, 10, 11, 12, 13, 32, 160, 0x1680, 0x2028, 0x2029, 0x202F, 0x205F, 0x3000, 0xFEFF} \<or>
     (0x2000 \<le> c \<and> c \<le> 0x200A)"

definition trim :: "jsstring \<Rightarrow> jsstring" where
  "trim s = rev (dropWhile isWhiteSpace (rev (dropWhile isWhiteSpace s)))"

definition endsWith :: "jsstring \<Rightarrow> jsstring \<Rightarrow> bool" where
  "endsWith s t = startsWith (rev s) (rev t)"

text \<open>\<open>setSelectedNode\<close>: React renders again, and the highlighting effect runs, only when
  the new value is another object than the one selected.\<close>

definition setSelectedNode :: "(jsstring \<Rightarrow> jsstring) \<Rightarrow> ref option \<Rightarrow> Page \<Rightarrow> Page" where
  "setSelectedNode toLowerCase v p =
     (if selectedNode p = v then p else highlightPage toLowerCase (p\<lparr>selectedNode := v\<rparr>))"

text \<open>The render after a value on which the set-up effect throws has been put in state:
  React has called the clean-up of the effect's last run, and unmounts the page.\<close>

definition setupFails :: "Page \<Rightarrow> Page" where
  "setupFails p = (runCleanup p)\<lparr>svg := None, crashed := True\<rparr>"

text \<open>\<open>handleFileUpload\<close> with the \<open>onload\<close> callback of its reader.  A file above 5 MB
  is refused; a file whose name ends in \<open>.json\<close> is validated and, when accepted, replaces
  the graph, empties the query, sets the status and clears the selection; any other file
  becomes the query text.\<close>

definition handleFileUpload ::
  "(jsstring \<Rightarrow> jsstring) \<Rightarrow> (jsstring \<Rightarrow> json option) \<Rightarrow> (json \<Rightarrow> Reading) \<Rightarrow> File \<Rightarrow> Page \<Rightarrow> Page" where
  "handleFileUpload toLowerCase JSON_parse asGraphData file p =
     (if file_size file > 1024 * 1024 * 5 then p\<lparr>alerts := alerts p @ [AlertTooLarge]\<rparr>
      else if endsWith (toLowerCase (file_name file)) (js ''.json'') then
        (case validateImport JSON_parse (file_content file) of
           Accept parsedData \<Rightarrow>
             (case asGraphData parsedData of
                IsGraph newData \<Rightarrow>
                  afterDataChange toLowerCase
                    ((setGraphData newData p)
                       \<lparr>query := [],
                        status := \<lparr>loading = False, step = StepComplete,
                                   message = MsgImported (file_name file)\<rparr>,
                        selectedNode := None\<rparr>)
              | Throwing \<Rightarrow>
                  setupFails
                    (p\<lparr>query := [],
                       status := \<lparr>loading = False, step = StepComplete,
                                  message = MsgImported (file_name file)\<rparr>,
                       selectedNode := None\<rparr>)
              | IllTyped \<Rightarrow>
                  p\<lparr>query := [],
                    status := \<lparr>loading = False, step = StepComplete,
                               message = MsgImported (file_name file)\<rparr>,
                    selectedNode := None,
                    illTyped := True\<rparr>)
         | Reject a \<Rightarrow> p\<lparr>alerts := alerts p @ [a]\<rparr>)
      else p\<lparr>query := file_content file\<rparr>)"

text \<open>\<open>handleGenerate\<close> up to its first \<open>await\<close>: nothing happens on a blank query;
  otherwise the status is set to loading and the selection is cleared, and a request is
  in flight.\<close>

definition handleGenerate_submit :: "(jsstring \<Rightarrow> jsstring) \<Rightarrow> Page \<Rightarrow> Page" where
  "handleGenerate_submit toLowerCase p =
     (if trim (query p) = [] then p
      else setSelectedNode toLowerCase None
             (p\<lparr>status := \<lparr>loading = True, step = StepAnalyzing, message = MsgAnalyzing\<rparr>,
                pending := pending p + 1\<rparr>))"

text \<open>\<open>handleGenerate\<close> from the answer of the service on: the value returned replaces
  the graph held (the status passes through "building" on the way), or the error is caught
  and only the status changes.\<close>

definition handleGenerate_settle ::
  "(jsstring \<Rightarrow> jsstring) \<Rightarrow> (jsstring \<Rightarrow> json option) \<Rightarrow> (json \<Rightarrow> Reading) \<Rightarrow> ServiceResponse \<Rightarrow> Page \<Rightarrow> Page" where
  "handleGenerate_settle toLowerCase JSON_parse asGraphData response p =
     (case generateKnowledgeGraph JSON_parse response of
        Returns newData \<Rightarrow>
          (case asGraphData newData of
             IsGraph g \<Rightarrow>
               afterDataChange toLowerCase
                 ((setGraphData g p)
                    \<lparr>status := \<lparr>loading = False, step = StepComplete, message = MsgComplete\<rparr>,
                     pending := pending p - 1\<rparr>)
           | Throwing \<Rightarrow>
               setupFails
                 (p\<lparr>status := \<lparr>loading = False, step = StepComplete, message = MsgComplete\<rparr>,
                    pending := pending p - 1\<rparr>)
           | IllTyped \<Rightarrow>
               p\<lparr>status := \<lparr>loading = False, step = StepComplete, message = MsgComplete\<rparr>,
                 pending := pending p - 1,
                 illTyped := True\<rparr>)
      | Throws \<Rightarrow>
          p\<lparr>status := \<lparr>loading = False, step = StepError, message = MsgGenerationFailed\<rparr>,
            pending := pending p - 1\<rparr>)"

text \<open>The list "related connections" of the side panel: for each link of the graph that
  touches the selected node, the node at its other end as found in \<open>graphData.nodes\<close>
  (\<open>None\<close>: no entry is drawn).  A click on an entry selects that node.\<close>

definition getNodeId :: "GraphNode list \<Rightarrow> ref endpoint \<Rightarrow> jsstring" where
  "getNodeId h e = (case e of EndId s \<Rightarrow> s | EndObj r \<Rightarrow> node_id (h ! r))"

definition relatedNodes :: "Page \<Rightarrow> ref option list" where
  "relatedNodes p =
     (case selectedNode p of
        None \<Rightarrow> []
      | Some sel \<Rightarrow>
          map (\<lambda>link.
                 let sId = getNodeId (heap p) (source link);
                     otherId = (if sId = node_id (heap p ! sel) then getNodeId (heap p) (target link) else sId)
                 in find (\<lambda>r. node_id (heap p ! r) = otherId) (nodes (graphData p)))
            (filter (\<lambda>link. getNodeId (heap p) (source link) = node_id (heap p ! sel) \<or>
                            getNodeId (heap p) (target link) = node_id (heap p ! sel))
               (links (graphData p))))"

subsection \<open>The handlers of KnowledgeGraph\<close>

definition setFilterText :: "(jsstring \<Rightarrow> jsstring) \<Rightarrow> jsstring \<Rightarrow> Page \<Rightarrow> Page" where
  "setFilterText toLowerCase v p =
     (if filterText p = v then p else highlightPage toLowerCase (p\<lparr>filterText := v\<rparr>))"

text \<open>\<open>handleResize\<close> stores a new dimensions object, so both effects run again.\<close>

definition handleResize :: "(jsstring \<Rightarrow> jsstring) \<Rightarrow> real \<Rightarrow> real \<Rightarrow> Page \<Rightarrow> Page" where
  "handleResize toLowerCase w h p = afterDataChange toLowerCase (p\<lparr>dimensions := (w, h)\<rparr>)"

text \<open>The click handler of the \<open>k\<close>-th node group: \<open>onNodeClick(d)\<close> with its datum.\<close>

definition nodeClicked :: "(jsstring \<Rightarrow> jsstring) \<Rightarrow> nat \<Rightarrow> Page \<Rightarrow> Page" where
  "nodeClicked toLowerCase k p =
     (case svg p of
        None \<Rightarrow> p
      | Some s \<Rightarrow>
          if k < length (nodeElems s) then setSelectedNode toLowerCase (Some (datum (nodeElems s ! k))) p
          else p)"

text \<open>The drag handlers of the \<open>k\<close>-th node group, with one pointer (\<open>event.active\<close> is 0
  at the start and at the end of its gesture).  They are closed over the simulation of the
  run that drew the element.\<close>

definition dragstarted :: "nat \<Rightarrow> Page \<Rightarrow> Page" where
  "dragstarted k p =
     (case svg p of
        None \<Rightarrow> p
      | Some s \<Rightarrow>
          if k < length (nodeElems s) then
            let r = datum (nodeElems s ! k); d = heap p ! r
            in p\<lparr>sims := (sims p)[owner s := (sims p ! owner s)\<lparr>running := True\<rparr>],
                 heap := (heap p)[r := d\<lparr>fx := node_x d, fy := node_y d\<rparr>]\<rparr>
          else p)"

definition dragged :: "nat \<Rightarrow> real \<Rightarrow> real \<Rightarrow> Page \<Rightarrow> Page" where
  "dragged k ex ey p =
     (case svg p of
        None \<Rightarrow> p
      | Some s \<Rightarrow>
          if k < length (nodeElems s) then
            let r = datum (nodeElems s ! k); d = heap p ! r
            in p\<lparr>heap := (heap p)[r := d\<lparr>fx := Num ex, fy := Num ey\<rparr>]\<rparr>
          else p)"

definition dragended :: "nat \<Rightarrow> Page \<Rightarrow> Page" where
  "dragended k p =
     (case svg p of
        None \<Rightarrow> p
      | Some s \<Rightarrow>
          if k < length (nodeElems s) then
            let r = datum (nodeElems s ! k); d = heap p ! r
            in p\<lparr>heap := (heap p)[r := d\<lparr>fx := Null, fy := Null\<rparr>]\<rparr>
          else p)"

subsection \<open>The force engine\<close>

text \<open>
  d3-force (not in src/), as far as the store is concerned.  A tick of a running simulation
  changes the velocities of the endpoint objects of its links (the link force) and then the
  velocities and positions of its nodes; a node pinned by \<open>fx\<close>/\<open>fy\<close> is put at its pin
  with velocity 0.  The numbers the engine computes are not modelled: \<open>upd\<close> gives, for
  each object, the position and velocity the tick writes.
\<close>

definition refsOf :: "ref endpoint \<Rightarrow> ref list" where
  "refsOf e = (case e of EndId s \<Rightarrow> [] | EndObj r \<Rightarrow> [r])"

definition endpointRefs :: "ref GraphLink list \<Rightarrow> ref list" where
  "endpointRefs ls = concat (map (\<lambda>l. refsOf (source l) @ refsOf (target l)) ls)"

definition pushNode :: "real \<times> real \<times> real \<times> real \<Rightarrow> GraphNode \<Rightarrow> GraphNode" where
  "pushNode u n = n\<lparr>vx := Num (fst (snd (snd u))), vy := Num (snd (snd (snd u)))\<rparr>"

definition moveNode :: "real \<times> real \<times> real \<times> real \<Rightarrow> GraphNode \<Rightarrow> GraphNode" where
  "moveNode u n =
     n\<lparr>node_x := (case fx n of Num v \<Rightarrow> Num v | _ \<Rightarrow> Num (fst u)),
       node_y := (case fy n of Num v \<Rightarrow> Num v | _ \<Rightarrow> Num (fst (snd u))),
       vx := (case fx n of Num v \<Rightarrow> Num 0 | _ \<Rightarrow> Num (fst (snd (snd u)))),
       vy := (case fy n of Num v \<Rightarrow> Num 0 | _ \<Rightarrow> Num (snd (snd (snd u))))\<rparr>"

definition engineTick ::
  "Simulation \<Rightarrow> (ref \<Rightarrow> real \<times> real \<times> real \<times> real) \<Rightarrow> GraphNode list \<Rightarrow> GraphNode list" where
  "engineTick sim upd h =
     foldr (\<lambda>r h'. h'[r := moveNode (upd r) (h' ! r)]) (simNodes sim)
       (foldr (\<lambda>r h'. h'[r := pushNode (upd r) (h' ! r)]) (endpointRefs (simLinks sim)) h)"

text \<open>The tick callback of simulation \<open>i\<close> writes the positions of the data into the
  elements it is closed over, which are the content of the SVG only as long as no later
  run has replaced them.\<close>

definition tickRender :: "nat \<Rightarrow> Page \<Rightarrow> Page" where
  "tickRender i p =
     p\<lparr>svg := map_option
         (\<lambda>s. if owner s = i
              then s\<lparr>nodeElems := map (\<lambda>e. e\<lparr>place := Some (node_x (heap p ! datum e),
                                                           node_y (heap p ! datum e))\<rparr>) (nodeElems s)\<rparr>
              else s) (svg p)\<rparr>"

definition tick :: "nat \<Rightarrow> (ref \<Rightarrow> real \<times> real \<times> real \<times> real) \<Rightarrow> Page \<Rightarrow> Page" where
  "tick i upd p =
     (if i < length (sims p) \<and> running (sims p ! i)
      then tickRender i (p\<lparr>heap := engineTick (sims p ! i) upd (heap p)\<rparr>)
      else p)"

text \<open>A simulation whose energy has decayed stops its timer.\<close>

definition simulationEnded :: "nat \<Rightarrow> Page \<Rightarrow> Page" where
  "simulationEnded i p =
     (if i < length (sims p) then p\<lparr>sims := (sims p)[i := (sims p ! i)\<lparr>running := False\<rparr>]\<rparr> else p)"

subsection \<open>Zoom gestures\<close>

text \<open>
  Modelled from the spec: the gestures are handled by d3-zoom, configured by
  \<open>.scaleExtent([0.1, 4])\<close>; d3-zoom is not in src/.  The specification (4.2): the viewport
  is a single transform, translate and uniform scale, the scale bounded to the configured
  range.  A gesture asks for the scale to be multiplied by a factor about a point, or for a
  translation; the requested scale is clamped to the range.
\<close>

definition scaleExtent :: "real \<times> real" where
  "scaleExtent = (0.1, 4)"

definition zoomBy :: "real \<Rightarrow> real \<Rightarrow> real \<Rightarrow> Transform \<Rightarrow> Transform" where
  "zoomBy f px py t =
     (let k = max (fst scaleExtent) (min (snd scaleExtent) (tk t * f))
      in \<lparr>tk = k, tx = px - (px - tx t) / tk t * k, ty = py - (py - ty t) / tk t * k\<rparr>)"

definition panBy :: "real \<Rightarrow> real \<Rightarrow> Transform \<Rightarrow> Transform" where
  "panBy dx dy t = t\<lparr>tx := tx t + dx, ty := ty t + dy\<rparr>"

text \<open>The zoom handler of the component: \<open>g.attr("transform", event.transform)\<close>.  A
  gesture reaches it once the zoom behaviour is attached to the SVG.\<close>

definition zoomed :: "Transform \<Rightarrow> Page \<Rightarrow> Page" where
  "zoomed t p =
     (if zoomRef p
      then p\<lparr>viewport := t, svg := map_option (\<lambda>s. s\<lparr>gTransform := Some t\<rparr>) (svg p)\<rparr>
      else p)"

subsection \<open>Events\<close>

definition initialPage :: Page where
  "initialPage =
     (let (g, h) = allocGraph INITIAL_DATA []
      in \<lparr>heap = h, graphData = g, selectedNode = None, query = [],
          status = \<lparr>loading = False, step = StepIdle, message = NoMessage\<rparr>,
          alerts = [], pending = 0, filterText = [], dimensions = (800, 600), svg = None,
          sims = [], cleanup = None, zoomRef = False, viewport = zoomIdentity, crashed = False,
          illTyped = False\<rparr>)"

text \<open>Mounting: the effects run on the initial state, and the resize effect stores the
  size of the container.\<close>

definition mount :: "(jsstring \<Rightarrow> jsstring) \<Rightarrow> real \<Rightarrow> real \<Rightarrow> Page" where
  "mount toLowerCase w h = handleResize toLowerCase w h (afterDataChange toLowerCase initialPage)"

datatype Event =
    FileUpload File
  | QueryInput jsstring
  | GenerateSubmit
  | GenerateSettle ServiceResponse
  | NodeClick nat
  | RelatedClick nat
  | ClearSelection
  | SearchInput jsstring
  | Resize real real
  | Tick nat "ref \<Rightarrow> real \<times> real \<times> real \<times> real"
  | SimulationEnd nat
  | DragStart nat
  | Drag nat real real
  | DragEnd nat
  | ZoomBy real real real
  | PanBy real real

text \<open>One event on the page.  Nothing happens on an unmounted page, and a page whose graph
  is not of the declared type is not followed.  The submit button and the key binding are
  disabled while the status is loading; an answer of the service arrives only for a request
  in flight.\<close>

definition pageStep ::
  "(jsstring \<Rightarrow> jsstring) \<Rightarrow> (jsstring \<Rightarrow> json option) \<Rightarrow> (json \<Rightarrow> Reading) \<Rightarrow> Page \<Rightarrow> Event \<Rightarrow> Page" where
  "pageStep toLowerCase JSON_parse asGraphData p ev =
     (if crashed p \<or> illTyped p then p
      else case ev of
        FileUpload file \<Rightarrow> handleFileUpload toLowerCase JSON_parse asGraphData file p
      | QueryInput v \<Rightarrow> p\<lparr>query := v\<rparr>
      | GenerateSubmit \<Rightarrow> if loading (status p) then p else handleGenerate_submit toLowerCase p
      | GenerateSettle response \<Rightarrow>
          if pending p = 0 then p
          else handleGenerate_settle toLowerCase JSON_parse asGraphData response p
      | NodeClick k \<Rightarrow> nodeClicked toLowerCase k p
      | RelatedClick k \<Rightarrow>
          if k < length (relatedNodes p)
          then (case relatedNodes p ! k of None \<Rightarrow> p | Some r \<Rightarrow> setSelectedNode toLowerCase (Some r) p)
          else p
      | ClearSelection \<Rightarrow> setSelectedNode toLowerCase None p
      | SearchInput v \<Rightarrow> setFilterText toLowerCase v p
      | Resize w h \<Rightarrow> handleResize toLowerCase w h p
      | Tick i upd \<Rightarrow> tick i upd p
      | SimulationEnd i \<Rightarrow> simulationEnded i p
      | DragStart k \<Rightarrow> dragstarted k p
      | Drag k ex ey \<Rightarrow> dragged k ex ey p
      | DragEnd k \<Rightarrow> dragended k p
      | ZoomBy f px py \<Rightarrow> zoomed (zoomBy f px py (viewport p)) p
      | PanBy dx dy \<Rightarrow> zoomed (panBy dx dy (viewport p)) p)"

definition runPage ::
  "(jsstring \<Rightarrow> jsstring) \<Rightarrow> (jsstring \<Rightarrow> json option) \<Rightarrow> (json \<Rightarrow> Reading) \<Rightarrow> Page \<Rightarrow> Event list \<Rightarrow> Page" where
  "runPage toLowerCase JSON_parse asGraphData p evs =
     foldl (pageStep toLowerCase JSON_parse asGraphData) p evs"

text \<open>\<open>exportJSON\<close>: the text handed to the download is \<open>JSON.stringify(data, null, 2)\<close>,
  of the graph as it is in the store at that moment; \<open>JSON.stringify\<close> is a built-in and a
  parameter here.\<close>

definition exportJSON :: "(GraphNode GraphData \<Rightarrow> jsstring) \<Rightarrow> Page \<Rightarrow> jsstring" where
  "exportJSON JSON_stringify p = JSON_stringify (readGraph (heap p) (graphData p))"

section \<open>Observations on the page, and sample inputs\<close>

text \<open>What is drawn: the simulation the elements belong to, the datum and the position of
  every node group, the datum of every link line.\<close>

definition svgElements :: "Svg \<Rightarrow> nat \<times> (ref \<times> (jsnum \<times> jsnum) option) list \<times> ref GraphLink list" where
  "svgElements s = (owner s, map (\<lambda>e. (datum e, place e)) (nodeElems s), map link_datum (linkElems s))"

text \<open>A transform whose scale is within the configured range.\<close>

definition inExtent :: "Transform \<Rightarrow> bool" where
  "inExtent t \<longleftrightarrow> fst scaleExtent \<le> tk t \<and> tk t \<le> snd scaleExtent"

definition viewportInExtent :: "Page \<Rightarrow> bool" where
  "viewportInExtent p \<longleftrightarrow>
     inExtent (viewport p) \<and>
     (case svg p of None \<Rightarrow> True
      | Some s \<Rightarrow> (case gTransform s of None \<Rightarrow> True | Some t \<Rightarrow> inExtent t))"

text \<open>An endpoint object of a link is an object of the store.\<close>

definition wfEndpoint :: "GraphNode list \<Rightarrow> ref endpoint \<Rightarrow> bool" where
  "wfEndpoint h e = (case e of EndId s \<Rightarrow> True | EndObj r \<Rightarrow> r < length h)"

definition wfLink :: "GraphNode list \<Rightarrow> ref GraphLink \<Rightarrow> bool" where
  "wfLink h l \<longleftrightarrow> wfEndpoint h (source l) \<and> wfEndpoint h (target l)"

text \<open>The objects a simulation starts with when it is created on copies of the given
  nodes: the copies as the engine has initialised them.\<close>

definition simulationNodes :: "GraphNode list \<Rightarrow> GraphNode list" where
  "simulationNodes ns = map (\<lambda>i. initializeNode i (ns ! i)) [0 ..< length ns]"

text \<open>The links of the graph as the link force resolves them against the copies the
  set-up effect makes (\<open>None\<close>: some endpoint names no node).\<close>

definition resolvedLinks :: "Page \<Rightarrow> ref GraphLink list option" where
  "resolvedLinks q =
     resolveLinks (heap q @ simulationNodes (map (\<lambda>r. heap q ! r) (nodes (graphData q))))
       [length (heap q) ..< length (heap q) + length (nodes (graphData q))]
       (copyLinks (links (graphData q)))"

text \<open>The two ways in which the graph is replaced, an imported file and an answer of the
  generation service; the handler each one runs; and the parsed value that is put in place
  of the graph, if the attempt gets that far.\<close>

datatype Replacement = ByImport File | ByGeneration ServiceResponse

definition replaceBy ::
  "(jsstring \<Rightarrow> jsstring) \<Rightarrow> (jsstring \<Rightarrow> json option) \<Rightarrow> (json \<Rightarrow> Reading) \<Rightarrow> Replacement \<Rightarrow> Page \<Rightarrow> Page" where
  "replaceBy toLowerCase JSON_parse asGraphData rp p =
     (case rp of
        ByImport f \<Rightarrow> handleFileUpload toLowerCase JSON_parse asGraphData f p
      | ByGeneration r \<Rightarrow> handleGenerate_settle toLowerCase JSON_parse asGraphData r p)"

definition replacementValue ::
  "(jsstring \<Rightarrow> jsstring) \<Rightarrow> (jsstring \<Rightarrow> json option) \<Rightarrow> Replacement \<Rightarrow> json option" where
  "replacementValue toLowerCase JSON_parse rp =
     (case rp of
        ByImport f \<Rightarrow>
          if file_size f > 1024 * 1024 * 5 then None
          else if endsWith (toLowerCase (file_name f)) (js ''.json'') then
            (case validateImport JSON_parse (file_content f) of Accept j \<Rightarrow> Some j | Reject a \<Rightarrow> None)
          else None
      | ByGeneration r \<Rightarrow>
          (case generateKnowledgeGraph JSON_parse r of Returns j \<Rightarrow> Some j | Throws \<Rightarrow> None))"

definition isImport :: "Replacement \<Rightarrow> bool" where
  "isImport rp = (case rp of ByImport f \<Rightarrow> True | ByGeneration r \<Rightarrow> False)"

subsection \<open>The objects the simulations write\<close>

text \<open>A graph whose links name their endpoints by id, as the generation service and the
  sample data give them.\<close>

definition isEndId :: "'n endpoint \<Rightarrow> bool" where
  "isEndId e = (case e of EndId s \<Rightarrow> True | EndObj n \<Rightarrow> False)"

definition idEndpoints :: "'n GraphLink list \<Rightarrow> bool" where
  "idEndpoints ls = list_all (\<lambda>l. isEndId (source l) \<and> isEndId (target l)) ls"

text \<open>The objects a simulation writes on a tick (its nodes and the endpoint objects of its
  links), the objects the drag handlers write (the data of the node groups), and all of
  them together.\<close>

definition simRefs :: "Simulation \<Rightarrow> ref list" where
  "simRefs sim = simNodes sim @ endpointRefs (simLinks sim)"

definition svgRefs :: "Page \<Rightarrow> ref list" where
  "svgRefs p = (case svg p of None \<Rightarrow> [] | Some s \<Rightarrow> map datum (nodeElems s))"

definition workingRefs :: "Page \<Rightarrow> ref list" where
  "workingRefs p = concat (map simRefs (sims p)) @ svgRefs p"

text \<open>The graph in state is apart from the objects that are written: its links name their
  endpoints by id, and none of its nodes is among those objects.\<close>

definition dataSeparate :: "Page \<Rightarrow> bool" where
  "dataSeparate p \<longleftrightarrow>
     idEndpoints (links (graphData p)) \<and>
     list_all (\<lambda>r. r < length (heap p)) (nodes (graphData p)) \<and>
     list_all (\<lambda>r. r < length (heap p) \<and> r \<notin> set (nodes (graphData p))) (workingRefs p)"

text \<open>The graph as \<open>exportJSON\<close> and the highlighting effect read it; the events that
  may replace it; a graph none of whose nodes has a position.\<close>

definition pageGraph :: "Page \<Rightarrow> GraphNode GraphData" where
  "pageGraph p = readGraph (heap p) (graphData p)"

definition isReplacement :: "Event \<Rightarrow> bool" where
  "isReplacement ev = (case ev of FileUpload f \<Rightarrow> True | GenerateSettle r \<Rightarrow> True | _ \<Rightarrow> False)"

definition unpositioned :: "GraphNode GraphData \<Rightarrow> bool" where
  "unpositioned g = list_all (\<lambda>n. node_x n = Undefined) (nodes g)"

subsection \<open>Sample pages and files\<close>

text \<open>The page once the effects have run on the initial state.\<close>

definition samplePage :: Page where
  "samplePage = afterDataChange toLowerCase_basic initialPage"

text \<open>Parsed files: a graph of two nodes "a" and "b" with one link between them, named by
  id (and the graph it is read as); the same graph with the node object of "a" written out
  as the source of the link; a graph without nodes; an object with an empty \<open>nodes\<close> array
  and no \<open>links\<close>; a graph of one node whose label is the empty string.\<close>

definition jsonNode :: "string \<Rightarrow> string \<Rightarrow> json" where
  "jsonNode i l = JObj [(js ''id'', JStr (js i)), (js ''label'', JStr (js l)), (js ''group'', JStr (js ''g''))]"

definition pairGraphJson :: json where
  "pairGraphJson = JObj [(js ''nodes'', JArr [jsonNode ''a'' ''A'', jsonNode ''b'' ''B'']),
     (js ''links'', JArr [JObj [(js ''source'', JStr (js ''a'')), (js ''target'', JStr (js ''b'')),
        (js ''relation'', JStr (js ''r''))]])]"

definition pairGraph :: "GraphNode GraphData" where
  "pairGraph = \<lparr>nodes = [mkNode (js ''a'') (js ''A'') (js ''g''), mkNode (js ''b'') (js ''B'') (js ''g'')],
     links = [mkLink (js ''a'') (js ''b'') (js ''r'')]\<rparr>"

definition sharedEndpointJson :: json where
  "sharedEndpointJson = JObj [(js ''nodes'', JArr [jsonNode ''a'' ''A'', jsonNode ''b'' ''B'']),
     (js ''links'', JArr [JObj [(js ''source'', jsonNode ''a'' ''A''), (js ''target'', JStr (js ''b'')),
        (js ''relation'', JStr (js ''r''))]])]"

definition emptyGraphJson :: json where
  "emptyGraphJson = JObj [(js ''nodes'', JArr []), (js ''links'', JArr [])]"

definition nodesOnlyJson :: json where
  "nodesOnlyJson = JObj [(js ''nodes'', JArr [])]"

definition blankLabelJson :: json where
  "blankLabelJson = JObj [(js ''nodes'', JArr [jsonNode ''a'' []]), (js ''links'', JArr [])]"

definition jsonFile :: File where
  "jsonFile = \<lparr>file_name = js ''graph.JSON'', file_size = 300, file_content = js ''...''\<rparr>"

text \<open>The sample page after the file with the written-out endpoint has been imported, and
  after one tick of the simulation that import started.\<close>

definition sharedPage :: Page where
  "sharedPage = handleFileUpload toLowerCase_basic (\<lambda>t. Some sharedEndpointJson) graphOfJson jsonFile samplePage"

definition tickedPage :: Page where
  "tickedPage = tick 1 (\<lambda>r. (1, 2, 3, 4)) sharedPage"

text \<open>The sample page with the label of "ml" typed into the search box, and after the
  two-node graph has then been imported.\<close>

definition searchedPage :: Page where
  "searchedPage = setFilterText toLowerCase_basic label_ml samplePage"

definition importedPage :: Page where
  "importedPage = handleFileUpload toLowerCase_basic (\<lambda>t. Some pairGraphJson) graphOfJson jsonFile searchedPage"

text \<open>The sample page with its second node clicked, "a" typed into the search box and a
  topic typed into the query box.\<close>

definition busyPage :: Page where
  "busyPage = runPage toLowerCase_basic (\<lambda>t. None) graphOfJson samplePage
     [NodeClick 1, SearchInput (js ''a''), QueryInput (js ''topic'')]"

text \<open>The sample page after the file without nodes has been imported and the first node
  group, still drawn, has been grabbed; and after the two-node graph has then been
  imported.\<close>

definition stalePage :: Page where
  "stalePage = runPage toLowerCase_basic (\<lambda>t. Some emptyGraphJson) graphOfJson samplePage
     [FileUpload jsonFile, DragStart 0]"

definition staleImportedPage :: Page where
  "staleImportedPage =
     handleFileUpload toLowerCase_basic (\<lambda>t. Some pairGraphJson) graphOfJson jsonFile stalePage"

text \<open>The sample page after the object without \<open>links\<close> has come as an imported file,
  and after \<open>null\<close> and the graph whose node has an empty label have come as the answer
  of the generation service to a submitted query.\<close>

definition rejectedPage :: Page where
  "rejectedPage = handleFileUpload toLowerCase_basic (\<lambda>t. Some nodesOnlyJson) graphOfJson jsonFile samplePage"

definition nullAnswerPage :: Page where
  "nullAnswerPage = runPage toLowerCase_basic (\<lambda>t. Some JNull) graphOfJson samplePage
     [QueryInput (js ''topic''), GenerateSubmit, GenerateSettle (ResponseText (Some (js ''...'')))]"

definition generatedPage :: Page where
  "generatedPage = runPage toLowerCase_basic (\<lambda>t. Some blankLabelJson) graphOfJson samplePage
     [QueryInput (js ''topic''), GenerateSubmit, GenerateSettle (ResponseText (Some (js ''...'')))]"


section \<open>Properties of the string functions\<close>

lemma startsWith_prefix: "startsWith s t \<longleftrightarrow> prefix t s"
  by (induction s t rule: startsWith.induct) auto

lemma includes_str_sublist: "includes_str s t \<longleftrightarrow> sublist t s"
  by (induction s) (auto simp: startsWith_prefix sublist_Cons_right)

lemma labelMatches_iff:
  "labelMatches toLowerCase text n \<longleftrightarrow> caseInsensitiveSubstring toLowerCase text (label n)"
  by (simp add: labelMatches_def includes_str_sublist sublist_def caseInsensitiveSubstring_def)

lemmas sample_defs = INITIAL_DATA_def mkNode_def mkLink_def js_def label_ai_def label_ml_def
  label_dl_def label_nn_def toLowerCase_basic_def

section \<open>Highlighting of nodes\<close>




text \<open>
  Claim C2.  With a non-empty search text, a node is highlighted exactly when its label
  contains the search text as a case-insensitive substring, and the pass gives opacity 1 to
  these nodes and 0.1 to all others.
\<close>

theorem search_highlights_matching_labels:
  assumes "text \<noteq> []"
  shows "(isNodeHighlighted toLowerCase text selected data d \<longleftrightarrow>
            caseInsensitiveSubstring toLowerCase text (label d)) \<and>
         nodeOpacity (highlightEffect toLowerCase text selected data dims zoomReady domNodes domLinks) =
           map (\<lambda>d. if caseInsensitiveSubstring toLowerCase text (label d) then 1 else 0.1) domNodes"
  using assms
  by (simp add: isNodeHighlighted_def highlightEffect_def isSearchActive_def labelMatches_iff)

text \<open>Searching the label of "ml" in the sample data highlights that node and no other.\<close>

theorem search_highlights_matching_labels_witness:
  "label_ml \<noteq> [] \<and>
   map (isNodeHighlighted toLowerCase_basic label_ml None INITIAL_DATA) (nodes INITIAL_DATA) =
     [False, True, False, False, False] \<and>
   nodeOpacity (highlightEffect toLowerCase_basic label_ml None INITIAL_DATA (800, 600) True
       (nodes INITIAL_DATA) []) = [0.1, 1, 0.1, 0.1, 0.1]"
  using search_highlights_matching_labels [of label_ml toLowerCase_basic None INITIAL_DATA
      "mkNode (js ''ml'') label_ml group_tech" "(800, 600)" True "nodes INITIAL_DATA" "[]"]
  by (simp add: isNodeHighlighted_def highlightEffect_def isSearchActive_def labelMatches_def
      isSelectionActive_def sample_defs)

text \<open>
  Claim C7.  With a non-empty search text the highlighting of nodes does not depend on the
  selection: a selected node changes neither the predicate nor the opacities, and the
  predicate is the case-insensitive substring test on the label.
\<close>

theorem search_overrides_selection_for_nodes:
  assumes "text \<noteq> []"
  shows "isNodeHighlighted toLowerCase text (Some sel) data d =
           isNodeHighlighted toLowerCase text None data d \<and>
         (isNodeHighlighted toLowerCase text (Some sel) data d \<longleftrightarrow>
            caseInsensitiveSubstring toLowerCase text (label d)) \<and>
         nodeOpacity (highlightEffect toLowerCase text (Some sel) data dims zoomReady domNodes domLinks) =
           nodeOpacity (highlightEffect toLowerCase text None data dims zoomReady domNodes domLinks)"
  using assms
  by (simp add: isNodeHighlighted_def highlightEffect_def isSearchActive_def labelMatches_iff)

text \<open>Searching the label of "ml" while "nn" is selected highlights "ml" alone.\<close>

theorem search_overrides_selection_for_nodes_witness:
  "label_ml \<noteq> [] \<and>
   map (isNodeHighlighted toLowerCase_basic label_ml
          (Some (mkNode (js ''nn'') label_nn group_concept)) INITIAL_DATA) (nodes INITIAL_DATA) =
     [False, True, False, False, False]"
  using search_overrides_selection_for_nodes [of label_ml toLowerCase_basic
      "mkNode (js ''nn'') label_nn group_concept" INITIAL_DATA
      "mkNode (js ''nn'') label_nn group_concept" "(800, 600)" True "nodes INITIAL_DATA" "[]"]
  by (simp add: isNodeHighlighted_def isSearchActive_def labelMatches_def sample_defs)

section \<open>Highlighting of links\<close>





section \<open>Auto-centring on a search match\<close>

lemma autoCenter_needs_positions:
  assumes "\<forall>n \<in> set (nodes data). node_x n = Undefined"
  shows "autoCenter toLowerCase text data dims zoomReady = None"
  using assms
  by (auto simp: autoCenter_def truthy_def split: option.splits dest: find_Some_iff[THEN iffD1])

lemma autoCenter_centres:
  assumes "autoCenter toLowerCase text data dims zoomReady = Some t"
  shows "\<exists>m. find (labelMatches toLowerCase text) (nodes data) = Some m \<and> tk t = 1.5 \<and>
             tk t * numOf (node_x m) + tx t = fst dims / 2 \<and>
             tk t * numOf (node_y m) + ty t = snd dims / 2"
  using assms
  by (auto simp: autoCenter_def translate_def scale_def zoomIdentity_def split: option.splits if_splits)

section \<open>What the page functions leave unchanged\<close>

lemma runCleanup_frame [simp]:
  "heap (runCleanup p) = heap p" "graphData (runCleanup p) = graphData p"
  "selectedNode (runCleanup p) = selectedNode p" "filterText (runCleanup p) = filterText p"
  "dimensions (runCleanup p) = dimensions p" "svg (runCleanup p) = svg p"
  "viewport (runCleanup p) = viewport p" "zoomRef (runCleanup p) = zoomRef p"
  "crashed (runCleanup p) = crashed p" "length (sims (runCleanup p)) = length (sims p)"
  "query (runCleanup p) = query p" "status (runCleanup p) = status p"
  "alerts (runCleanup p) = alerts p" "pending (runCleanup p) = pending p"
  by (simp_all add: runCleanup_def split: option.splits)

lemma simulationEffect_frame [simp]:
  "graphData (simulationEffect p) = graphData p"
  "selectedNode (simulationEffect p) = selectedNode p" "filterText (simulationEffect p) = filterText p"
  "dimensions (simulationEffect p) = dimensions p"
  "viewport (simulationEffect p) = viewport p"
  "query (simulationEffect p) = query p" "status (simulationEffect p) = status p"
  "alerts (simulationEffect p) = alerts p" "pending (simulationEffect p) = pending p"
  by (simp_all add: simulationEffect_def copyNodes_def Let_def split: option.splits)

lemma highlightPage_frame [simp]:
  "heap (highlightPage lc p) = heap p" "graphData (highlightPage lc p) = graphData p"
  "selectedNode (highlightPage lc p) = selectedNode p" "filterText (highlightPage lc p) = filterText p"
  "dimensions (highlightPage lc p) = dimensions p" "sims (highlightPage lc p) = sims p"
  "cleanup (highlightPage lc p) = cleanup p" "zoomRef (highlightPage lc p) = zoomRef p"
  "crashed (highlightPage lc p) = crashed p"
  "query (highlightPage lc p) = query p" "status (highlightPage lc p) = status p"
  "alerts (highlightPage lc p) = alerts p" "pending (highlightPage lc p) = pending p"
  by (simp_all add: highlightPage_def Let_def)

lemma afterDataChange_frame [simp]:
  "graphData (afterDataChange lc p) = graphData p"
  "selectedNode (afterDataChange lc p) = selectedNode p" "filterText (afterDataChange lc p) = filterText p"
  "dimensions (afterDataChange lc p) = dimensions p"
  "query (afterDataChange lc p) = query p" "status (afterDataChange lc p) = status p"
  "alerts (afterDataChange lc p) = alerts p" "pending (afterDataChange lc p) = pending p"
  by (simp_all add: afterDataChange_def Let_def)

lemma setGraphData_frame [simp]:
  "selectedNode (setGraphData g p) = selectedNode p" "filterText (setGraphData g p) = filterText p"
  "dimensions (setGraphData g p) = dimensions p" "svg (setGraphData g p) = svg p"
  "sims (setGraphData g p) = sims p" "cleanup (setGraphData g p) = cleanup p"
  "zoomRef (setGraphData g p) = zoomRef p" "viewport (setGraphData g p) = viewport p"
  "crashed (setGraphData g p) = crashed p"
  "query (setGraphData g p) = query p" "status (setGraphData g p) = status p"
  "alerts (setGraphData g p) = alerts p" "pending (setGraphData g p) = pending p"
  by (simp_all add: setGraphData_def split: prod.splits)

lemma setupFails_frame [simp]:
  "heap (setupFails p) = heap p" "graphData (setupFails p) = graphData p"
  "selectedNode (setupFails p) = selectedNode p" "filterText (setupFails p) = filterText p"
  "dimensions (setupFails p) = dimensions p" "svg (setupFails p) = None"
  "viewport (setupFails p) = viewport p" "crashed (setupFails p)"
  "query (setupFails p) = query p" "status (setupFails p) = status p"
  "alerts (setupFails p) = alerts p" "pending (setupFails p) = pending p"
  "sims (setupFails p) = sims (runCleanup p)"
  by (simp_all add: setupFails_def)

lemma illTyped_frame [simp]:
  "illTyped (runCleanup p) = illTyped p" "illTyped (simulationEffect p) = illTyped p"
  "illTyped (highlightPage lc p) = illTyped p" "illTyped (afterDataChange lc p) = illTyped p"
  "illTyped (setGraphData g p) = illTyped p" "illTyped (setupFails p) = illTyped p"
  by (simp_all add: runCleanup_def simulationEffect_def copyNodes_def highlightPage_def afterDataChange_def
      setGraphData_def setupFails_def Let_def split_beta split: option.splits)

lemma handleFileUpload_filterText: "filterText (handleFileUpload lc parse cast f p) = filterText p"
  by (simp add: handleFileUpload_def split: ImportDecision.splits Reading.splits)

lemma handleGenerate_settle_filterText: "filterText (handleGenerate_settle lc parse cast r p) = filterText p"
  by (simp add: handleGenerate_settle_def split: attempt.splits Reading.splits)

section \<open>Importing a graph without nodes\<close>

lemma highlightEffect_lengths [simp]:
  "length (nodeOpacity (highlightEffect lc ft sel data dims zr dn dl)) = length dn"
  "length (linkOpacity (highlightEffect lc ft sel data dims zr dn dl)) = length dl"
  "length (linkStroke (highlightEffect lc ft sel data dims zr dn dl)) = length dl"
  "length (labelOpacity (highlightEffect lc ft sel data dims zr dn dl)) = length dl"
  by (simp_all add: highlightEffect_def)

lemma map2_restyleNode_data:
  "length vs = length es \<Longrightarrow>
   map (\<lambda>e. (datum e, place e)) (map2 restyleNode es vs) = map (\<lambda>e. (datum e, place e)) es"
  by (induction vs es rule: list_induct2) (simp_all add: restyleNode_def)

lemma map2_restyleLink_data:
  "length vs = length es \<Longrightarrow> map link_datum (map2 restyleLink es vs) = map link_datum es"
  by (induction vs es rule: list_induct2) (simp_all add: restyleLink_def)

lemma svgElements_restyle:
  assumes "length (nodeOpacity hl) = length (nodeElems s)"
      and "length (linkOpacity hl) = length (linkElems s)"
      and "length (linkStroke hl) = length (linkElems s)"
      and "length (labelOpacity hl) = length (linkElems s)"
  shows "svgElements (restyle hl s) = svgElements s"
  using assms by (simp add: svgElements_def restyle_def map2_restyleNode_data map2_restyleLink_data del: map_map)

lemma pageHighlighting_lengths:
  "svg p = Some s \<Longrightarrow> length (nodeOpacity (pageHighlighting lc p)) = length (nodeElems s)"
  "svg p = Some s \<Longrightarrow> length (linkOpacity (pageHighlighting lc p)) = length (linkElems s)"
  "svg p = Some s \<Longrightarrow> length (linkStroke (pageHighlighting lc p)) = length (linkElems s)"
  "svg p = Some s \<Longrightarrow> length (labelOpacity (pageHighlighting lc p)) = length (linkElems s)"
  by (simp_all add: pageHighlighting_def svgNodeData_def svgLinkData_def)

lemma highlightPage_svgElements:
  "map_option svgElements (svg (highlightPage lc p)) = map_option svgElements (svg p)"
  by (cases "svg p") (simp_all add: highlightPage_def Let_def svgElements_restyle pageHighlighting_lengths)

lemma simulationEffect_no_nodes: "nodes (graphData p) = [] \<Longrightarrow> simulationEffect p = p"
  by (simp add: simulationEffect_def)

lemma afterDataChange_no_nodes:
  assumes "nodes (graphData p) = []"
  shows "map_option svgElements (svg (afterDataChange lc p)) = map_option svgElements (svg p)"
    and "heap (afterDataChange lc p) = heap p"
  using assms
  by (simp_all add: afterDataChange_def Let_def simulationEffect_no_nodes highlightPage_svgElements)

lemma allocEndpoint_prefix: "prefix h (snd (allocEndpoint e h))"
  by (cases e) simp_all

lemma allocLinks_prefix: "prefix h (snd (allocLinks ls h))"
proof (induction ls arbitrary: h)
  case Nil
  show ?case by simp
next
  case (Cons l ls)
  obtain s h1 where a: "allocEndpoint (source l) h = (s, h1)" by (cases "allocEndpoint (source l) h")
  obtain t h2 where b: "allocEndpoint (target l) h1 = (t, h2)" by (cases "allocEndpoint (target l) h1")
  obtain rest h3 where c: "allocLinks ls h2 = (rest, h3)" by (cases "allocLinks ls h2")
  have "prefix h h1" using allocEndpoint_prefix [of h "source l"] a by simp
  moreover have "prefix h1 h2" using allocEndpoint_prefix [of h1 "target l"] b by simp
  moreover have "prefix h2 h3" using Cons.IH [of h2] c by simp
  ultimately have "prefix h h3" by (meson prefix_order.trans)
  then show ?case by (simp add: a b c)
qed

lemma allocGraph_prefix: "prefix h (snd (allocGraph g h))"
proof -
  have "prefix (h @ nodes g) (snd (allocLinks (links g) (h @ nodes g)))" by (rule allocLinks_prefix)
  then have "prefix h (snd (allocLinks (links g) (h @ nodes g)))"
    by (meson prefix_order.trans prefixI)
  then show ?thesis by (simp add: allocGraph_def split_beta)
qed

lemma allocGraph_nodes: "nodes (fst (allocGraph g h)) = [length h ..< length h + length (nodes g)]"
  by (simp add: allocGraph_def split_beta)

lemma setGraphData_heap: "prefix (heap p) (heap (setGraphData g p))"
  using allocGraph_prefix [of "heap p" g] by (simp add: setGraphData_def split_beta)

lemma setGraphData_nodes:
  "nodes (graphData (setGraphData g p)) = [length (heap p) ..< length (heap p) + length (nodes g)]"
  using allocGraph_nodes [of g "heap p"] by (simp add: setGraphData_def split_beta)

lemma validateImport_empty_nodes:
  assumes "JSON_parse content = Some j"
      and "getProp j (js ''nodes'') = Returns (Some (JArr []))"
      and "getProp j (js ''links'') = Returns (Some (JArr ls))"
  shows "validateImport JSON_parse content = Accept j"
  using assms by (simp add: validateImport_def isArray_def arrayItems_def)

text \<open>
  Claim C10.  A JSON file whose \<open>nodes\<close> array is empty and whose \<open>links\<close> field is an
  array passes the validation of the import (the check of the nodes holds of the empty
  list), and the graph held in state is replaced by one without nodes.  The set-up effect
  then returns before it clears the SVG: the elements drawn for the previous graph, with
  the data bound to them and their positions, are still the content of the SVG, and the
  objects of the store are as they were.
\<close>

theorem empty_graph_import_keeps_old_render:
  assumes "\<not> file_size f > 1024 * 1024 * 5"
      and "endsWith (toLowerCase (file_name f)) (js ''.json'')"
      and "JSON_parse (file_content f) = Some j"
      and "getProp j (js ''nodes'') = Returns (Some (JArr []))"
      and "getProp j (js ''links'') = Returns (Some (JArr ls))"
      and "asGraphData j = IsGraph g"
      and "nodes g = []"
  shows "validateImport JSON_parse (file_content f) = Accept j \<and>
         everyNodeValid [] = Returns True \<and>
         nodes (graphData (handleFileUpload toLowerCase JSON_parse asGraphData f p)) = [] \<and>
         simulationEffect (runCleanup (setGraphData g p)) = runCleanup (setGraphData g p) \<and>
         map_option svgElements (svg (handleFileUpload toLowerCase JSON_parse asGraphData f p)) =
           map_option svgElements (svg p) \<and>
         prefix (heap p) (heap (handleFileUpload toLowerCase JSON_parse asGraphData f p))"
proof -
  let ?q = "(setGraphData g p)
              \<lparr>query := [], status := \<lparr>loading = False, step = StepComplete,
                 message = MsgImported (file_name f)\<rparr>, selectedNode := None\<rparr>"
  have acc: "validateImport JSON_parse (file_content f) = Accept j"
    using assms(3-5) by (rule validateImport_empty_nodes)
  have res: "handleFileUpload toLowerCase JSON_parse asGraphData f p = afterDataChange toLowerCase ?q"
    using assms(1,2,6) acc by (simp add: handleFileUpload_def)
  have empty: "nodes (graphData ?q) = []"
    using assms(7) by (simp add: setGraphData_nodes)
  have "nodes (graphData (runCleanup (setGraphData g p))) = []"
    using assms(7) by (simp add: setGraphData_nodes)
  then have early: "simulationEffect (runCleanup (setGraphData g p)) = runCleanup (setGraphData g p)"
    by (rule simulationEffect_no_nodes)
  have svg_same: "map_option svgElements (svg (afterDataChange toLowerCase ?q)) = map_option svgElements (svg p)"
    using afterDataChange_no_nodes(1) [OF empty] by simp
  have heap_same: "prefix (heap p) (heap (afterDataChange toLowerCase ?q))"
    using afterDataChange_no_nodes(2) [OF empty] setGraphData_heap [of p g] by simp
  show ?thesis
    using acc res empty early svg_same heap_same by simp
qed


section \<open>The zoom scale\<close>

lemma autoCenter_inExtent:
  "autoCenter lc ft data dims zr = Some t \<Longrightarrow> inExtent t"
  using autoCenter_centres [of lc ft data dims zr t] by (auto simp: inExtent_def scaleExtent_def)

lemma zoomTo_inExtent:
  "zoomTo (highlightEffect lc ft sel data dims zr dn dl) = Some t \<Longrightarrow> inExtent t"
  by (auto simp: highlightEffect_def autoCenter_inExtent split: if_splits)

lemma pageHighlighting_inExtent: "zoomTo (pageHighlighting lc p) = Some t \<Longrightarrow> inExtent t"
  unfolding pageHighlighting_def by (rule zoomTo_inExtent)

lemma gTransform_restyle:
  "gTransform (restyle hl s) = (case zoomTo hl of None \<Rightarrow> gTransform s | Some t \<Rightarrow> Some t)"
  by (simp add: restyle_def)

lemma highlightPage_inExtent:
  assumes "viewportInExtent p"
  shows "viewportInExtent (highlightPage lc p)"
proof (cases "zoomTo (pageHighlighting lc p)")
  case None
  with assms show ?thesis
    by (cases "svg p") (simp_all add: viewportInExtent_def highlightPage_def Let_def gTransform_restyle)
next
  case (Some t)
  then have "inExtent t" by (rule pageHighlighting_inExtent)
  with Some assms show ?thesis
    by (cases "svg p") (simp_all add: viewportInExtent_def highlightPage_def Let_def gTransform_restyle)
qed

lemma runCleanup_inExtent: "viewportInExtent (runCleanup p) = viewportInExtent p"
  by (simp add: viewportInExtent_def)

lemma simulationEffect_inExtent:
  "viewportInExtent p \<Longrightarrow> viewportInExtent (simulationEffect p)"
  by (auto simp: viewportInExtent_def simulationEffect_def copyNodes_def Let_def split: option.splits)

lemma afterDataChange_inExtent:
  "viewportInExtent p \<Longrightarrow> viewportInExtent (afterDataChange lc p)"
  by (simp add: afterDataChange_def Let_def highlightPage_inExtent simulationEffect_inExtent runCleanup_inExtent)

lemma setGraphData_inExtent: "viewportInExtent (setGraphData g p) = viewportInExtent p"
  by (simp add: viewportInExtent_def)

lemma viewportInExtent_cong:
  "viewport q = viewport p \<Longrightarrow> svg q = svg p \<Longrightarrow> viewportInExtent q = viewportInExtent p"
  by (simp add: viewportInExtent_def)

lemma setSelectedNode_inExtent:
  "viewportInExtent p \<Longrightarrow> viewportInExtent (setSelectedNode lc v p)"
  by (simp add: setSelectedNode_def highlightPage_inExtent viewportInExtent_cong [of "p\<lparr>selectedNode := v\<rparr>" p])

lemma setFilterText_inExtent:
  "viewportInExtent p \<Longrightarrow> viewportInExtent (setFilterText lc v p)"
  by (simp add: setFilterText_def highlightPage_inExtent viewportInExtent_cong [of "p\<lparr>filterText := v\<rparr>" p])

lemma handleResize_inExtent:
  "viewportInExtent p \<Longrightarrow> viewportInExtent (handleResize lc w h p)"
  by (simp add: handleResize_def afterDataChange_inExtent viewportInExtent_cong [of "p\<lparr>dimensions := (w, h)\<rparr>" p])

lemma handleFileUpload_inExtent:
  assumes "viewportInExtent p"
  shows "viewportInExtent (handleFileUpload lc parse cast f p)"
proof -
  have vp: "inExtent (viewport p)" using assms by (simp add: viewportInExtent_def)
  have "viewportInExtent (afterDataChange lc ((setGraphData g p)\<lparr>query := a, status := b, selectedNode := c\<rparr>))"
    for g a b c
    using assms
    by (intro afterDataChange_inExtent)
       (simp add: viewportInExtent_cong [of "(setGraphData g p)\<lparr>query := a, status := b, selectedNode := c\<rparr>" p])
  moreover have "viewportInExtent (setupFails (p\<lparr>query := a, status := b, selectedNode := c\<rparr>))" for a b c
    using vp by (simp add: viewportInExtent_def)
  moreover have "viewportInExtent (p\<lparr>query := a, status := b, selectedNode := c, illTyped := d\<rparr>)" for a b c d
    using assms
    by (simp add: viewportInExtent_cong [of "p\<lparr>query := a, status := b, selectedNode := c, illTyped := d\<rparr>" p])
  ultimately show ?thesis
    using assms
    by (simp add: handleFileUpload_def viewportInExtent_cong [of "p\<lparr>alerts := x\<rparr>" p for x]
        viewportInExtent_cong [of "p\<lparr>query := x\<rparr>" p for x] split: ImportDecision.splits Reading.splits)
qed

lemma handleGenerate_submit_inExtent:
  assumes "viewportInExtent p"
  shows "viewportInExtent (handleGenerate_submit lc p)"
  using assms
  by (simp add: handleGenerate_submit_def setSelectedNode_inExtent
      viewportInExtent_cong [of "p\<lparr>status := a, pending := b\<rparr>" p for a b])

lemma handleGenerate_settle_inExtent:
  assumes "viewportInExtent p"
  shows "viewportInExtent (handleGenerate_settle lc parse cast r p)"
proof -
  have vp: "inExtent (viewport p)" using assms by (simp add: viewportInExtent_def)
  have "viewportInExtent (afterDataChange lc ((setGraphData g p)\<lparr>status := a, pending := b\<rparr>))" for g a b
    using assms
    by (intro afterDataChange_inExtent)
       (simp add: viewportInExtent_cong [of "(setGraphData g p)\<lparr>status := a, pending := b\<rparr>" p])
  moreover have "viewportInExtent (setupFails (p\<lparr>status := a, pending := b\<rparr>))" for a b
    using vp by (simp add: viewportInExtent_def)
  moreover have "viewportInExtent (p\<lparr>status := a, pending := b, illTyped := d\<rparr>)" for a b d
    using assms
    by (simp add: viewportInExtent_cong [of "p\<lparr>status := a, pending := b, illTyped := d\<rparr>" p])
  ultimately show ?thesis
    using assms
    by (simp add: handleGenerate_settle_def viewportInExtent_cong [of "p\<lparr>status := a, pending := b\<rparr>" p for a b]
        split: attempt.splits Reading.splits)
qed

lemma zoomBy_inExtent: "inExtent (zoomBy f px py t)"
  by (simp add: zoomBy_def inExtent_def scaleExtent_def Let_def)

lemma panBy_inExtent: "inExtent t \<Longrightarrow> inExtent (panBy dx dy t)"
  by (simp add: panBy_def inExtent_def)

lemma zoomed_inExtent: "inExtent t \<Longrightarrow> viewportInExtent p \<Longrightarrow> viewportInExtent (zoomed t p)"
  by (cases "svg p") (simp_all add: zoomed_def viewportInExtent_def)

lemma tick_inExtent: "viewportInExtent p \<Longrightarrow> viewportInExtent (tick i upd p)"
  by (cases "svg p") (simp_all add: tick_def tickRender_def viewportInExtent_def)

lemma drag_inExtent:
  "viewportInExtent (dragstarted k p) = viewportInExtent p"
  "viewportInExtent (dragged k ex ey p) = viewportInExtent p"
  "viewportInExtent (dragended k p) = viewportInExtent p"
  "viewportInExtent (simulationEnded i p) = viewportInExtent p"
  by (auto simp: dragstarted_def dragged_def dragended_def simulationEnded_def viewportInExtent_def Let_def
      split: option.splits)

lemma nodeClicked_inExtent: "viewportInExtent p \<Longrightarrow> viewportInExtent (nodeClicked lc k p)"
  by (simp add: nodeClicked_def setSelectedNode_inExtent split: option.splits)

lemma pageStep_inExtent:
  assumes "viewportInExtent p"
  shows "viewportInExtent (pageStep lc parse cast p ev)"
proof (cases "crashed p \<or> illTyped p")
  case True
  with assms show ?thesis by (simp add: pageStep_def)
next
  case False
  have vp: "inExtent (viewport p)" using assms by (simp add: viewportInExtent_def)
  show ?thesis
  proof (cases ev)
    case (QueryInput v)
    with False assms show ?thesis
      by (simp add: pageStep_def viewportInExtent_cong [of "p\<lparr>query := v\<rparr>" p])
  next
    case (RelatedClick k)
    with False assms show ?thesis
      by (simp add: pageStep_def setSelectedNode_inExtent split: option.splits)
  qed (use False assms vp in \<open>simp_all add: pageStep_def handleFileUpload_inExtent
        handleGenerate_submit_inExtent handleGenerate_settle_inExtent nodeClicked_inExtent
        setSelectedNode_inExtent setFilterText_inExtent handleResize_inExtent tick_inExtent
        drag_inExtent zoomed_inExtent zoomBy_inExtent panBy_inExtent\<close>)
qed

lemma runPage_inExtent:
  "viewportInExtent p \<Longrightarrow> viewportInExtent (runPage lc parse cast p evs)"
  unfolding runPage_def
  by (induction evs arbitrary: p) (simp_all add: pageStep_inExtent)

lemma initialPage_inExtent: "viewportInExtent initialPage"
  by (simp add: initialPage_def viewportInExtent_def inExtent_def zoomIdentity_def scaleExtent_def split_beta)

lemma mount_inExtent: "viewportInExtent (mount lc w h)"
  by (simp add: mount_def handleResize_inExtent afterDataChange_inExtent initialPage_inExtent)

text \<open>
  Claim C8.  After any sequence of events on the mounted page (zoom and pan gestures with
  whatever factors, searches that centre the viewport, replacements of the graph, and all
  others) the scale of the zoom transform stored on the SVG, and of the transform the zoom
  handler wrote on the top group, is within [0.1, 4].
\<close>

theorem zoom_scale_stays_in_extent:
  "0.1 \<le> tk (viewport (runPage toLowerCase JSON_parse asGraphData (mount toLowerCase w h) evs)) \<and>
   tk (viewport (runPage toLowerCase JSON_parse asGraphData (mount toLowerCase w h) evs)) \<le> 4 \<and>
   (case svg (runPage toLowerCase JSON_parse asGraphData (mount toLowerCase w h) evs) of
      None \<Rightarrow> True
    | Some s \<Rightarrow> (case gTransform s of None \<Rightarrow> True | Some t \<Rightarrow> 0.1 \<le> tk t \<and> tk t \<le> 4))"
  using runPage_inExtent [OF mount_inExtent, where lc1 = toLowerCase and w1 = w and h1 = h and lc = toLowerCase
      and parse = JSON_parse and cast = asGraphData and evs = evs]
  by (simp add: viewportInExtent_def inExtent_def scaleExtent_def split: option.splits)


section \<open>Reading the store\<close>

lemma wfEndpoint_append: "wfEndpoint h e \<Longrightarrow> wfEndpoint (h @ ext) e"
  by (cases e) (simp_all add: wfEndpoint_def)

lemma wfLink_append: "wfLink h l \<Longrightarrow> wfLink (h @ ext) l"
  by (simp add: wfLink_def wfEndpoint_append)

lemma readEndpoint_append: "wfEndpoint h e \<Longrightarrow> readEndpoint (h @ ext) e = readEndpoint h e"
  by (cases e) (simp_all add: wfEndpoint_def readEndpoint_def nth_append)

lemma readLink_append: "wfLink h l \<Longrightarrow> readLink (h @ ext) l = readLink h l"
  by (simp add: wfLink_def readLink_def readEndpoint_append)

lemma allocEndpoint_read:
  assumes "allocEndpoint e h = (e', h1)"
  shows "\<exists>ext. h1 = h @ ext" and "wfEndpoint h1 e'" and "readEndpoint h1 e' = e"
  using assms by (cases e; auto simp: wfEndpoint_def readEndpoint_def)+

lemma allocLinks_read:
  assumes "allocLinks ls h = (rs, h')"
  shows "(\<exists>ext. h' = h @ ext) \<and> list_all (wfLink h') rs \<and> map (readLink h') rs = ls"
  using assms
proof (induction ls arbitrary: h rs h')
  case Nil
  then show ?case by simp
next
  case (Cons l ls)
  obtain s h1 where a: "allocEndpoint (source l) h = (s, h1)" by (cases "allocEndpoint (source l) h")
  obtain t h2 where b: "allocEndpoint (target l) h1 = (t, h2)" by (cases "allocEndpoint (target l) h1")
  obtain rest h3 where c: "allocLinks ls h2 = (rest, h3)" by (cases "allocLinks ls h2")
  from Cons.prems a b c have rs: "rs = \<lparr>source = s, target = t, relation = relation l\<rparr> # rest"
    and h': "h' = h3" by simp_all
  from allocEndpoint_read [OF a] obtain e1 where h1: "h1 = h @ e1"
    and ws: "wfEndpoint h1 s" and rd_s: "readEndpoint h1 s = source l" by blast
  from allocEndpoint_read [OF b] obtain e2 where h2: "h2 = h1 @ e2"
    and wt: "wfEndpoint h2 t" and rd_t: "readEndpoint h2 t = target l" by blast
  from Cons.IH [OF c] obtain e3 where h3: "h3 = h2 @ e3"
    and wrest: "list_all (wfLink h3) rest" and rd_rest: "map (readLink h3) rest = ls" by blast
  have ws2: "wfEndpoint h2 s" using ws h2 by (simp add: wfEndpoint_append)
  have rd_s3: "readEndpoint h3 s = source l"
    using ws ws2 rd_s h2 h3 by (simp add: readEndpoint_append)
  have rd_t3: "readEndpoint h3 t = target l"
    using wt rd_t h3 by (simp add: readEndpoint_append)
  have w3: "wfEndpoint h3 s" "wfEndpoint h3 t"
    using ws2 wt h3 by (simp_all add: wfEndpoint_append)
  have "h3 = h @ (e1 @ e2 @ e3)" using h1 h2 h3 by simp
  then have "\<exists>ext. h3 = h @ ext" by blast
  moreover have "list_all (wfLink h3) rs" using w3 wrest rs by (simp add: wfLink_def)
  moreover have "map (readLink h3) rs = l # ls"
    using rd_s3 rd_t3 rd_rest rs by (simp add: readLink_def)
  ultimately show ?case using h' by simp
qed

lemma allocGraph_read:
  assumes "allocGraph g h = (g', h')"
  shows "\<exists>ext. h' = h @ nodes g @ ext"
    and "nodes g' = [length h ..< length h + length (nodes g)]"
    and "list_all (wfLink h') (links g')"
    and "map (readLink h') (links g') = links g"
proof -
  obtain ls h2 where a: "allocLinks (links g) (h @ nodes g) = (ls, h2)"
    by (cases "allocLinks (links g) (h @ nodes g)")
  with assms have g': "g' = \<lparr>nodes = [length h ..< length h + length (nodes g)], links = ls\<rparr>"
    and h': "h' = h2" by (simp_all add: allocGraph_def)
  from allocLinks_read [OF a] obtain ext where "h2 = (h @ nodes g) @ ext"
    and "list_all (wfLink h2) ls" and "map (readLink h2) ls = links g" by blast
  then show "\<exists>ext. h' = h @ nodes g @ ext"
    and "nodes g' = [length h ..< length h + length (nodes g)]"
    and "list_all (wfLink h') (links g')"
    and "map (readLink h') (links g') = links g"
    using g' h' by simp_all
qed

lemma map_nth_upt_append: "map (\<lambda>r. (h @ xs @ ext) ! r) [length h ..< length h + length xs] = xs"
  by (rule nth_equalityI) (simp_all add: nth_append)

lemma setGraphData_read:
  "\<exists>ext. heap (setGraphData g p) = heap p @ nodes g @ ext"
  "nodes (graphData (setGraphData g p)) = [length (heap p) ..< length (heap p) + length (nodes g)]"
  "list_all (wfLink (heap (setGraphData g p))) (links (graphData (setGraphData g p)))"
  "readGraph (heap (setGraphData g p)) (graphData (setGraphData g p)) = g"
proof -
  obtain g' h' where a: "allocGraph g (heap p) = (g', h')" by (cases "allocGraph g (heap p)")
  then have s: "setGraphData g p = p\<lparr>heap := h', graphData := g'\<rparr>" by (simp add: setGraphData_def)
  from allocGraph_read [OF a] obtain ext where h': "h' = heap p @ nodes g @ ext"
    and n: "nodes g' = [length (heap p) ..< length (heap p) + length (nodes g)]"
    and w: "list_all (wfLink h') (links g')" and r: "map (readLink h') (links g') = links g" by blast
  show "\<exists>ext. heap (setGraphData g p) = heap p @ nodes g @ ext" using s h' by simp
  show "nodes (graphData (setGraphData g p)) = [length (heap p) ..< length (heap p) + length (nodes g)]"
    using s n by simp
  show "list_all (wfLink (heap (setGraphData g p))) (links (graphData (setGraphData g p)))"
    using s w by simp
  have "map (\<lambda>r. h' ! r) (nodes g') = nodes g"
    using n h' map_nth_upt_append [of "heap p" "nodes g" ext] by simp
  then show "readGraph (heap (setGraphData g p)) (graphData (setGraphData g p)) = g"
    using s r by (simp add: readGraph_def)
qed

section \<open>The objects a new simulation starts with\<close>

text \<open>The initialisation keeps what the graph says of a node (its id, label, group,
  description and pins) and numbers the node.\<close>

lemma initializeNode_fields [simp]:
  "node_id (initializeNode i n) = node_id n" "label (initializeNode i n) = label n"
  "node_group (initializeNode i n) = node_group n" "description (initializeNode i n) = description n"
  "fx (initializeNode i n) = fx n" "fy (initializeNode i n) = fy n"
  "node_index (initializeNode i n) = Num (real i)"
  by (simp_all add: initializeNode_def Let_def split: jsnum.splits)

text \<open>After it, every node has a position and a velocity.\<close>

lemma initializeNode_placed:
  "node_x (initializeNode i n) \<noteq> Undefined" "node_y (initializeNode i n) \<noteq> Undefined"
  "vx (initializeNode i n) \<noteq> Undefined" "vy (initializeNode i n) \<noteq> Undefined"
  by (simp_all add: initializeNode_def Let_def isNaN_def split: jsnum.splits)

lemma simulationNodes_length [simp]: "length (simulationNodes ns) = length ns"
  by (simp add: simulationNodes_def)

lemma simulationNodes_nth: "i < length ns \<Longrightarrow> simulationNodes ns ! i = initializeNode i (ns ! i)"
  by (simp add: simulationNodes_def)

lemma simulationNodes_labels: "map label (simulationNodes ns) = map label ns"
  by (rule nth_equalityI) (simp_all add: simulationNodes_nth)

lemma initializeNodes_upto:
  assumes "k \<le> length cs"
  shows "foldl (\<lambda>h' i. h'[[length h ..< length h + length cs] ! i :=
                 initializeNode i (h' ! ([length h ..< length h + length cs] ! i))]) (h @ cs) [0 ..< k] =
         h @ map (\<lambda>i. initializeNode i (cs ! i)) [0 ..< k] @ drop k cs"
  using assms
proof (induction k)
  case 0
  show ?case by simp
next
  case (Suc k)
  then have k: "k < length cs" by simp
  have d: "drop k cs = cs ! k # drop (Suc k) cs" using k by (simp add: Cons_nth_drop_Suc)
  have n: "[length h ..< length h + length cs] ! k = length h + k" using k by simp
  have "(h @ map (\<lambda>i. initializeNode i (cs ! i)) [0 ..< k] @ drop k cs)
          [length h + k := initializeNode k ((h @ map (\<lambda>i. initializeNode i (cs ! i)) [0 ..< k] @ drop k cs) ! (length h + k))] =
        h @ map (\<lambda>i. initializeNode i (cs ! i)) [0 ..< Suc k] @ drop (Suc k) cs"
    by (simp add: d list_update_append nth_append)
  with Suc.IH k n show ?case by simp
qed

lemma initializeNodes_fresh:
  "length cs = n \<Longrightarrow> initializeNodes [length h ..< length h + n] (h @ cs) = h @ simulationNodes cs"
  using initializeNodes_upto [of "length cs" cs h] by (auto simp: initializeNodes_def simulationNodes_def)

text \<open>The set-up effect with the store written out.\<close>

lemma simulationEffect_unfold:
  "simulationEffect p =
     (if nodes (graphData p) = [] then p
      else case resolvedLinks p of
             None \<Rightarrow> p\<lparr>heap := heap p @ simulationNodes (map (\<lambda>r. heap p ! r) (nodes (graphData p))),
                       sims := sims p @ [\<lparr>running = True,
                         simNodes = [length (heap p) ..< length (heap p) + length (nodes (graphData p))],
                         simLinks = []\<rparr>],
                       svg := None, crashed := True\<rparr>
           | Some rl \<Rightarrow>
               p\<lparr>heap := heap p @ simulationNodes (map (\<lambda>r. heap p ! r) (nodes (graphData p))),
                 sims := sims p @ [\<lparr>running = True,
                   simNodes = [length (heap p) ..< length (heap p) + length (nodes (graphData p))],
                   simLinks = rl\<rparr>],
                 cleanup := Some (length (sims p)),
                 zoomRef := True,
                 svg := Some \<lparr>owner = length (sims p),
                   nodeElems = map (\<lambda>r. \<lparr>datum = r, opacity = 1, place = None\<rparr>)
                     [length (heap p) ..< length (heap p) + length (nodes (graphData p))],
                   linkElems = map (\<lambda>l. \<lparr>link_datum = l, link_opacity = 1, stroke = defaultStroke,
                                         label_opacity = 1\<rparr>) rl,
                   gTransform = None\<rparr>\<rparr>)"
  by (simp add: simulationEffect_def copyNodes_def resolvedLinks_def initializeNodes_fresh Let_def
      split: option.splits)

section \<open>Replacing the graph\<close>

lemma simulationEffect_render:
  assumes "nodes (graphData q) \<noteq> []" and "resolvedLinks q = Some rl"
  shows "simulationEffect q =
      q\<lparr>heap := heap q @ simulationNodes (map (\<lambda>r. heap q ! r) (nodes (graphData q))),
        sims := sims q @ [\<lparr>running = True,
                  simNodes = [length (heap q) ..< length (heap q) + length (nodes (graphData q))],
                  simLinks = rl\<rparr>],
        cleanup := Some (length (sims q)),
        zoomRef := True,
        svg := Some \<lparr>owner = length (sims q),
                 nodeElems = map (\<lambda>r. \<lparr>datum = r, opacity = 1, place = None\<rparr>)
                   [length (heap q) ..< length (heap q) + length (nodes (graphData q))],
                 linkElems = map (\<lambda>l. \<lparr>link_datum = l, link_opacity = 1, stroke = defaultStroke,
                     label_opacity = 1\<rparr>) rl,
                 gTransform = None\<rparr>\<rparr>"
  using assms by (simp add: simulationEffect_unfold)

lemma simulationEffect_crash:
  assumes "nodes (graphData q) \<noteq> []" and "resolvedLinks q = None"
  shows "crashed (simulationEffect q)"
  using assms by (simp add: simulationEffect_unfold)

lemma simulationEffect_sims:
  "\<exists>new. sims (simulationEffect p) = sims p @ new"
  by (auto simp: simulationEffect_def copyNodes_def Let_def split: option.splits)

lemma afterDataChange_sims: "\<exists>new. sims (afterDataChange lc p) = sims (runCleanup p) @ new"
  using simulationEffect_sims [of "runCleanup p"] by (auto simp: afterDataChange_def Let_def)

lemma afterDataChange_crashed: "crashed p \<Longrightarrow> crashed (afterDataChange lc p)"
  by (auto simp: afterDataChange_def Let_def simulationEffect_def copyNodes_def split: option.splits)

lemma tick_stale:
  "svg p = Some s \<Longrightarrow> i \<noteq> owner s \<Longrightarrow> svg (tick i upd p) = svg p"
  by (simp add: tick_def tickRender_def)

text \<open>What the page looks like after a render in which a graph with nodes was set.\<close>

lemma afterDataChange_render:
  assumes ne: "nodes (graphData q) \<noteq> []" and ok: "\<not> crashed (afterDataChange lc q)"
  shows "\<exists>s' rl.
      svg (afterDataChange lc q) = Some s' \<and>
      svgElements s' = (length (sims q),
         map (\<lambda>r. (r, None)) [length (heap q) ..< length (heap q) + length (nodes (graphData q))], rl) \<and>
      heap (afterDataChange lc q) = heap q @ simulationNodes (map (\<lambda>r. heap q ! r) (nodes (graphData q))) \<and>
      length (sims (afterDataChange lc q)) = Suc (length (sims q)) \<and>
      sims (afterDataChange lc q) ! length (sims q) =
        \<lparr>running = True,
         simNodes = [length (heap q) ..< length (heap q) + length (nodes (graphData q))],
         simLinks = rl\<rparr> \<and>
      cleanup (afterDataChange lc q) = Some (length (sims q))"
proof -
  let ?c = "runCleanup q"
  let ?e = "simulationEffect ?c"
  have nc: "\<not> crashed q" using ok afterDataChange_crashed by blast
  have nce: "\<not> crashed ?e" using ok by (auto simp: afterDataChange_def Let_def split: if_splits)
  have a: "afterDataChange lc q = highlightPage lc ?e"
    using nce by (simp add: afterDataChange_def Let_def)
  have "resolvedLinks ?c \<noteq> None"
    using simulationEffect_crash [of ?c] ne nce by auto
  then obtain rl where rl: "resolvedLinks ?c = Some rl" by blast
  have e: "?e =
      ?c\<lparr>heap := heap q @ simulationNodes (map (\<lambda>r. heap q ! r) (nodes (graphData q))),
        sims := sims ?c @ [\<lparr>running = True,
                  simNodes = [length (heap q) ..< length (heap q) + length (nodes (graphData q))],
                  simLinks = rl\<rparr>],
        cleanup := Some (length (sims q)),
        zoomRef := True,
        svg := Some \<lparr>owner = length (sims q),
                 nodeElems = map (\<lambda>r. \<lparr>datum = r, opacity = 1, place = None\<rparr>)
                   [length (heap q) ..< length (heap q) + length (nodes (graphData q))],
                 linkElems = map (\<lambda>l. \<lparr>link_datum = l, link_opacity = 1, stroke = defaultStroke,
                     label_opacity = 1\<rparr>) rl,
                 gTransform = None\<rparr>\<rparr>"
    using simulationEffect_render [of ?c rl] ne rl by simp
  let ?s = "\<lparr>owner = length (sims q),
                 nodeElems = map (\<lambda>r. \<lparr>datum = r, opacity = 1, place = None\<rparr>)
                   [length (heap q) ..< length (heap q) + length (nodes (graphData q))],
                 linkElems = map (\<lambda>l. \<lparr>link_datum = l, link_opacity = 1, stroke = defaultStroke,
                     label_opacity = 1\<rparr>) rl,
                 gTransform = None\<rparr>"
  have svg_e: "svg ?e = Some ?s" by (subst e) simp
  have heap_e: "heap ?e = heap q @ simulationNodes (map (\<lambda>r. heap q ! r) (nodes (graphData q)))" by (subst e) simp
  have sims_e: "sims ?e = sims ?c @ [\<lparr>running = True,
                  simNodes = [length (heap q) ..< length (heap q) + length (nodes (graphData q))],
                  simLinks = rl\<rparr>]" by (subst e) simp
  have cl_e: "cleanup ?e = Some (length (sims q))" by (subst e) simp
  have "map_option svgElements (svg (highlightPage lc ?e)) = Some (svgElements ?s)"
    using highlightPage_svgElements [of lc ?e] svg_e by simp
  then obtain s' where s': "svg (highlightPage lc ?e) = Some s'" and el: "svgElements s' = svgElements ?s"
    by auto
  have el2: "svgElements ?s = (length (sims q),
         map (\<lambda>r. (r, None)) [length (heap q) ..< length (heap q) + length (nodes (graphData q))], rl)"
    by (simp add: svgElements_def comp_def)
  have len: "length (sims ?c) = length (sims q)" by simp
  have n: "sims (highlightPage lc ?e) ! length (sims q) = \<lparr>running = True,
         simNodes = [length (heap q) ..< length (heap q) + length (nodes (graphData q))],
         simLinks = rl\<rparr>"
    using sims_e len by (simp add: nth_append)
  have l: "length (sims (highlightPage lc ?e)) = Suc (length (sims q))"
    using sims_e len by simp
  have h: "heap (highlightPage lc ?e) = heap q @ simulationNodes (map (\<lambda>r. heap q ! r) (nodes (graphData q)))"
    using heap_e by simp
  have c: "cleanup (highlightPage lc ?e) = Some (length (sims q))"
    using cl_e by simp
  have "svg (highlightPage lc ?e) = Some s' \<and>
      svgElements s' = (length (sims q),
         map (\<lambda>r. (r, None)) [length (heap q) ..< length (heap q) + length (nodes (graphData q))], rl) \<and>
      heap (highlightPage lc ?e) = heap q @ simulationNodes (map (\<lambda>r. heap q ! r) (nodes (graphData q))) \<and>
      length (sims (highlightPage lc ?e)) = Suc (length (sims q)) \<and>
      sims (highlightPage lc ?e) ! length (sims q) =
        \<lparr>running = True,
         simNodes = [length (heap q) ..< length (heap q) + length (nodes (graphData q))],
         simLinks = rl\<rparr> \<and>
      cleanup (highlightPage lc ?e) = Some (length (sims q))"
    using s' el el2 h l n c by (simp only: simp_thms)
  then show ?thesis unfolding a by blast
qed

lemma map2_restyleNode_opacity:
  "length vs = length es \<Longrightarrow> map opacity (map2 restyleNode es vs) = vs"
  by (induction vs es rule: list_induct2) (simp_all add: restyleNode_def)

text \<open>With a search text, the elements drawn by the set-up effect are dimmed by it.\<close>

lemma afterDataChange_opacity:
  assumes ne: "nodes (graphData q) \<noteq> []" and ok: "\<not> crashed (afterDataChange lc q)"
    and ft: "filterText q \<noteq> []"
  shows "map_option (\<lambda>s. map opacity (nodeElems s)) (svg (afterDataChange lc q)) =
      Some (map (\<lambda>n. if caseInsensitiveSubstring lc (filterText q) (label n) then 1 else 0.1)
              (map (\<lambda>r. heap q ! r) (nodes (graphData q))))"
proof -
  let ?c = "runCleanup q"
  let ?e = "simulationEffect ?c"
  let ?cs = "map (\<lambda>r. heap q ! r) (nodes (graphData q))"
  let ?ns = "[length (heap q) ..< length (heap q) + length (nodes (graphData q))]"
  let ?f = "\<lambda>l. if caseInsensitiveSubstring lc (filterText q) l then 1 else (0.1 :: real)"
  have nce: "\<not> crashed ?e" using ok by (auto simp: afterDataChange_def Let_def split: if_splits)
  have a: "afterDataChange lc q = highlightPage lc ?e"
    using nce by (simp add: afterDataChange_def Let_def)
  have "resolvedLinks ?c \<noteq> None"
    using simulationEffect_crash [of ?c] ne nce by auto
  then obtain rl where rl: "resolvedLinks ?c = Some rl" by blast
  let ?s = "\<lparr>owner = length (sims q),
                 nodeElems = map (\<lambda>r. \<lparr>datum = r, opacity = 1, place = None\<rparr>) ?ns,
                 linkElems = map (\<lambda>l. \<lparr>link_datum = l, link_opacity = 1, stroke = defaultStroke,
                     label_opacity = 1\<rparr>) rl,
                 gTransform = None\<rparr>"
  have e: "?e = ?c\<lparr>heap := heap q @ simulationNodes ?cs,
        sims := sims ?c @ [\<lparr>running = True, simNodes = ?ns, simLinks = rl\<rparr>],
        cleanup := Some (length (sims q)), zoomRef := True, svg := Some ?s\<rparr>"
    using simulationEffect_render [of ?c rl] ne rl by simp
  have svg_e: "svg ?e = Some ?s" by (subst e) simp
  have heap_e: "heap ?e = heap q @ simulationNodes ?cs" by (subst e) simp
  have ft_e: "filterText ?e = filterText q" by simp
  have dat: "svgNodeData ?e = simulationNodes ?cs"
  proof -
    have "svgNodeData ?e = map (\<lambda>r. (heap q @ simulationNodes ?cs @ []) ! r)
        [length (heap q) ..< length (heap q) + length (simulationNodes ?cs)]"
      by (simp add: svgNodeData_def svg_e heap_e comp_def)
    then show ?thesis by (simp only: map_nth_upt_append)
  qed
  have op: "nodeOpacity (pageHighlighting lc ?e) = map ?f (map label ?cs)"
  proof -
    have "nodeOpacity (pageHighlighting lc ?e) = map (\<lambda>d. ?f (label d)) (simulationNodes ?cs)"
      using ft
      by (simp add: pageHighlighting_def highlightEffect_def isSearchActive_def isNodeHighlighted_def
          labelMatches_iff dat ft_e)
    also have "\<dots> = map ?f (map label (simulationNodes ?cs))" by (simp add: comp_def)
    finally show ?thesis by (simp only: simulationNodes_labels)
  qed
  have len: "length (map ?f (map label ?cs)) = length (nodeElems ?s)" by simp
  have "map opacity (nodeElems (restyle (pageHighlighting lc ?e) ?s)) = map ?f (map label ?cs)"
    unfolding op restyle_def using map2_restyleNode_opacity [OF len] by simp
  then have "map_option (\<lambda>s. map opacity (nodeElems s)) (svg (highlightPage lc ?e)) =
      Some (map ?f (map label ?cs))"
    by (simp add: highlightPage_def Let_def svg_e)
  then show ?thesis unfolding a by (simp add: comp_def)
qed

lemma simulationEffect_heap: "\<exists>ext. heap (simulationEffect p) = heap p @ ext"
  by (auto simp: simulationEffect_unfold split: option.splits)

lemma afterDataChange_heap: "\<exists>ext. heap (afterDataChange lc p) = heap p @ ext"
  using simulationEffect_heap [of "runCleanup p"] by (auto simp: afterDataChange_def Let_def)

lemma readGraph_append:
  assumes "list_all (\<lambda>r. r < length h) (nodes g)" and "list_all (wfLink h) (links g)"
  shows "readGraph (h @ ext) g = readGraph h g"
  using assms by (simp add: readGraph_def list_all_iff nth_append readLink_append)

lemma setGraphData_nodes_wf:
  "list_all (\<lambda>r. r < length (heap (setGraphData g p))) (nodes (graphData (setGraphData g p)))"
proof -
  obtain ext where "heap (setGraphData g p) = heap p @ nodes g @ ext"
    using setGraphData_read(1) by blast
  then show ?thesis by (simp add: setGraphData_read(2) list_all_iff)
qed

text \<open>The page between the state updates of a replacement and the effects.\<close>

lemma replaceBy_unfold:
  assumes "replacementValue lc parse rp = Some j" and "cast j = IsGraph g"
  shows "\<exists>q. replaceBy lc parse cast rp p = afterDataChange lc q \<and>
             heap q = heap (setGraphData g p) \<and>
             graphData q = graphData (setGraphData g p) \<and>
             filterText q = filterText p \<and> sims q = sims p \<and> cleanup q = cleanup p \<and>
             svg q = svg p \<and> crashed q = crashed p \<and>
             (isImport rp \<longrightarrow> selectedNode q = None)"
proof (cases rp)
  case (ByImport f)
  with assms have a: "\<not> file_size f > 1024 * 1024 * 5" "endsWith (lc (file_name f)) (js ''.json'')"
    "validateImport parse (file_content f) = Accept j"
    by (auto simp: replacementValue_def split: if_splits ImportDecision.splits)
  let ?q = "(setGraphData g p)\<lparr>query := [],
      status := \<lparr>loading = False, step = StepComplete, message = MsgImported (file_name f)\<rparr>,
      selectedNode := None\<rparr>"
  have "replaceBy lc parse cast rp p = afterDataChange lc ?q"
    using ByImport a assms(2) by (simp add: replaceBy_def handleFileUpload_def)
  then show ?thesis by (intro exI [of _ ?q]) simp
next
  case (ByGeneration r)
  with assms have a: "generateKnowledgeGraph parse r = Returns j"
    by (auto simp: replacementValue_def split: attempt.splits)
  let ?q = "(setGraphData g p)\<lparr>
      status := \<lparr>loading = False, step = StepComplete, message = MsgComplete\<rparr>,
      pending := pending p - 1\<rparr>"
  have "replaceBy lc parse cast rp p = afterDataChange lc ?q"
    using ByGeneration a assms(2) by (simp add: replaceBy_def handleGenerate_settle_def)
  then show ?thesis using ByGeneration by (intro exI [of _ ?q]) (simp add: isImport_def)
qed

text \<open>All or nothing, the "nothing" half: an attempt that does not get to a parsed value
  leaves the graph, the store, the SVG and the simulations as they were.\<close>

lemma replaceBy_nothing:
  assumes "replacementValue lc parse rp = None"
  shows "graphData (replaceBy lc parse cast rp p) = graphData p \<and>
         heap (replaceBy lc parse cast rp p) = heap p \<and>
         svg (replaceBy lc parse cast rp p) = svg p \<and>
         sims (replaceBy lc parse cast rp p) = sims p \<and>
         selectedNode (replaceBy lc parse cast rp p) = selectedNode p \<and>
         filterText (replaceBy lc parse cast rp p) = filterText p"
  using assms
  by (cases rp)
     (auto simp: replacementValue_def replaceBy_def handleFileUpload_def handleGenerate_settle_def
        split: if_splits ImportDecision.splits attempt.splits)

lemma setSelectedNode_selected: "selectedNode (setSelectedNode lc v p) = v"
  by (simp add: setSelectedNode_def)

lemma handleGenerate_submit_clears:
  "trim (query p) \<noteq> [] \<Longrightarrow> selectedNode (handleGenerate_submit lc p) = None"
  by (simp add: handleGenerate_submit_def setSelectedNode_selected)

lemma replaceBy_graph:
  assumes "replacementValue lc parse rp = Some j" and "cast j = IsGraph g"
  shows "readGraph (heap (replaceBy lc parse cast rp p)) (graphData (replaceBy lc parse cast rp p)) = g"
proof -
  from replaceBy_unfold [where cast = cast, OF assms] obtain q where q: "replaceBy lc parse cast rp p = afterDataChange lc q"
    and h: "heap q = heap (setGraphData g p)"
    and g: "graphData q = graphData (setGraphData g p)" by blast
  obtain ext where e: "heap (afterDataChange lc q) = heap q @ ext" using afterDataChange_heap by blast
  have "readGraph (heap q @ ext) (graphData q) = readGraph (heap q) (graphData q)"
    using h g setGraphData_nodes_wf [of g p] setGraphData_read(3) [of g p]
    by (intro readGraph_append) simp_all
  then show ?thesis using q e h g setGraphData_read(4) [of g p] by simp
qed

text \<open>Which simulations run after the effects: none that did not run before, and not the
  one the clean-up stops.\<close>

lemma runCleanup_running:
  assumes "i < length (sims p)"
  shows "running (sims (runCleanup p) ! i) \<longleftrightarrow> running (sims p ! i) \<and> cleanup p \<noteq> Some i"
proof (cases "cleanup p")
  case None
  then show ?thesis by (simp add: runCleanup_def)
next
  case (Some a)
  show ?thesis
  proof (cases "a < length (sims p)")
    case True
    then show ?thesis using Some assms by (auto simp: runCleanup_def nth_list_update)
  next
    case False
    then have "length (sims p) \<le> a" by simp
    then have "(sims p)[a := (sims p ! a)\<lparr>running := False\<rparr>] = sims p"
      by (simp only: list_update_beyond)
    then show ?thesis using Some False assms by (auto simp: runCleanup_def)
  qed
qed

lemma afterDataChange_running:
  assumes "i < length (sims p)"
  shows "running (sims (afterDataChange lc p) ! i) \<longleftrightarrow> running (sims p ! i) \<and> cleanup p \<noteq> Some i"
proof -
  obtain new where "sims (afterDataChange lc p) = sims (runCleanup p) @ new"
    using afterDataChange_sims by blast
  then have "sims (afterDataChange lc p) ! i = sims (runCleanup p) ! i"
    using assms by (simp add: nth_append)
  then show ?thesis using runCleanup_running [OF assms] by simp
qed

lemma replaceBy_running:
  assumes "replacementValue lc parse rp = Some j" and "cast j = IsGraph g" and "i < length (sims p)"
  shows "running (sims (replaceBy lc parse cast rp p) ! i) \<longleftrightarrow> running (sims p ! i) \<and> cleanup p \<noteq> Some i"
proof -
  from replaceBy_unfold [where cast = cast, OF assms(1,2)] obtain q where q: "replaceBy lc parse cast rp p = afterDataChange lc q"
    and "sims q = sims p" "cleanup q = cleanup p" by blast
  then show ?thesis using afterDataChange_running [of i q lc] assms(3) by simp
qed

lemma replaceBy_render:
  assumes v: "replacementValue lc parse rp = Some j"
      and c: "cast j = IsGraph g"
      and ne: "nodes g \<noteq> []"
      and ok: "\<not> crashed (replaceBy lc parse cast rp p)"
  shows "\<exists>s'. svg (replaceBy lc parse cast rp p) = Some s' \<and>
           owner s' = length (sims p) \<and>
           running (sims (replaceBy lc parse cast rp p) ! owner s') \<and>
           cleanup (replaceBy lc parse cast rp p) = Some (owner s') \<and>
           map (\<lambda>e. heap (replaceBy lc parse cast rp p) ! datum e) (nodeElems s') = simulationNodes (nodes g) \<and>
           list_all (\<lambda>e. length (heap p) \<le> datum e \<and> place e = None) (nodeElems s') \<and>
           (filterText p \<noteq> [] \<longrightarrow>
              map opacity (nodeElems s') =
                map (\<lambda>n. if caseInsensitiveSubstring lc (filterText p) (label n) then 1 else 0.1) (nodes g))"
proof -
  let ?p' = "replaceBy lc parse cast rp p"
  from replaceBy_unfold [where cast = cast, OF v c] obtain q where q: "?p' = afterDataChange lc q"
    and h: "heap q = heap (setGraphData g p)"
    and g: "graphData q = graphData (setGraphData g p)"
    and s: "sims q = sims p" and ft: "filterText q = filterText p" by blast
  obtain ext where hq: "heap q = heap p @ nodes g @ ext"
    using h setGraphData_read(1) [of g p] by auto
  have nq: "nodes (graphData q) = [length (heap p) ..< length (heap p) + length (nodes g)]"
    using g setGraphData_read(2) [of g p] by simp
  have copies: "map (\<lambda>r. heap q ! r) (nodes (graphData q)) = nodes g"
    using hq nq map_nth_upt_append [of "heap p" "nodes g" ext] by simp
  have ne': "nodes (graphData q) \<noteq> []" using nq ne by simp
  have ok': "\<not> crashed (afterDataChange lc q)" using ok q by simp
  from afterDataChange_render [OF ne' ok'] obtain s' rl where
    sv: "svg (afterDataChange lc q) = Some s'"
    and el: "svgElements s' = (length (sims q),
         map (\<lambda>r. (r, None)) [length (heap q) ..< length (heap q) + length (nodes (graphData q))], rl)"
    and hp: "heap (afterDataChange lc q) = heap q @ simulationNodes (map (\<lambda>r. heap q ! r) (nodes (graphData q)))"
    and sm: "sims (afterDataChange lc q) ! length (sims q) =
        \<lparr>running = True,
         simNodes = [length (heap q) ..< length (heap q) + length (nodes (graphData q))],
         simLinks = rl\<rparr>"
    and cl: "cleanup (afterDataChange lc q) = Some (length (sims q))" by blast
  have ow: "owner s' = length (sims p)" using el s by (simp add: svgElements_def)
  have dat: "map (\<lambda>e. (datum e, place e)) (nodeElems s') =
      map (\<lambda>r. (r, None)) [length (heap q) ..< length (heap q) + length (nodes (graphData q))]"
    using el by (simp add: svgElements_def)
  have d1: "map datum (nodeElems s') = [length (heap q) ..< length (heap q) + length (nodes (graphData q))]"
  proof -
    have "map datum (nodeElems s') = map fst (map (\<lambda>e. (datum e, place e)) (nodeElems s'))"
      by (simp add: comp_def)
    also have "\<dots> = [length (heap q) ..< length (heap q) + length (nodes (graphData q))]"
      by (simp only: dat) (simp add: comp_def)
    finally show ?thesis .
  qed
  have d2: "map place (nodeElems s') = map (\<lambda>r. None) [length (heap q) ..< length (heap q) + length (nodes (graphData q))]"
  proof -
    have "map place (nodeElems s') = map snd (map (\<lambda>e. (datum e, place e)) (nodeElems s'))"
      by (simp add: comp_def)
    also have "\<dots> = map (\<lambda>r. None) [length (heap q) ..< length (heap q) + length (nodes (graphData q))]"
      by (simp only: dat) (simp add: comp_def)
    finally show ?thesis .
  qed
  have rd: "map (\<lambda>e. heap (afterDataChange lc q) ! datum e) (nodeElems s') = simulationNodes (nodes g)"
  proof -
    have "map (\<lambda>e. heap (afterDataChange lc q) ! datum e) (nodeElems s') =
        map (\<lambda>r. heap (afterDataChange lc q) ! r) (map datum (nodeElems s'))"
      by (simp add: comp_def)
    also have "\<dots> = map (\<lambda>r. (heap q @ simulationNodes (nodes g) @ []) ! r)
        [length (heap q) ..< length (heap q) + length (simulationNodes (nodes g))]"
      using d1 hp copies nq by simp
    also have "\<dots> = simulationNodes (nodes g)" by (rule map_nth_upt_append)
    finally show ?thesis .
  qed
  have fresh: "list_all (\<lambda>e. length (heap p) \<le> datum e \<and> place e = None) (nodeElems s')"
  proof -
    have "\<forall>r \<in> set (map datum (nodeElems s')). length (heap p) \<le> r"
      using hq by (simp only: d1) auto
    moreover have "\<forall>v \<in> set (map place (nodeElems s')). v = None"
      by (simp only: d2) auto
    ultimately show ?thesis by (auto simp: list_all_iff)
  qed
  have dim: "map opacity (nodeElems s') =
      map (\<lambda>n. if caseInsensitiveSubstring lc (filterText p) (label n) then 1 else 0.1) (nodes g)"
    if "filterText p \<noteq> []"
  proof -
    from that have "filterText q \<noteq> []" using ft by simp
    from afterDataChange_opacity [OF ne' ok' this] show ?thesis
      using sv copies ft by simp
  qed
  show ?thesis
    using sv ow sm cl rd fresh s dim unfolding q by auto
qed

section \<open>Evaluating the samples\<close>

lemmas page_defs = afterDataChange_def runCleanup_def simulationEffect_unfold resolvedLinks_def
  simulationNodes_def
  highlightPage_def pageHighlighting_def initialPage_def allocGraph_def copyLinks_def
  resolveEndpoint_def nodeById_def restyle_def svgNodeData_def svgLinkData_def readGraph_def readLink_def
  readEndpoint_def highlightEffect_def isSearchActive_def isSelectionActive_def restyleNode_def restyleLink_def
  Let_def

lemmas json_defs = jsonNode_def pairGraphJson_def sharedEndpointJson_def emptyGraphJson_def nodesOnlyJson_def
  blankLabelJson_def
  jsonFile_def validateImport_def getProp_def isArray_def arrayItems_def truthyJson_def js_def
  graphOfJson_def setupThrows_def nodeOfJson_def linkOfJson_def endpointOfJson_def field_def jsonStr_def
  jsonOptStr_def jsonNum_def jsonPin_def

lemma samplePage_heap: "heap samplePage = nodes INITIAL_DATA @ simulationNodes (nodes INITIAL_DATA)"
  by (simp add: samplePage_def page_defs sample_defs)

lemma samplePage_sims: "sims samplePage = [\<lparr>running = True, simNodes = [5, 6, 7, 8, 9],
    simLinks = [\<lparr>source = EndObj 5, target = EndObj 6, relation = rel_contains\<rparr>,
                \<lparr>source = EndObj 6, target = EndObj 7, relation = rel_contains\<rparr>,
                \<lparr>source = EndObj 7, target = EndObj 8, relation = rel_uses\<rparr>,
                \<lparr>source = EndObj 9, target = EndObj 5, relation = rel_belongs\<rparr>]\<rparr>]"
  by (simp add: samplePage_def page_defs sample_defs)

lemma samplePage_misc: "\<not> crashed samplePage" "zoomRef samplePage" "cleanup samplePage = Some 0"
  "viewport samplePage = zoomIdentity"
  by (simp_all add: samplePage_def page_defs sample_defs)

lemma samplePage_svgElements: "map_option svgElements (svg samplePage) =
   Some (0, [(5, None), (6, None), (7, None), (8, None), (9, None)],
     [\<lparr>source = EndObj 5, target = EndObj 6, relation = rel_contains\<rparr>,
      \<lparr>source = EndObj 6, target = EndObj 7, relation = rel_contains\<rparr>,
      \<lparr>source = EndObj 7, target = EndObj 8, relation = rel_uses\<rparr>,
      \<lparr>source = EndObj 9, target = EndObj 5, relation = rel_belongs\<rparr>])"
  by (simp add: samplePage_def page_defs sample_defs svgElements_def)


lemma sharedPage_graph: "graphData sharedPage =
   \<lparr>nodes = [10, 11], links = [\<lparr>source = EndObj 12, target = EndId (js ''b''), relation = js ''r''\<rparr>]\<rparr>"
  by (simp add: sharedPage_def handleFileUpload_def endsWith_def toLowerCase_basic_def json_defs
      setGraphData_def samplePage_def page_defs sample_defs)

lemma sharedPage_sims: "sims sharedPage ! Suc 0 = \<lparr>running = True, simNodes = [13, 14],
    simLinks = [\<lparr>source = EndObj 12, target = EndObj 14, relation = js ''r''\<rparr>]\<rparr>"
  by (simp add: sharedPage_def handleFileUpload_def endsWith_def toLowerCase_basic_def json_defs
      setGraphData_def samplePage_def page_defs sample_defs)

lemma sharedPage_len: "length (heap sharedPage) = 15" "length (sims sharedPage) = 2"
  by (simp_all add: sharedPage_def handleFileUpload_def endsWith_def toLowerCase_basic_def json_defs
      setGraphData_def samplePage_def page_defs sample_defs)

section \<open>The copies of the set-up effect share endpoint objects\<close>

lemmas shared_eval = sharedPage_def handleFileUpload_def endsWith_def toLowerCase_basic_def json_defs
      setGraphData_def samplePage_def page_defs sample_defs

lemma sharedPage_obj: "heap sharedPage ! 12 = mkNode (js ''a'') (js ''A'') (js ''g'')"
  by (simp add: shared_eval)

lemma tickedPage_graph: "graphData tickedPage = graphData sharedPage"
  by (simp add: tickedPage_def tick_def tickRender_def)

lemma tickedPage_obj: "heap tickedPage ! 12 = (mkNode (js ''a'') (js ''A'') (js ''g''))\<lparr>vx := Num 3, vy := Num 4\<rparr>"
  by (simp add: tickedPage_def tick_def tickRender_def sharedPage_sims sharedPage_len engineTick_def
      endpointRefs_def refsOf_def pushNode_def moveNode_def sharedPage_obj)

text \<open>
  Claim C9 at a graph one of whose links has a node object as its source.  After the import
  of such a file, the link held in state and the copy of it given to the simulation have
  the same object (address 12) as source; the object has no velocity; one tick of the
  simulation writes a velocity into it; the graph that \<open>exportJSON\<close> serialises is then no
  longer the graph that was imported.
\<close>

theorem shared_endpoint_is_written_by_tick:
  "source (hd (links (graphData sharedPage))) = EndObj 12 \<and>
   source (hd (simLinks (sims sharedPage ! 1))) = EndObj 12 \<and>
   vx (heap sharedPage ! 12) = Undefined \<and>
   vx (heap tickedPage ! 12) = Num 3 \<and>
   readGraph (heap tickedPage) (graphData tickedPage) \<noteq> readGraph (heap sharedPage) (graphData sharedPage)"
proof -
  have a: "source (hd (links (readGraph (heap tickedPage) (graphData tickedPage)))) =
      EndObj ((mkNode (js ''a'') (js ''A'') (js ''g''))\<lparr>vx := Num 3, vy := Num 4\<rparr>)"
    by (simp add: tickedPage_graph sharedPage_graph readGraph_def readLink_def readEndpoint_def tickedPage_obj)
  have b: "source (hd (links (readGraph (heap sharedPage) (graphData sharedPage)))) =
      EndObj (mkNode (js ''a'') (js ''A'') (js ''g''))"
    by (simp add: sharedPage_graph readGraph_def readLink_def readEndpoint_def sharedPage_obj)
  have "readGraph (heap tickedPage) (graphData tickedPage) \<noteq> readGraph (heap sharedPage) (graphData sharedPage)"
  proof
    assume "readGraph (heap tickedPage) (graphData tickedPage) = readGraph (heap sharedPage) (graphData sharedPage)"
    with a b have "EndObj ((mkNode (js ''a'') (js ''A'') (js ''g''))\<lparr>vx := Num 3, vy := Num 4\<rparr>) =
        EndObj (mkNode (js ''a'') (js ''A'') (js ''g''))" by simp
    then show False by (simp add: mkNode_def)
  qed
  then show ?thesis
    by (simp add: sharedPage_graph sharedPage_sims sharedPage_obj tickedPage_obj mkNode_def)
qed

section \<open>What a replacement resets\<close>

lemma everyNodeValid_iff: "everyNodeValid ns = Returns True \<longleftrightarrow> list_all hasIdAndLabel ns"
proof (induction ns)
  case Nil
  show ?case by simp
next
  case (Cons n ns)
  show ?case
  proof (cases "getProp n (js ''id'')")
    case Throws
    then show ?thesis by (simp add: hasIdAndLabel_def)
  next
    case (Returns i)
    note i = this
    show ?thesis
    proof (cases "getProp n (js ''label'')")
      case Throws
      with i show ?thesis by (simp add: hasIdAndLabel_def)
    next
      case (Returns l)
      with i Cons.IH show ?thesis by (simp add: hasIdAndLabel_def)
    qed
  qed
qed

lemma isArray_iff: "isArray v \<longleftrightarrow> (\<exists>xs. v = Some (JArr xs))"
  by (auto simp: isArray_def split: option.splits json.splits)

text \<open>The import accepts exactly the parsed values that are validated graphs.\<close>

lemma validateImport_Accept_iff:
  "validateImport JSON_parse content = Accept j \<longleftrightarrow> JSON_parse content = Some j \<and> validGraphJson j"
proof (cases "JSON_parse content")
  case None
  then show ?thesis by (simp add: validateImport_def)
next
  case (Some d)
  show ?thesis
  proof (cases "getProp d (js ''nodes'')")
    case Throws
    with Some show ?thesis by (auto simp: validateImport_def validGraphJson_def)
  next
    case (Returns ns)
    note ns = this
    show ?thesis
    proof (cases "getProp d (js ''links'')")
      case Throws
      with Some ns show ?thesis by (auto simp: validateImport_def validGraphJson_def)
    next
      case (Returns ls)
      show ?thesis
      proof (cases "isArray ns \<and> isArray ls")
        case False
        with Some ns Returns show ?thesis
          by (auto simp: validateImport_def validGraphJson_def isArray_def)
      next
        case True
        then obtain xs ys where "ns = Some (JArr xs)" "ls = Some (JArr ys)"
          by (auto simp: isArray_iff)
        with Some ns Returns show ?thesis
          using everyNodeValid_iff [of xs]
          by (cases "everyNodeValid xs")
             (auto simp: validateImport_def validGraphJson_def isArray_def arrayItems_def)
      qed
    qed
  qed
qed

lemma replaceBy_selection:
  assumes "replacementValue lc parse rp = Some j" and "cast j = IsGraph g" and "isImport rp"
  shows "selectedNode (replaceBy lc parse cast rp p) = None"
proof -
  from replaceBy_unfold [where cast = cast, OF assms(1,2)] obtain q where "replaceBy lc parse cast rp p = afterDataChange lc q"
    and "isImport rp \<longrightarrow> selectedNode q = None" by blast
  with assms(3) show ?thesis by simp
qed

lemma replaceBy_filterText: "filterText (replaceBy lc parse cast rp p) = filterText p"
  by (cases rp) (simp_all add: replaceBy_def handleFileUpload_filterText handleGenerate_settle_filterText)

text \<open>
  Claim C4, amended.  For every replacement of the graph by a value of the type
  \<open>GraphData\<close>, from an imported file or from an answer of the generation service: the
  search text is kept; an import clears the selected node, and a generation clears it when
  the query is submitted; the graph in state is the new one; of the simulations there were,
  the one registered for clean-up by the last run of the set-up effect does not run
  afterwards, and none that did not run before.  When the new graph has nodes and the set-up
  effect completes, the SVG belongs to a new running simulation, which is now the one
  registered for clean-up; its node elements are bound to new objects, which are the nodes
  of the new graph as the engine initialises them (so no position or pin of the previous
  render is carried over), and have no \<open>transform\<close> yet; with a search text, a node
  element has opacity 1 when the label of its node contains the text and 0.1 otherwise; and
  a tick of any other simulation leaves the SVG as it is.
\<close>

theorem replacement_keeps_search_text:
  assumes "replacementValue toLowerCase JSON_parse rp = Some j"
      and "asGraphData j = IsGraph g"
  shows "filterText (replaceBy toLowerCase JSON_parse asGraphData rp p) = filterText p \<and>
    (isImport rp \<longrightarrow> selectedNode (replaceBy toLowerCase JSON_parse asGraphData rp p) = None) \<and>
    (trim (query p) \<noteq> [] \<longrightarrow> selectedNode (handleGenerate_submit toLowerCase p) = None) \<and>
    readGraph (heap (replaceBy toLowerCase JSON_parse asGraphData rp p))
      (graphData (replaceBy toLowerCase JSON_parse asGraphData rp p)) = g \<and>
    (\<forall>i < length (sims p).
       cleanup p = Some i \<or> \<not> running (sims p ! i) \<longrightarrow>
       \<not> running (sims (replaceBy toLowerCase JSON_parse asGraphData rp p) ! i)) \<and>
    (nodes g \<noteq> [] \<and> \<not> crashed (replaceBy toLowerCase JSON_parse asGraphData rp p) \<longrightarrow>
       (\<exists>s'. svg (replaceBy toLowerCase JSON_parse asGraphData rp p) = Some s' \<and>
             owner s' = length (sims p) \<and>
             running (sims (replaceBy toLowerCase JSON_parse asGraphData rp p) ! owner s') \<and>
             cleanup (replaceBy toLowerCase JSON_parse asGraphData rp p) = Some (owner s') \<and>
             map (\<lambda>e. heap (replaceBy toLowerCase JSON_parse asGraphData rp p) ! datum e) (nodeElems s') =
               map (\<lambda>i. initializeNode i (nodes g ! i)) [0 ..< length (nodes g)] \<and>
             list_all (\<lambda>e. length (heap p) \<le> datum e \<and> place e = None) (nodeElems s') \<and>
             (filterText p \<noteq> [] \<longrightarrow>
                map opacity (nodeElems s') =
                  map (\<lambda>n. if caseInsensitiveSubstring toLowerCase (filterText p) (label n) then 1 else 0.1)
                    (nodes g)) \<and>
             (\<forall>i upd. i \<noteq> owner s' \<longrightarrow>
                svg (tick i upd (replaceBy toLowerCase JSON_parse asGraphData rp p)) =
                svg (replaceBy toLowerCase JSON_parse asGraphData rp p))))"
proof -
  let ?p' = "replaceBy toLowerCase JSON_parse asGraphData rp p"
  let ?dim = "\<lambda>n. if caseInsensitiveSubstring toLowerCase (filterText p) (label n) then 1 else (0.1 :: real)"
  have a: "filterText ?p' = filterText p" by (rule replaceBy_filterText)
  have b: "isImport rp \<longrightarrow> selectedNode ?p' = None"
    using replaceBy_selection [where cast = asGraphData, OF assms] by blast
  have c: "trim (query p) \<noteq> [] \<longrightarrow> selectedNode (handleGenerate_submit toLowerCase p) = None"
    using handleGenerate_submit_clears by blast
  have d: "readGraph (heap ?p') (graphData ?p') = g"
    using replaceBy_graph [where cast = asGraphData, OF assms] .
  have e: "\<forall>i < length (sims p). cleanup p = Some i \<or> \<not> running (sims p ! i) \<longrightarrow> \<not> running (sims ?p' ! i)"
    using replaceBy_running [where cast = asGraphData, OF assms] by blast
  have f: "nodes g \<noteq> [] \<and> \<not> crashed ?p' \<longrightarrow>
       (\<exists>s'. svg ?p' = Some s' \<and> owner s' = length (sims p) \<and> running (sims ?p' ! owner s') \<and>
             cleanup ?p' = Some (owner s') \<and>
             map (\<lambda>e. heap ?p' ! datum e) (nodeElems s') =
               map (\<lambda>i. initializeNode i (nodes g ! i)) [0 ..< length (nodes g)] \<and>
             list_all (\<lambda>e. length (heap p) \<le> datum e \<and> place e = None) (nodeElems s') \<and>
             (filterText p \<noteq> [] \<longrightarrow> map opacity (nodeElems s') = map ?dim (nodes g)) \<and>
             (\<forall>i upd. i \<noteq> owner s' \<longrightarrow> svg (tick i upd ?p') = svg ?p'))"
  proof (intro impI)
    assume h: "nodes g \<noteq> [] \<and> \<not> crashed ?p'"
    from replaceBy_render [where cast = asGraphData, OF assms, of p] h obtain s' where
      s: "svg ?p' = Some s'" and r: "owner s' = length (sims p)" "running (sims ?p' ! owner s')"
        "cleanup ?p' = Some (owner s')"
        "map (\<lambda>e. heap ?p' ! datum e) (nodeElems s') = simulationNodes (nodes g)"
        "list_all (\<lambda>e. length (heap p) \<le> datum e \<and> place e = None) (nodeElems s')"
        "filterText p \<noteq> [] \<longrightarrow> map opacity (nodeElems s') = map ?dim (nodes g)"
      by blast
    have "\<forall>i upd. i \<noteq> owner s' \<longrightarrow> svg (tick i upd ?p') = svg ?p'"
      using tick_stale [OF s] by blast
    with s r show "\<exists>s'. svg ?p' = Some s' \<and> owner s' = length (sims p) \<and> running (sims ?p' ! owner s') \<and>
             cleanup ?p' = Some (owner s') \<and>
             map (\<lambda>e. heap ?p' ! datum e) (nodeElems s') =
               map (\<lambda>i. initializeNode i (nodes g ! i)) [0 ..< length (nodes g)] \<and>
             list_all (\<lambda>e. length (heap p) \<le> datum e \<and> place e = None) (nodeElems s') \<and>
             (filterText p \<noteq> [] \<longrightarrow> map opacity (nodeElems s') = map ?dim (nodes g)) \<and>
             (\<forall>i upd. i \<noteq> owner s' \<longrightarrow> svg (tick i upd ?p') = svg ?p')"
      unfolding simulationNodes_def by blast
  qed
  from a b c d e f show ?thesis by (simp only: simp_thms)
qed

lemma pair_accepted:
  "replacementValue toLowerCase_basic (\<lambda>t. Some pairGraphJson) (ByImport jsonFile) = Some pairGraphJson"
  by (simp add: replacementValue_def endsWith_def toLowerCase_basic_def json_defs)

lemma pair_graph: "graphOfJson pairGraphJson = IsGraph pairGraph"
  by (simp add: json_defs pairGraph_def mkNode_def mkLink_def)

lemma searchedPage_filterText: "filterText searchedPage = label_ml"
  by (simp add: searchedPage_def setFilterText_def)

lemma importedPage_replaceBy:
  "importedPage = replaceBy toLowerCase_basic (\<lambda>t. Some pairGraphJson) graphOfJson (ByImport jsonFile) searchedPage"
  by (simp add: importedPage_def replaceBy_def)

lemma samplePage_app: "status samplePage = \<lparr>loading = False, step = StepIdle, message = NoMessage\<rparr>"
  "pending samplePage = 0" "selectedNode samplePage = None" "illTyped samplePage = False"
  "query samplePage = []"
  by (simp_all add: samplePage_def initialPage_def split_beta)

lemma samplePage_filterText: "filterText samplePage = []"
  by (simp add: samplePage_def initialPage_def split_beta)

lemma samplePage_svg: "svg samplePage = Some \<lparr>owner = 0,
     nodeElems = map (\<lambda>r. \<lparr>datum = r, opacity = 1, place = None\<rparr>) [5, 6, 7, 8, 9],
     linkElems = map (\<lambda>l. \<lparr>link_datum = l, link_opacity = 1, stroke = defaultStroke, label_opacity = 1\<rparr>)
       [\<lparr>source = EndObj 5, target = EndObj 6, relation = rel_contains\<rparr>,
        \<lparr>source = EndObj 6, target = EndObj 7, relation = rel_contains\<rparr>,
        \<lparr>source = EndObj 7, target = EndObj 8, relation = rel_uses\<rparr>,
        \<lparr>source = EndObj 9, target = EndObj 5, relation = rel_belongs\<rparr>],
     gTransform = None\<rparr>"
  by (simp add: samplePage_def page_defs sample_defs)

text \<open>A page with a selection and a search: the second node is selected, "a" is the search
  text, a topic is in the query box, and the simulation of the first render runs and is
  registered for clean-up.\<close>

lemma busyPage_eq:
  "busyPage = (setFilterText toLowerCase_basic (js ''a'')
                 (setSelectedNode toLowerCase_basic (Some 6) samplePage))\<lparr>query := js ''topic''\<rparr>"
proof -
  have 1: "pageStep toLowerCase_basic (\<lambda>t. None) graphOfJson samplePage (NodeClick 1) =
      setSelectedNode toLowerCase_basic (Some 6) samplePage"
    by (simp add: pageStep_def samplePage_misc samplePage_app nodeClicked_def samplePage_svg)
  have 2: "pageStep toLowerCase_basic (\<lambda>t. None) graphOfJson
        (setSelectedNode toLowerCase_basic (Some 6) samplePage) (SearchInput (js ''a'')) =
      setFilterText toLowerCase_basic (js ''a'') (setSelectedNode toLowerCase_basic (Some 6) samplePage)"
    by (simp add: pageStep_def setSelectedNode_def samplePage_app samplePage_misc)
  have 3: "pageStep toLowerCase_basic (\<lambda>t. None) graphOfJson
        (setFilterText toLowerCase_basic (js ''a'') (setSelectedNode toLowerCase_basic (Some 6) samplePage))
        (QueryInput (js ''topic'')) =
      (setFilterText toLowerCase_basic (js ''a'')
         (setSelectedNode toLowerCase_basic (Some 6) samplePage))\<lparr>query := js ''topic''\<rparr>"
    by (simp add: pageStep_def setSelectedNode_def setFilterText_def samplePage_app samplePage_misc
        samplePage_filterText js_def)
  show ?thesis by (simp only: busyPage_def runPage_def foldl.simps 1 2 3)
qed

lemma busyPage_state:
  "selectedNode busyPage = Some 6" "filterText busyPage = js ''a''" "query busyPage = js ''topic''"
  "cleanup busyPage = Some 0" "sims busyPage = sims samplePage" "heap busyPage = heap samplePage"
  "crashed busyPage = False"
  by (simp_all add: busyPage_eq setFilterText_def setSelectedNode_def samplePage_app samplePage_filterText
      samplePage_misc js_def)

lemma trim_topic: "trim (js ''topic'') \<noteq> []"
  by (simp add: trim_def js_def isWhiteSpace_def)

text \<open>The links of the two-node graph resolve against the copies of its nodes, wherever
  they are in the store.\<close>

lemma pair_resolves:
  assumes "map (\<lambda>r. heap q ! r) (nodes (graphData q)) = nodes pairGraph"
      and "links (graphData q) = [mkLink (js ''a'') (js ''b'') (js ''r'')]"
  shows "resolvedLinks q \<noteq> None"
proof -
  have n: "length (nodes (graphData q)) = 2"
    using arg_cong [OF assms(1), of length] by (simp add: pairGraph_def)
  have "[length (heap q) ..< length (heap q) + 2] = [length (heap q), Suc (length (heap q))]"
    by (simp add: upt_rec)
  then show ?thesis
    using assms n
    by (simp add: resolvedLinks_def simulationNodes_def copyLinks_def mkLink_def resolveEndpoint_def
        nodeById_def nth_append pairGraph_def mkNode_def js_def)
qed

lemma pair_import_completes:
  assumes "\<not> crashed p"
  shows "\<not> crashed (replaceBy toLowerCase_basic (\<lambda>t. Some pairGraphJson) graphOfJson (ByImport jsonFile) p)"
proof -
  let ?q = "(setGraphData pairGraph p)\<lparr>query := [],
      status := \<lparr>loading = False, step = StepComplete, message = MsgImported (file_name jsonFile)\<rparr>,
      selectedNode := None\<rparr>"
  have acc: "validateImport (\<lambda>t. Some pairGraphJson) (file_content jsonFile) = Accept pairGraphJson"
    using pair_accepted by (simp add: replacementValue_def endsWith_def toLowerCase_basic_def jsonFile_def js_def
        split: ImportDecision.splits if_splits)
  have r: "replaceBy toLowerCase_basic (\<lambda>t. Some pairGraphJson) graphOfJson (ByImport jsonFile) p =
      afterDataChange toLowerCase_basic ?q"
    using acc by (simp add: replaceBy_def handleFileUpload_def pair_graph endsWith_def toLowerCase_basic_def
        jsonFile_def js_def)
  have rg: "readGraph (heap ?q) (graphData ?q) = pairGraph"
    using setGraphData_read(4) [of pairGraph p] by simp
  have l: "links (graphData ?q) = [mkLink (js ''a'') (js ''b'') (js ''r'')]"
    by (simp add: setGraphData_def allocGraph_def split_beta pairGraph_def mkLink_def)
  have n: "map (\<lambda>r. heap ?q ! r) (nodes (graphData ?q)) = nodes pairGraph"
    using arg_cong [OF rg, of nodes] by (simp add: readGraph_def)
  have "resolvedLinks (runCleanup ?q) \<noteq> None"
    using pair_resolves [of "runCleanup ?q"] n l by simp
  then obtain rl where rl: "resolvedLinks (runCleanup ?q) = Some rl" by blast
  have ne: "nodes (graphData (runCleanup ?q)) \<noteq> []"
    by (simp add: setGraphData_nodes pairGraph_def)
  have "\<not> crashed (simulationEffect (runCleanup ?q))"
    using assms by (subst simulationEffect_render [OF ne rl]) simp
  then show ?thesis using r by (simp add: afterDataChange_def Let_def)
qed

lemma unplaced_elements:
  "list_all (\<lambda>e. n \<le> datum e \<and> place e = None) es \<Longrightarrow> map place es = replicate (length es) None"
  by (induction es) simp_all

lemma cis_includes:
  "caseInsensitiveSubstring lc text lbl = includes_str (lc lbl) (lc text)"
  by (simp add: includes_str_sublist sublist_def caseInsensitiveSubstring_def)

text \<open>
  The two-node file imported into the page on which the second node is selected and "a" is
  searched: the selection goes, the search text stays and dims "B", and the simulation of
  the first render no longer runs.
\<close>

theorem replacement_keeps_search_text_witness:
  "replacementValue toLowerCase_basic (\<lambda>t. Some pairGraphJson) (ByImport jsonFile) = Some pairGraphJson \<and>
   graphOfJson pairGraphJson = IsGraph pairGraph \<and>
   selectedNode busyPage = Some 6 \<and> filterText busyPage = js ''a'' \<and> filterText busyPage \<noteq> [] \<and>
   trim (query busyPage) \<noteq> [] \<and>
   cleanup busyPage = Some 0 \<and> map running (sims busyPage) = [True] \<and>
   filterText (replaceBy toLowerCase_basic (\<lambda>t. Some pairGraphJson) graphOfJson (ByImport jsonFile) busyPage) =
     js ''a'' \<and>
   selectedNode (replaceBy toLowerCase_basic (\<lambda>t. Some pairGraphJson) graphOfJson (ByImport jsonFile) busyPage) =
     None \<and>
   selectedNode (handleGenerate_submit toLowerCase_basic busyPage) = None \<and>
   readGraph (heap (replaceBy toLowerCase_basic (\<lambda>t. Some pairGraphJson) graphOfJson (ByImport jsonFile) busyPage))
     (graphData (replaceBy toLowerCase_basic (\<lambda>t. Some pairGraphJson) graphOfJson (ByImport jsonFile) busyPage)) =
     pairGraph \<and>
   \<not> running (sims (replaceBy toLowerCase_basic (\<lambda>t. Some pairGraphJson) graphOfJson (ByImport jsonFile) busyPage) ! 0) \<and>
   nodes pairGraph \<noteq> [] \<and>
   \<not> crashed (replaceBy toLowerCase_basic (\<lambda>t. Some pairGraphJson) graphOfJson (ByImport jsonFile) busyPage) \<and>
   map_option (\<lambda>s. (owner s, map opacity (nodeElems s), map place (nodeElems s)))
     (svg (replaceBy toLowerCase_basic (\<lambda>t. Some pairGraphJson) graphOfJson (ByImport jsonFile) busyPage)) =
     Some (1, [1, 0.1], [None, None]) \<and>
   map_option (\<lambda>s. map (\<lambda>e. heap (replaceBy toLowerCase_basic (\<lambda>t. Some pairGraphJson) graphOfJson
                                     (ByImport jsonFile) busyPage) ! datum e) (nodeElems s))
     (svg (replaceBy toLowerCase_basic (\<lambda>t. Some pairGraphJson) graphOfJson (ByImport jsonFile) busyPage)) =
     Some [initializeNode 0 (mkNode (js ''a'') (js ''A'') (js ''g'')),
           initializeNode 1 (mkNode (js ''b'') (js ''B'') (js ''g''))] \<and>
   node_x (initializeNode 0 (mkNode (js ''a'') (js ''A'') (js ''g''))) = Num (10 * sqrt 0.5) \<and>
   node_y (initializeNode 0 (mkNode (js ''a'') (js ''A'') (js ''g''))) = Num 0 \<and>
   vx (initializeNode 0 (mkNode (js ''a'') (js ''A'') (js ''g''))) = Num 0 \<and>
   fx (initializeNode 0 (mkNode (js ''a'') (js ''A'') (js ''g''))) = Undefined \<and>
   running (sims (replaceBy toLowerCase_basic (\<lambda>t. Some pairGraphJson) graphOfJson (ByImport jsonFile) busyPage) ! 1) \<and>
   svg (tick 0 (\<lambda>r. (1, 2, 3, 4))
          (replaceBy toLowerCase_basic (\<lambda>t. Some pairGraphJson) graphOfJson (ByImport jsonFile) busyPage)) =
     svg (replaceBy toLowerCase_basic (\<lambda>t. Some pairGraphJson) graphOfJson (ByImport jsonFile) busyPage)"
proof -
  let ?p' = "replaceBy toLowerCase_basic (\<lambda>t. Some pairGraphJson) graphOfJson (ByImport jsonFile) busyPage"
  have ok: "\<not> crashed ?p'" by (rule pair_import_completes) (simp add: busyPage_state)
  have ne: "nodes pairGraph \<noteq> []" by (simp add: pairGraph_def)
  have run: "map running (sims busyPage) = [True]" by (simp add: busyPage_state samplePage_sims)
  have tr: "trim (query busyPage) \<noteq> []" by (simp add: busyPage_state trim_topic)
  note t = replacement_keeps_search_text [where asGraphData = graphOfJson, OF pair_accepted pair_graph, of busyPage]
  from t ok ne obtain s' where s: "svg ?p' = Some s'" and o: "owner s' = length (sims busyPage)"
    and r: "running (sims ?p' ! owner s')"
    and d: "map (\<lambda>e. heap ?p' ! datum e) (nodeElems s') =
        map (\<lambda>i. initializeNode i (nodes pairGraph ! i)) [0 ..< length (nodes pairGraph)]"
    and pl: "list_all (\<lambda>e. length (heap busyPage) \<le> datum e \<and> place e = None) (nodeElems s')"
    and op: "filterText busyPage \<noteq> [] \<longrightarrow> map opacity (nodeElems s') =
        map (\<lambda>n. if caseInsensitiveSubstring toLowerCase_basic (filterText busyPage) (label n) then 1 else 0.1)
          (nodes pairGraph)"
    and st: "\<forall>i upd. i \<noteq> owner s' \<longrightarrow> svg (tick i upd ?p') = svg ?p'"
    by blast
  have len: "length (nodeElems s') = 2"
    using arg_cong [OF d, of length] by (simp add: pairGraph_def)
  have "map place (nodeElems s') = replicate (length (nodeElems s')) None"
    using pl by (rule unplaced_elements)
  then have places: "map place (nodeElems s') = [None, None]"
    using len by (simp add: numeral_2_eq_2)
  have ops: "map opacity (nodeElems s') = [1, 0.1]"
    using op by (simp add: busyPage_state cis_includes pairGraph_def mkNode_def js_def toLowerCase_basic_def)
  have own: "owner s' = 1" using o by (simp add: busyPage_state samplePage_sims)
  have stop: "\<not> running (sims ?p' ! 0)"
    using t by (simp add: busyPage_state samplePage_sims)
  have stale: "svg (tick 0 (\<lambda>r. (1, 2, 3, 4)) ?p') = svg ?p'"
    using st own by simp
  have kept: "filterText ?p' = js ''a''" using t by (simp add: busyPage_state)
  have cleared: "selectedNode ?p' = None" using t by (simp add: isImport_def)
  have submit: "selectedNode (handleGenerate_submit toLowerCase_basic busyPage) = None"
    using t tr by simp
  have graph: "readGraph (heap ?p') (graphData ?p') = pairGraph" using t by simp
  have new: "running (sims ?p' ! 1)" using r own by simp
  have drawn: "map_option (\<lambda>s. (owner s, map opacity (nodeElems s), map place (nodeElems s))) (svg ?p') =
      Some (1, [1, 0.1], [None, None])"
    using s own ops places by simp
  have a_text: "js ''a'' \<noteq> []" by (simp add: js_def)
  have data: "map_option (\<lambda>s. map (\<lambda>e. heap ?p' ! datum e) (nodeElems s)) (svg ?p') =
      Some [initializeNode 0 (mkNode (js ''a'') (js ''A'') (js ''g'')),
            initializeNode 1 (mkNode (js ''b'') (js ''B'') (js ''g''))]"
    using s d by (simp add: pairGraph_def upt_rec)
  have first: "node_x (initializeNode 0 (mkNode (js ''a'') (js ''A'') (js ''g''))) = Num (10 * sqrt 0.5)"
    "node_y (initializeNode 0 (mkNode (js ''a'') (js ''A'') (js ''g''))) = Num 0"
    "vx (initializeNode 0 (mkNode (js ''a'') (js ''A'') (js ''g''))) = Num 0"
    "fx (initializeNode 0 (mkNode (js ''a'') (js ''A'') (js ''g''))) = Undefined"
    by (simp_all add: initializeNode_def mkNode_def isNaN_def initialRadius_def Let_def)
  show ?thesis
    using pair_accepted pair_graph busyPage_state(1,2,4) a_text tr run kept cleared submit graph stop ne ok
      drawn data first new stale
    by (simp only: simp_thms)
qed

lemma samplePage_graph: "readGraph (heap samplePage) (graphData samplePage) = INITIAL_DATA"
  by (simp add: samplePage_def page_defs sample_defs)

lemma searchedPage_graph: "readGraph (heap searchedPage) (graphData searchedPage) = INITIAL_DATA"
  using samplePage_graph by (simp add: searchedPage_def setFilterText_def)

text \<open>
  Claim C4, as stated, fails for the search text: the sample graph is displayed and the
  label of "ml" is the search text; a valid file with another graph is imported; the graph
  in state is the imported one, and the search text is still the label of "ml".
\<close>

theorem search_text_survives_import:
  "readGraph (heap searchedPage) (graphData searchedPage) = INITIAL_DATA \<and>
   filterText searchedPage = label_ml \<and> label_ml \<noteq> [] \<and>
   graphOfJson pairGraphJson = IsGraph pairGraph \<and>
   readGraph (heap importedPage) (graphData importedPage) = pairGraph \<and>
   pairGraph \<noteq> INITIAL_DATA \<and>
   filterText importedPage = label_ml"
proof -
  have a: "readGraph (heap importedPage) (graphData importedPage) = pairGraph"
    unfolding importedPage_replaceBy using replaceBy_graph [where cast = graphOfJson, OF pair_accepted pair_graph] .
  have b: "filterText importedPage = label_ml"
    by (simp add: importedPage_def handleFileUpload_filterText searchedPage_filterText)
  have c: "pairGraph \<noteq> INITIAL_DATA"
    by (simp add: pairGraph_def INITIAL_DATA_def)
  show ?thesis using a b c searchedPage_graph searchedPage_filterText pair_graph by (simp add: label_ml_def)
qed

text \<open>A replacement stops the simulation that is registered for clean-up, and no other.
  After the file without nodes has been imported the clean-up has run and none is
  registered; a grab of a node group that is still drawn starts its simulation again, and
  the next replacement leaves that simulation running beside the new one.\<close>

lemma emptyGraph_accepted:
  "validateImport (\<lambda>t. Some emptyGraphJson) (file_content jsonFile) = Accept emptyGraphJson"
  by (simp add: json_defs)

lemma emptyGraph_graph: "graphOfJson emptyGraphJson = IsGraph \<lparr>nodes = [], links = []\<rparr>"
  by (simp add: json_defs)

lemma jsonFile_name: "file_size jsonFile = 300"
  "endsWith (toLowerCase_basic (file_name jsonFile)) (js ''.json'')"
  by (simp_all add: endsWith_def toLowerCase_basic_def jsonFile_def js_def)

lemma stalePage_state:
  "cleanup stalePage = None" "map running (sims stalePage) = [True]" "\<not> crashed stalePage"
proof -
  let ?q = "(setGraphData \<lparr>nodes = [], links = []\<rparr> samplePage)\<lparr>query := [],
      status := \<lparr>loading = False, step = StepComplete, message = MsgImported (file_name jsonFile)\<rparr>,
      selectedNode := None\<rparr>"
  let ?e = "afterDataChange toLowerCase_basic ?q"
  have 1: "pageStep toLowerCase_basic (\<lambda>t. Some emptyGraphJson) graphOfJson samplePage (FileUpload jsonFile) = ?e"
    by (simp add: pageStep_def samplePage_misc samplePage_app handleFileUpload_def jsonFile_name
        emptyGraph_accepted emptyGraph_graph)
  have nn: "nodes (graphData (runCleanup ?q)) = []" by (simp add: setGraphData_nodes)
  have e: "?e = highlightPage toLowerCase_basic (runCleanup ?q)"
    by (simp add: afterDataChange_def Let_def simulationEffect_no_nodes [OF nn] samplePage_misc)
  have c: "cleanup ?e = None" "crashed ?e = False" "illTyped ?e = False"
    "sims ?e = [(sims samplePage ! 0)\<lparr>running := False\<rparr>]"
    by (simp_all add: e runCleanup_def samplePage_misc samplePage_sims samplePage_app)
  have sv: "map_option svgElements (svg ?e) = map_option svgElements (svg samplePage)"
    using afterDataChange_no_nodes(1) [of ?q toLowerCase_basic] by (simp add: setGraphData_nodes)
  then obtain s where s: "svg ?e = Some s" and el: "svgElements s = (0, [(5, None), (6, None), (7, None), (8, None), (9, None)],
     [\<lparr>source = EndObj 5, target = EndObj 6, relation = rel_contains\<rparr>,
      \<lparr>source = EndObj 6, target = EndObj 7, relation = rel_contains\<rparr>,
      \<lparr>source = EndObj 7, target = EndObj 8, relation = rel_uses\<rparr>,
      \<lparr>source = EndObj 9, target = EndObj 5, relation = rel_belongs\<rparr>])"
    using samplePage_svgElements by (cases "svg ?e") auto
  have o: "owner s = 0" using el by (simp add: svgElements_def)
  have k: "0 < length (nodeElems s)" using el by (auto simp: svgElements_def)
  have st: "stalePage = dragstarted 0 ?e"
    by (simp only: stalePage_def runPage_def foldl.simps 1)
       (simp add: pageStep_def c samplePage_app samplePage_misc)
  show "cleanup stalePage = None" "map running (sims stalePage) = [True]" "\<not> crashed stalePage"
    using o k by (simp_all add: st dragstarted_def s Let_def c)
qed

lemma stale_simulation_keeps_running:
  "cleanup stalePage = None \<and> map running (sims stalePage) = [True] \<and>
   \<not> crashed staleImportedPage \<and> map running (sims staleImportedPage) = [True, True]"
proof -
  let ?p' = "replaceBy toLowerCase_basic (\<lambda>t. Some pairGraphJson) graphOfJson (ByImport jsonFile) stalePage"
  have i: "staleImportedPage = ?p'" by (simp add: staleImportedPage_def replaceBy_def)
  have ok: "\<not> crashed ?p'" by (rule pair_import_completes) (rule stalePage_state)
  have len: "length (sims stalePage) = 1"
    using arg_cong [OF stalePage_state(2), of length] by simp
  have r0: "running (sims stalePage ! 0)"
    using arg_cong [OF stalePage_state(2), of "\<lambda>l. l ! 0"] len by simp
  have old: "running (sims ?p' ! 0)"
    using replaceBy_running [where cast = graphOfJson, OF pair_accepted pair_graph, of 0 stalePage] len r0 stalePage_state(1) by simp
  have ne: "nodes pairGraph \<noteq> []" by (simp add: pairGraph_def)
  have "running (sims ?p' ! length (sims stalePage))"
    using replaceBy_render [where cast = graphOfJson, OF pair_accepted pair_graph ne ok]
    by (elim exE conjE) simp
  then have new: "running (sims ?p' ! 1)" using len by simp
  have l2: "length (sims ?p') = 2"
  proof -
    from replaceBy_unfold [where cast = graphOfJson, OF pair_accepted pair_graph, of stalePage] obtain q where
      q: "?p' = afterDataChange toLowerCase_basic q" and sq: "sims q = sims stalePage"
      and g: "graphData q = graphData (setGraphData pairGraph stalePage)" by blast
    have n: "nodes (graphData q) \<noteq> []" using g by (simp add: setGraphData_nodes pairGraph_def)
    from afterDataChange_render [OF n, of toLowerCase_basic] ok q sq len show ?thesis
      by (auto simp: numeral_2_eq_2)
  qed
  have "map running (sims ?p') = [True, True]"
    using l2 old new by (intro nth_equalityI) (auto simp: less_Suc_eq numeral_2_eq_2)
  then show ?thesis using stalePage_state ok i by simp
qed

section \<open>Validation on the two ways of replacement\<close>

lemma nodesOnly_reading: "graphOfJson nodesOnlyJson = IllTyped"
  by (simp add: json_defs)

lemma blankLabel_graph:
  "graphOfJson blankLabelJson = IsGraph \<lparr>nodes = [mkNode (js ''a'') [] (js ''g'')], links = []\<rparr>"
  by (simp add: json_defs mkNode_def)

lemma rejectedPage_same: "rejectedPage = samplePage\<lparr>alerts := alerts samplePage @ [AlertNotArrays]\<rparr>"
  by (simp add: rejectedPage_def handleFileUpload_def endsWith_def toLowerCase_basic_def json_defs)

lemma generatedPage_settle:
  "generatedPage = handleGenerate_settle toLowerCase_basic (\<lambda>t. Some blankLabelJson) graphOfJson
     (ResponseText (Some (js ''...'')))
     (samplePage\<lparr>query := js ''topic'',
        status := \<lparr>loading = True, step = StepAnalyzing, message = MsgAnalyzing\<rparr>, pending := 1\<rparr>)"
  by (simp add: generatedPage_def runPage_def pageStep_def samplePage_misc samplePage_app
      handleGenerate_submit_def trim_topic setSelectedNode_def)

lemma nullAnswerPage_settle:
  "nullAnswerPage = handleGenerate_settle toLowerCase_basic (\<lambda>t. Some JNull) graphOfJson
     (ResponseText (Some (js ''...'')))
     (samplePage\<lparr>query := js ''topic'',
        status := \<lparr>loading = True, step = StepAnalyzing, message = MsgAnalyzing\<rparr>, pending := 1\<rparr>)"
  by (simp add: nullAnswerPage_def runPage_def pageStep_def samplePage_misc samplePage_app
      handleGenerate_submit_def trim_topic setSelectedNode_def)

lemma null_reading: "graphOfJson JNull = Throwing"
  by (simp add: json_defs)

lemma null_generated:
  "generateKnowledgeGraph (\<lambda>t. Some JNull) (ResponseText (Some (js ''...''))) = Returns JNull"
  by (simp add: generateKnowledgeGraph_def js_def)

lemma blankLabel_generated:
  "generateKnowledgeGraph (\<lambda>t. Some blankLabelJson) (ResponseText (Some (js ''...''))) = Returns blankLabelJson"
  by (simp add: generateKnowledgeGraph_def js_def)

lemma nodesOnly_generated:
  "generateKnowledgeGraph (\<lambda>t. Some nodesOnlyJson) (ResponseText (Some (js ''...''))) = Returns nodesOnlyJson"
  by (simp add: generateKnowledgeGraph_def js_def)

text \<open>
  Claim C5 on the generation path.  The object with an empty \<open>nodes\<close> array and no
  \<open>links\<close> is not a validated graph, and not a \<open>GraphData\<close> at all.  As an imported file
  it is rejected and the graph and the store stay as they were.  As the text answered by the
  generation service it parses, and \<open>generateKnowledgeGraph\<close> returns it unchecked.  The
  graph whose one node has the empty string as its label is a \<open>GraphData\<close>, and not a
  validated graph either: as an imported file it is rejected; as the text answered by the
  generation service it is returned unchecked, and it replaces the sample graph in state.
  The answer \<open>null\<close> is returned unchecked as well, the set-up effect throws on it, and
  the page is unmounted.
\<close>

theorem unvalidated_generation_replaces_graph:
  "\<not> validGraphJson nodesOnlyJson \<and>
   validateImport (\<lambda>t. Some nodesOnlyJson) (file_content jsonFile) = Reject AlertNotArrays \<and>
   graphData rejectedPage = graphData samplePage \<and> heap rejectedPage = heap samplePage \<and>
   readGraph (heap samplePage) (graphData samplePage) = INITIAL_DATA \<and>
   generateKnowledgeGraph (\<lambda>t. Some nodesOnlyJson) (ResponseText (Some (js ''...''))) = Returns nodesOnlyJson \<and>
   graphOfJson nodesOnlyJson = IllTyped \<and>
   \<not> validGraphJson blankLabelJson \<and>
   validateImport (\<lambda>t. Some blankLabelJson) (file_content jsonFile) = Reject AlertNodeFields \<and>
   generateKnowledgeGraph (\<lambda>t. Some blankLabelJson) (ResponseText (Some (js ''...''))) = Returns blankLabelJson \<and>
   graphOfJson blankLabelJson = IsGraph \<lparr>nodes = [mkNode (js ''a'') [] (js ''g'')], links = []\<rparr> \<and>
   readGraph (heap generatedPage) (graphData generatedPage) =
     \<lparr>nodes = [mkNode (js ''a'') [] (js ''g'')], links = []\<rparr> \<and>
   status generatedPage = \<lparr>loading = False, step = StepComplete, message = MsgComplete\<rparr> \<and>
   generateKnowledgeGraph (\<lambda>t. Some JNull) (ResponseText (Some (js ''...''))) = Returns JNull \<and>
   graphOfJson JNull = Throwing \<and> \<not> crashed samplePage \<and> crashed nullAnswerPage"
proof -
  have a: "\<not> validGraphJson nodesOnlyJson"
    by (simp add: validGraphJson_def json_defs)
  have b: "validateImport (\<lambda>t. Some nodesOnlyJson) (file_content jsonFile) = Reject AlertNotArrays"
    by (simp add: json_defs)
  have a': "\<not> validGraphJson blankLabelJson"
    by (simp add: validGraphJson_def hasIdAndLabel_def json_defs)
  have b': "validateImport (\<lambda>t. Some blankLabelJson) (file_content jsonFile) = Reject AlertNodeFields"
    by (simp add: json_defs)
  have v: "replacementValue toLowerCase_basic (\<lambda>t. Some blankLabelJson)
      (ByGeneration (ResponseText (Some (js ''...'')))) = Some blankLabelJson"
    by (simp add: replacementValue_def blankLabel_generated)
  have g: "generatedPage = replaceBy toLowerCase_basic (\<lambda>t. Some blankLabelJson) graphOfJson
      (ByGeneration (ResponseText (Some (js ''...''))))
      (samplePage\<lparr>query := js ''topic'',
        status := \<lparr>loading = True, step = StepAnalyzing, message = MsgAnalyzing\<rparr>, pending := 1\<rparr>)"
    by (simp add: generatedPage_settle replaceBy_def)
  have c: "readGraph (heap generatedPage) (graphData generatedPage) =
      \<lparr>nodes = [mkNode (js ''a'') [] (js ''g'')], links = []\<rparr>"
    unfolding g using replaceBy_graph [where cast = graphOfJson, OF v blankLabel_graph] .
  have d: "status generatedPage = \<lparr>loading = False, step = StepComplete, message = MsgComplete\<rparr>"
    by (simp add: generatedPage_settle handleGenerate_settle_def blankLabel_generated blankLabel_graph)
  have e: "crashed nullAnswerPage"
    by (simp add: nullAnswerPage_settle handleGenerate_settle_def null_generated null_reading)
  show ?thesis
    using a b a' b' c d e samplePage_graph nodesOnly_generated blankLabel_generated nodesOnly_reading
      blankLabel_graph null_generated null_reading samplePage_misc(1)
    by (simp add: rejectedPage_same)
qed

section \<open>Instances of the theorems on the page\<close>

text \<open>
  A zoom gesture by the factor 1000 on the mounted page; the clamping at both ends.
\<close>

theorem zoom_scale_stays_in_extent_witness:
  "tk (viewport (runPage toLowerCase_basic (\<lambda>t. None) graphOfJson (mount toLowerCase_basic 1000 700)
      [ZoomBy 1000 0 0, PanBy 5 5])) \<le> 4 \<and>
   tk (zoomBy 1000 0 0 zoomIdentity) = 4 \<and> tk (zoomBy 0.001 0 0 zoomIdentity) = 0.1"
  using zoom_scale_stays_in_extent [of toLowerCase_basic "\<lambda>t. None" graphOfJson 1000 700 "[ZoomBy 1000 0 0, PanBy 5 5]"]
  by (simp add: zoomBy_def zoomIdentity_def scaleExtent_def)

text \<open>
  The file without nodes imported into the sample page: the five node groups and four
  link lines of the sample graph are still the content of the SVG.
\<close>

theorem empty_graph_import_keeps_old_render_witness:
  "\<not> file_size jsonFile > 1024 * 1024 * 5 \<and>
   endsWith (toLowerCase_basic (file_name jsonFile)) (js ''.json'') \<and>
   getProp emptyGraphJson (js ''nodes'') = Returns (Some (JArr [])) \<and>
   getProp emptyGraphJson (js ''links'') = Returns (Some (JArr [])) \<and>
   graphOfJson emptyGraphJson = IsGraph \<lparr>nodes = [], links = []\<rparr> \<and>
   nodes (graphData (handleFileUpload toLowerCase_basic (\<lambda>t. Some emptyGraphJson) graphOfJson jsonFile samplePage)) = [] \<and>
   map_option svgElements
     (svg (handleFileUpload toLowerCase_basic (\<lambda>t. Some emptyGraphJson) graphOfJson jsonFile samplePage)) =
     Some (0, [(5, None), (6, None), (7, None), (8, None), (9, None)],
       [\<lparr>source = EndObj 5, target = EndObj 6, relation = rel_contains\<rparr>,
        \<lparr>source = EndObj 6, target = EndObj 7, relation = rel_contains\<rparr>,
        \<lparr>source = EndObj 7, target = EndObj 8, relation = rel_uses\<rparr>,
        \<lparr>source = EndObj 9, target = EndObj 5, relation = rel_belongs\<rparr>])"
proof -
  have a: "\<not> file_size jsonFile > 1024 * 1024 * 5" by (simp add: jsonFile_def)
  have b: "endsWith (toLowerCase_basic (file_name jsonFile)) (js ''.json'')"
    by (simp add: endsWith_def toLowerCase_basic_def jsonFile_def js_def)
  have c: "(\<lambda>t. Some emptyGraphJson) (file_content jsonFile) = Some emptyGraphJson" by simp
  have d: "getProp emptyGraphJson (js ''nodes'') = Returns (Some (JArr []))"
    by (simp add: json_defs)
  have e: "getProp emptyGraphJson (js ''links'') = Returns (Some (JArr []))"
    by (simp add: json_defs)
  have f: "graphOfJson emptyGraphJson = IsGraph \<lparr>nodes = [], links = []\<rparr>" by (simp add: json_defs)
  show ?thesis
    using empty_graph_import_keeps_old_render [where f = jsonFile and toLowerCase = toLowerCase_basic
        and JSON_parse = "\<lambda>t. Some emptyGraphJson" and j = emptyGraphJson and ls = "[]"
        and asGraphData = graphOfJson and g = "\<lparr>nodes = [], links = []\<rparr>" and p = samplePage] a b d e f
    by (simp add: samplePage_svgElements)
qed

section \<open>The graph in state and the objects the simulations write\<close>

lemma foldr_update_length [simp]:
  "length (foldr (\<lambda>r h'. h'[r := f r (h' ! r)]) rs h) = length h"
  by (induction rs) simp_all

lemma foldr_update_other:
  "r \<notin> set rs \<Longrightarrow> foldr (\<lambda>r h'. h'[r := f r (h' ! r)]) rs h ! r = h ! r"
  by (induction rs) auto

lemma engineTick_length [simp]: "length (engineTick sim upd h) = length h"
  unfolding engineTick_def
  by (simp only: foldr_update_length [where f = "\<lambda>r. moveNode (upd r)"]
      foldr_update_length [where f = "\<lambda>r. pushNode (upd r)"])

lemma engineTick_other:
  assumes "r \<notin> set (simRefs sim)"
  shows "engineTick sim upd h ! r = h ! r"
proof -
  from assms have a: "r \<notin> set (simNodes sim)" and b: "r \<notin> set (endpointRefs (simLinks sim))"
    by (simp_all add: simRefs_def)
  show ?thesis
    unfolding engineTick_def
    by (simp only: foldr_update_other [where f = "\<lambda>r. moveNode (upd r)", OF a]
        foldr_update_other [where f = "\<lambda>r. pushNode (upd r)", OF b])
qed

lemma readGraph_cong:
  assumes "idEndpoints (links g)" and "\<forall>r \<in> set (nodes g). h' ! r = h ! r"
  shows "readGraph h' g = readGraph h g"
proof -
  have "readLink h' l = readLink h l" if "l \<in> set (links g)" for l
    using that assms(1)
    by (cases "source l"; cases "target l")
       (auto simp: idEndpoints_def list_all_iff isEndId_def readLink_def readEndpoint_def)
  then show ?thesis using assms(2) by (simp add: readGraph_def)
qed

lemma dataSeparate_cong:
  assumes "heap q = heap p" "graphData q = graphData p" "sims q = sims p" "svgRefs q = svgRefs p"
  shows "dataSeparate q = dataSeparate p"
  using assms by (simp add: dataSeparate_def workingRefs_def)

lemma svgRefs_elements:
  "map_option svgElements (svg q) = map_option svgElements (svg p) \<Longrightarrow> svgRefs q = svgRefs p"
proof -
  have "map datum (nodeElems s) = map fst (fst (snd (svgElements s)))" for s
    by (simp add: svgElements_def comp_def)
  then show "map_option svgElements (svg q) = map_option svgElements (svg p) \<Longrightarrow> svgRefs q = svgRefs p"
    by (cases "svg q"; cases "svg p") (auto simp: svgRefs_def)
qed

lemma highlightPage_svgRefs: "svgRefs (highlightPage lc p) = svgRefs p"
  by (rule svgRefs_elements) (rule highlightPage_svgElements)

lemma highlightPage_separate: "dataSeparate (highlightPage lc p) = dataSeparate p"
  by (rule dataSeparate_cong) (simp_all add: highlightPage_svgRefs)

lemma simRefs_running [simp]: "simRefs (sim\<lparr>running := b\<rparr>) = simRefs sim"
  by (simp add: simRefs_def)

lemma concat_simRefs_update:
  "concat (map simRefs (ss[i := (ss ! i)\<lparr>running := b\<rparr>])) = concat (map simRefs ss)"
proof -
  have "map simRefs (ss[i := (ss ! i)\<lparr>running := b\<rparr>]) = map simRefs ss"
  proof (cases "i < length ss")
    case True
    then show ?thesis by (intro nth_equalityI) (simp_all add: nth_list_update)
  next
    case False
    then have "length ss \<le> i" by simp
    then show ?thesis by (simp only: list_update_beyond)
  qed
  then show ?thesis by simp
qed

lemma runCleanup_separate: "dataSeparate (runCleanup p) = dataSeparate p"
  by (cases "cleanup p")
     (simp_all add: runCleanup_def dataSeparate_def workingRefs_def svgRefs_def concat_simRefs_update)

lemma copyLinks_ids: "idEndpoints (copyLinks ls) = idEndpoints ls"
  by (simp add: copyLinks_def idEndpoints_def list_all_iff)

lemma nodeById_in:
  assumes "nodeById h rs s = Some r"
  shows "r \<in> set rs"
proof -
  from assms obtain i where "i < length (rev rs)" and "r = rev rs ! i"
    by (auto simp: nodeById_def find_Some_iff)
  then have "r \<in> set (rev rs)" using nth_mem by blast
  then show ?thesis by simp
qed

lemma resolveLinks_refs:
  assumes "idEndpoints ls" and "resolveLinks h rs ls = Some rl"
  shows "set (endpointRefs rl) \<subseteq> set rs"
  using assms
proof (induction ls arbitrary: rl)
  case Nil
  then show ?case by (simp add: endpointRefs_def)
next
  case (Cons l ls)
  from Cons.prems(1) obtain a b where ab: "source l = EndId a" "target l = EndId b" and rest: "idEndpoints ls"
    by (cases "source l"; cases "target l") (auto simp: idEndpoints_def isEndId_def)
  from Cons.prems(2) ab obtain s t rest' where
    s: "nodeById h rs a = Some s" and t: "nodeById h rs b = Some t"
    and r: "resolveLinks h rs ls = Some rest'"
    and rl: "rl = \<lparr>source = EndObj s, target = EndObj t, relation = relation l\<rparr> # rest'"
    by (auto simp: resolveEndpoint_def split: option.splits)
  have "set (endpointRefs rest') \<subseteq> set rs" using Cons.IH [OF rest r] .
  moreover have "s \<in> set rs" "t \<in> set rs" using s t nodeById_in by blast+
  ultimately show ?case using rl by (auto simp: endpointRefs_def refsOf_def)
qed

lemma simulationEffect_separate:
  assumes "dataSeparate p"
  shows "dataSeparate (simulationEffect p)"
proof (cases "nodes (graphData p) = []")
  case True
  with assms show ?thesis by (simp add: simulationEffect_no_nodes)
next
  case False
  let ?n = "length (nodes (graphData p))"
  let ?ns = "[length (heap p) ..< length (heap p) + ?n]"
  let ?h = "heap p @ simulationNodes (map (\<lambda>r. heap p ! r) (nodes (graphData p)))"
  from assms have ids: "idEndpoints (links (graphData p))"
    and dn: "\<forall>r \<in> set (nodes (graphData p)). r < length (heap p)"
    and wr: "\<forall>r \<in> set (workingRefs p). r < length (heap p) \<and> r \<notin> set (nodes (graphData p))"
    by (simp_all add: dataSeparate_def list_all_iff)
  show ?thesis
  proof (cases "resolvedLinks p")
    case None
    then have e: "simulationEffect p = p\<lparr>heap := ?h,
        sims := sims p @ [\<lparr>running = True, simNodes = ?ns, simLinks = []\<rparr>],
        svg := None, crashed := True\<rparr>"
      using False by (simp add: simulationEffect_unfold)
    have w: "set (workingRefs (simulationEffect p)) \<subseteq> set (workingRefs p) \<union> set ?ns"
      unfolding e by (auto simp: workingRefs_def svgRefs_def simRefs_def endpointRefs_def)
    have new: "\<forall>r \<in> set ?ns. r < length ?h \<and> r \<notin> set (nodes (graphData p))"
      using dn by auto
    have "\<forall>r \<in> set (workingRefs (simulationEffect p)). r < length ?h \<and> r \<notin> set (nodes (graphData p))"
    proof
      fix r assume "r \<in> set (workingRefs (simulationEffect p))"
      with w have "r \<in> set (workingRefs p) \<or> r \<in> set ?ns" by blast
      then show "r < length ?h \<and> r \<notin> set (nodes (graphData p))"
      proof
        assume "r \<in> set (workingRefs p)"
        with wr show ?thesis by auto
      next
        assume "r \<in> set ?ns"
        with new show ?thesis by blast
      qed
    qed
    moreover have "heap (simulationEffect p) = ?h" by (subst e) simp
    moreover have "\<forall>r \<in> set (nodes (graphData p)). r < length ?h" using dn by auto
    ultimately show ?thesis using ids by (simp add: dataSeparate_def list_all_iff)
  next
    case (Some rl)
    have e: "simulationEffect p = p\<lparr>heap := ?h,
        sims := sims p @ [\<lparr>running = True, simNodes = ?ns, simLinks = rl\<rparr>],
        cleanup := Some (length (sims p)), zoomRef := True,
        svg := Some \<lparr>owner = length (sims p),
                 nodeElems = map (\<lambda>r. \<lparr>datum = r, opacity = 1, place = None\<rparr>) ?ns,
                 linkElems = map (\<lambda>l. \<lparr>link_datum = l, link_opacity = 1, stroke = defaultStroke,
                     label_opacity = 1\<rparr>) rl,
                 gTransform = None\<rparr>\<rparr>"
      using simulationEffect_render [OF False Some] .
    have rl: "set (endpointRefs rl) \<subseteq> set ?ns"
      using resolveLinks_refs [of "copyLinks (links (graphData p))" ?h ?ns rl] ids Some
      by (simp add: copyLinks_ids resolvedLinks_def)
    have w: "set (workingRefs (simulationEffect p)) \<subseteq> set (workingRefs p) \<union> set ?ns"
      unfolding e using rl by (auto simp: workingRefs_def svgRefs_def simRefs_def comp_def)
    have new: "\<forall>r \<in> set ?ns. r < length ?h \<and> r \<notin> set (nodes (graphData p))"
      using dn by auto
    have "\<forall>r \<in> set (workingRefs (simulationEffect p)). r < length ?h \<and> r \<notin> set (nodes (graphData p))"
    proof
      fix r assume "r \<in> set (workingRefs (simulationEffect p))"
      with w have "r \<in> set (workingRefs p) \<or> r \<in> set ?ns" by blast
      then show "r < length ?h \<and> r \<notin> set (nodes (graphData p))"
      proof
        assume "r \<in> set (workingRefs p)"
        with wr show ?thesis by auto
      next
        assume "r \<in> set ?ns"
        with new show ?thesis by blast
      qed
    qed
    moreover have "heap (simulationEffect p) = ?h" by (subst e) simp
    moreover have "\<forall>r \<in> set (nodes (graphData p)). r < length ?h" using dn by auto
    ultimately show ?thesis using ids by (simp add: dataSeparate_def list_all_iff)
  qed
qed

lemma afterDataChange_separate: "dataSeparate p \<Longrightarrow> dataSeparate (afterDataChange lc p)"
  by (simp add: afterDataChange_def Let_def highlightPage_separate simulationEffect_separate runCleanup_separate)

lemma svgRefs_cong: "svg q = svg p \<Longrightarrow> svgRefs q = svgRefs p"
  by (simp add: svgRefs_def)

lemma dataSeparate_length_cong:
  assumes "length (heap q) = length (heap p)" "graphData q = graphData p" "sims q = sims p"
    "svgRefs q = svgRefs p"
  shows "dataSeparate q = dataSeparate p"
  using assms by (simp add: dataSeparate_def workingRefs_def)

lemma allocLinks_ids:
  "idEndpoints ls \<Longrightarrow> snd (allocLinks ls h) = h \<and> idEndpoints (fst (allocLinks ls h))"
proof (induction ls)
  case Nil
  show ?case by (simp add: idEndpoints_def)
next
  case (Cons l ls)
  from Cons.prems obtain a b where ab: "source l = EndId a" "target l = EndId b" and rest: "idEndpoints ls"
    by (cases "source l"; cases "target l") (auto simp: idEndpoints_def isEndId_def)
  from Cons.IH [OF rest] have "snd (allocLinks ls h) = h" "idEndpoints (fst (allocLinks ls h))" by simp_all
  then show ?case using ab by (simp add: split_beta idEndpoints_def isEndId_def)
qed

lemma setGraphData_ids:
  assumes "idEndpoints (links g)"
  shows "heap (setGraphData g p) = heap p @ nodes g"
    and "idEndpoints (links (graphData (setGraphData g p)))"
  using allocLinks_ids [OF assms, of "heap p @ nodes g"]
  by (simp_all add: setGraphData_def allocGraph_def split_beta)

lemma setGraphData_separate:
  assumes "dataSeparate p" and "idEndpoints (links g)"
  shows "dataSeparate (setGraphData g p)"
proof -
  from assms(1) have wr: "\<forall>r \<in> set (workingRefs p). r < length (heap p)"
    by (simp add: dataSeparate_def list_all_iff)
  have w: "workingRefs (setGraphData g p) = workingRefs p"
    by (simp add: workingRefs_def svgRefs_def)
  have n: "nodes (graphData (setGraphData g p)) = [length (heap p) ..< length (heap p) + length (nodes g)]"
    by (rule setGraphData_read(2))
  show ?thesis
    using wr setGraphData_ids [OF assms(2), of p]
    by (auto simp: dataSeparate_def list_all_iff w n)
qed

lemma app_update_separate [simp]:
  "dataSeparate (p\<lparr>alerts := a\<rparr>) = dataSeparate p"
  "dataSeparate (p\<lparr>illTyped := i\<rparr>) = dataSeparate p"
  "dataSeparate (p\<lparr>query := b\<rparr>) = dataSeparate p"
  "dataSeparate (p\<lparr>selectedNode := c\<rparr>) = dataSeparate p"
  "dataSeparate (p\<lparr>filterText := d\<rparr>) = dataSeparate p"
  "dataSeparate (p\<lparr>dimensions := e\<rparr>) = dataSeparate p"
  "dataSeparate (p\<lparr>status := f\<rparr>) = dataSeparate p"
  "dataSeparate (p\<lparr>pending := g\<rparr>) = dataSeparate p"
  by (simp_all add: dataSeparate_def workingRefs_def svgRefs_def)

lemma setSelectedNode_separate: "dataSeparate (setSelectedNode lc v p) = dataSeparate p"
  by (simp add: setSelectedNode_def highlightPage_separate)

lemma setFilterText_separate: "dataSeparate (setFilterText lc v p) = dataSeparate p"
  by (simp add: setFilterText_def highlightPage_separate)

lemma handleResize_separate: "dataSeparate p \<Longrightarrow> dataSeparate (handleResize lc w h p)"
  by (simp add: handleResize_def afterDataChange_separate)

lemma setupFails_separate: "dataSeparate p \<Longrightarrow> dataSeparate (setupFails p)"
proof -
  assume "dataSeparate p"
  then have a: "dataSeparate (runCleanup p)" by (simp add: runCleanup_separate)
  have "set (workingRefs (setupFails p)) \<subseteq> set (workingRefs (runCleanup p))"
    by (auto simp: workingRefs_def svgRefs_def)
  then show ?thesis using a by (auto simp: dataSeparate_def list_all_iff workingRefs_def)
qed

lemma handleFileUpload_separate:
  assumes "dataSeparate p" and "\<forall>j g. cast j = IsGraph g \<longrightarrow> idEndpoints (links g)"
  shows "dataSeparate (handleFileUpload lc parse cast f p)"
  using assms
  by (auto simp: handleFileUpload_def afterDataChange_separate setGraphData_separate setupFails_separate
      split: ImportDecision.splits Reading.splits)

lemma handleGenerate_submit_separate: "dataSeparate (handleGenerate_submit lc p) = dataSeparate p"
  by (simp add: handleGenerate_submit_def setSelectedNode_separate)

lemma handleGenerate_settle_separate:
  assumes "dataSeparate p" and "\<forall>j g. cast j = IsGraph g \<longrightarrow> idEndpoints (links g)"
  shows "dataSeparate (handleGenerate_settle lc parse cast r p)"
  using assms
  by (auto simp: handleGenerate_settle_def afterDataChange_separate setGraphData_separate setupFails_separate
      split: attempt.splits Reading.splits)

lemma nodeClicked_separate: "dataSeparate (nodeClicked lc k p) = dataSeparate p"
  by (simp add: nodeClicked_def setSelectedNode_separate split: option.splits)

lemma tickRender_svgRefs: "svgRefs (tickRender i p) = svgRefs p"
  by (cases "svg p") (simp_all add: tickRender_def svgRefs_def comp_def)

lemma tick_separate: "dataSeparate (tick i upd p) = dataSeparate p"
proof (cases "i < length (sims p) \<and> running (sims p ! i)")
  case True
  let ?q = "p\<lparr>heap := engineTick (sims p ! i) upd (heap p)\<rparr>"
  have "svgRefs (tickRender i ?q) = svgRefs p"
    by (simp add: tickRender_svgRefs) (simp add: svgRefs_def)
  moreover have "length (heap (tickRender i ?q)) = length (heap p)" "graphData (tickRender i ?q) = graphData p"
    "sims (tickRender i ?q) = sims p"
    by (simp_all add: tickRender_def)
  ultimately have "dataSeparate (tickRender i ?q) = dataSeparate p"
    by (intro dataSeparate_length_cong)
  with True show ?thesis by (simp add: tick_def)
next
  case False
  then show ?thesis by (auto simp: tick_def)
qed

lemma simulationEnded_separate: "dataSeparate (simulationEnded i p) = dataSeparate p"
  by (simp add: simulationEnded_def dataSeparate_def workingRefs_def svgRefs_def concat_simRefs_update)

lemma drag_separate:
  "dataSeparate (dragstarted k p) = dataSeparate p"
  "dataSeparate (dragged k ex ey p) = dataSeparate p"
  "dataSeparate (dragended k p) = dataSeparate p"
  by (simp_all add: dragstarted_def dragged_def dragended_def Let_def dataSeparate_def workingRefs_def
      svgRefs_def concat_simRefs_update split: option.splits)

lemma zoomed_separate: "dataSeparate (zoomed t p) = dataSeparate p"
  by (cases "svg p") (simp_all add: zoomed_def dataSeparate_def workingRefs_def svgRefs_def)

lemma pageStep_separate:
  assumes "dataSeparate p" and "\<forall>j g. cast j = IsGraph g \<longrightarrow> idEndpoints (links g)"
  shows "dataSeparate (pageStep lc parse cast p ev)"
proof (cases "crashed p \<or> illTyped p")
  case True
  with assms show ?thesis by (simp add: pageStep_def)
next
  case False
  with assms show ?thesis
    by (cases ev)
       (simp_all add: pageStep_def handleFileUpload_separate handleGenerate_submit_separate
          handleGenerate_settle_separate nodeClicked_separate setSelectedNode_separate
          setFilterText_separate handleResize_separate tick_separate simulationEnded_separate
          drag_separate zoomed_separate split: option.splits)
qed

lemma runPage_separate:
  assumes "\<forall>j g. cast j = IsGraph g \<longrightarrow> idEndpoints (links g)"
  shows "dataSeparate p \<Longrightarrow> dataSeparate (runPage lc parse cast p evs)"
  unfolding runPage_def
  by (induction evs arbitrary: p) (simp_all add: pageStep_separate assms)

lemma initialPage_separate: "dataSeparate initialPage"
  by (simp add: initialPage_def allocGraph_def dataSeparate_def workingRefs_def svgRefs_def
      idEndpoints_def isEndId_def sample_defs)

lemma mount_separate: "dataSeparate (mount lc w h)"
  by (simp add: mount_def handleResize_separate afterDataChange_separate initialPage_separate)

lemma data_not_working:
  assumes "dataSeparate p" and "r \<in> set (nodes (graphData p))"
  shows "r \<notin> set (workingRefs p)" and "r < length (heap p)"
  using assms by (auto simp: dataSeparate_def list_all_iff)

lemma pageGraph_cong:
  assumes "dataSeparate p" and "graphData q = graphData p"
    and "\<forall>r \<in> set (nodes (graphData p)). heap q ! r = heap p ! r"
  shows "pageGraph q = pageGraph p"
  unfolding pageGraph_def using assms
  by (simp add: dataSeparate_def readGraph_cong)

lemma simRefs_working:
  assumes "i < length (sims p)"
  shows "set (simRefs (sims p ! i)) \<subseteq> set (workingRefs p)"
proof
  fix r assume "r \<in> set (simRefs (sims p ! i))"
  moreover have "sims p ! i \<in> set (sims p)" using assms by (rule nth_mem)
  ultimately show "r \<in> set (workingRefs p)" by (auto simp: workingRefs_def)
qed

lemma tick_graph:
  assumes "dataSeparate p"
  shows "pageGraph (tick i upd p) = pageGraph p"
proof (cases "i < length (sims p) \<and> running (sims p ! i)")
  case True
  have "heap (tick i upd p) ! r = heap p ! r" if "r \<in> set (nodes (graphData p))" for r
  proof -
    have "r \<notin> set (simRefs (sims p ! i))"
      using data_not_working(1) [OF assms that] simRefs_working [of i p] True by blast
    then show ?thesis using True by (simp add: tick_def tickRender_def engineTick_other)
  qed
  moreover have "graphData (tick i upd p) = graphData p" by (simp add: tick_def tickRender_def)
  ultimately show ?thesis using assms by (intro pageGraph_cong) simp_all
next
  case False
  then show ?thesis by (auto simp: tick_def)
qed

lemma datum_working:
  "svg p = Some s \<Longrightarrow> k < length (nodeElems s) \<Longrightarrow> datum (nodeElems s ! k) \<in> set (workingRefs p)"
  by (simp add: workingRefs_def svgRefs_def)

lemma drag_graph:
  assumes "dataSeparate p"
  shows "pageGraph (dragstarted k p) = pageGraph p"
    and "pageGraph (dragged k ex ey p) = pageGraph p"
    and "pageGraph (dragended k p) = pageGraph p"
proof -
  have w: "(heap p)[datum (nodeElems s ! k) := v] ! r = heap p ! r"
    if "svg p = Some s" "k < length (nodeElems s)" "r \<in> set (nodes (graphData p))" for s r v
  proof -
    have "datum (nodeElems s ! k) \<noteq> r"
      using data_not_working(1) [OF assms that(3)] datum_working [OF that(1,2)] by auto
    then show ?thesis by simp
  qed
  show "pageGraph (dragstarted k p) = pageGraph p"
    using assms w
    by (intro pageGraph_cong) (auto simp: dragstarted_def Let_def split: option.splits)
  show "pageGraph (dragged k ex ey p) = pageGraph p"
    using assms w
    by (intro pageGraph_cong) (auto simp: dragged_def Let_def split: option.splits)
  show "pageGraph (dragended k p) = pageGraph p"
    using assms w
    by (intro pageGraph_cong) (auto simp: dragended_def Let_def split: option.splits)
qed

lemma afterDataChange_graph:
  assumes "dataSeparate p"
  shows "pageGraph (afterDataChange lc p) = pageGraph p"
proof -
  obtain ext where e: "heap (afterDataChange lc p) = heap p @ ext"
    using afterDataChange_heap by blast
  have "heap (afterDataChange lc p) ! r = heap p ! r" if "r \<in> set (nodes (graphData p))" for r
    using data_not_working(2) [OF assms that] e by (simp add: nth_append)
  then show ?thesis using assms by (intro pageGraph_cong) simp_all
qed

lemma pageGraph_same:
  "heap q = heap p \<Longrightarrow> graphData q = graphData p \<Longrightarrow> pageGraph q = pageGraph p"
  by (simp add: pageGraph_def)

lemma setSelectedNode_graph: "pageGraph (setSelectedNode lc v p) = pageGraph p"
  by (rule pageGraph_same) (simp_all add: setSelectedNode_def)

lemma setFilterText_graph: "pageGraph (setFilterText lc v p) = pageGraph p"
  by (rule pageGraph_same) (simp_all add: setFilterText_def)

lemma handleResize_graph: "dataSeparate p \<Longrightarrow> pageGraph (handleResize lc w h p) = pageGraph p"
proof -
  assume a: "dataSeparate p"
  have "pageGraph (afterDataChange lc (p\<lparr>dimensions := (w, h)\<rparr>)) = pageGraph (p\<lparr>dimensions := (w, h)\<rparr>)"
    using a by (intro afterDataChange_graph) simp
  then show ?thesis by (simp add: handleResize_def pageGraph_def)
qed

text \<open>No event other than a replacement changes the graph in state, as long as the links
  of the graphs loaded name their endpoints by id.\<close>

lemma pageStep_graph:
  assumes "dataSeparate p" and "\<not> isReplacement ev"
  shows "pageGraph (pageStep lc parse cast p ev) = pageGraph p"
proof (cases "crashed p \<or> illTyped p")
  case True
  then show ?thesis by (simp add: pageStep_def)
next
  case False
  show ?thesis
  proof (cases ev)
    case (FileUpload f)
    with assms(2) show ?thesis by (simp add: isReplacement_def)
  next
    case (GenerateSettle r)
    with assms(2) show ?thesis by (simp add: isReplacement_def)
  next
    case (QueryInput v)
    with False show ?thesis by (simp add: pageStep_def pageGraph_def)
  next
    case GenerateSubmit
    have "pageGraph (handleGenerate_submit lc p) = pageGraph p"
      by (rule pageGraph_same) (simp_all add: handleGenerate_submit_def setSelectedNode_def)
    with GenerateSubmit False show ?thesis by (simp add: pageStep_def)
  next
    case (NodeClick k)
    have "pageGraph (nodeClicked lc k p) = pageGraph p"
      by (rule pageGraph_same) (simp_all add: nodeClicked_def setSelectedNode_def split: option.splits)
    with NodeClick False show ?thesis by (simp add: pageStep_def)
  next
    case (RelatedClick k)
    with False show ?thesis by (simp add: pageStep_def setSelectedNode_graph split: option.splits)
  next
    case ClearSelection
    with False show ?thesis by (simp add: pageStep_def setSelectedNode_graph)
  next
    case (SearchInput v)
    with False show ?thesis by (simp add: pageStep_def setFilterText_graph)
  next
    case (Resize w h)
    with False assms(1) show ?thesis by (simp add: pageStep_def handleResize_graph)
  next
    case (Tick i upd)
    with False assms(1) show ?thesis by (simp add: pageStep_def tick_graph)
  next
    case (SimulationEnd i)
    with False show ?thesis by (simp add: pageStep_def simulationEnded_def pageGraph_def)
  next
    case (DragStart k)
    with False assms(1) show ?thesis by (simp add: pageStep_def drag_graph)
  next
    case (Drag k ex ey)
    with False assms(1) show ?thesis by (simp add: pageStep_def drag_graph)
  next
    case (DragEnd k)
    with False assms(1) show ?thesis by (simp add: pageStep_def drag_graph)
  next
    case (ZoomBy f px py)
    with False show ?thesis by (simp add: pageStep_def zoomed_def pageGraph_def)
  next
    case (PanBy dx dy)
    with False show ?thesis by (simp add: pageStep_def zoomed_def pageGraph_def)
  qed
qed

lemma exportJSON_pageGraph: "exportJSON JSON_stringify p = JSON_stringify (pageGraph p)"
  by (simp add: exportJSON_def pageGraph_def)

text \<open>A replacement puts the parsed value in place of the graph, or leaves the graph.\<close>

lemma replaceBy_untyped:
  assumes "replacementValue lc parse rp = Some j" and "\<forall>g. cast j \<noteq> IsGraph g"
  shows "heap (replaceBy lc parse cast rp p) = heap p \<and> graphData (replaceBy lc parse cast rp p) = graphData p"
  using assms
  by (cases rp; cases "cast j")
     (auto simp: replacementValue_def replaceBy_def handleFileUpload_def handleGenerate_settle_def
        split: if_splits ImportDecision.splits attempt.splits)

lemma replaceBy_pageGraph:
  "pageGraph (replaceBy lc parse cast rp p) =
     (case replacementValue lc parse rp of
        None \<Rightarrow> pageGraph p
      | Some j \<Rightarrow> (case cast j of IsGraph g \<Rightarrow> g | _ \<Rightarrow> pageGraph p))"
proof (cases "replacementValue lc parse rp")
  case None
  then show ?thesis using replaceBy_nothing [OF None, of cast p] by (simp add: pageGraph_def)
next
  case (Some j)
  show ?thesis
  proof (cases "cast j")
    case (IsGraph g)
    then show ?thesis using Some replaceBy_graph [where cast = cast, OF Some IsGraph, of p] by (simp add: pageGraph_def)
  next
    case Throwing
    then show ?thesis using Some replaceBy_untyped [where cast = cast, OF Some, of p]
      by (simp add: pageGraph_def)
  next
    case IllTyped
    then show ?thesis using Some replaceBy_untyped [where cast = cast, OF Some, of p]
      by (simp add: pageGraph_def)
  qed
qed

lemma pageStep_replacement:
  assumes "isReplacement ev"
  shows "pageGraph (pageStep lc parse cast p ev) = pageGraph p \<or>
         (\<exists>j. cast j = IsGraph (pageGraph (pageStep lc parse cast p ev)))"
proof (cases "crashed p \<or> illTyped p")
  case True
  then show ?thesis by (simp add: pageStep_def)
next
  case False
  from assms consider f where "ev = FileUpload f" | r where "ev = GenerateSettle r"
    by (cases ev) (simp_all add: isReplacement_def)
  then show ?thesis
  proof cases
    case 1
    then have "pageStep lc parse cast p ev = replaceBy lc parse cast (ByImport f) p"
      using False by (simp add: pageStep_def replaceBy_def)
    then show ?thesis
      using replaceBy_pageGraph [of lc parse cast "ByImport f" p]
      by (cases "replacementValue lc parse (ByImport f)") (auto split: Reading.splits)
  next
    case 2
    show ?thesis
    proof (cases "pending p = 0")
      case True
      with 2 False show ?thesis by (simp add: pageStep_def)
    next
      case nz: False
      with 2 False have "pageStep lc parse cast p ev = replaceBy lc parse cast (ByGeneration r) p"
        by (simp add: pageStep_def replaceBy_def)
      then show ?thesis
        using replaceBy_pageGraph [of lc parse cast "ByGeneration r" p]
        by (cases "replacementValue lc parse (ByGeneration r)") (auto split: Reading.splits)
    qed
  qed
qed

text \<open>When no graph that is loaded gives positions to its nodes, the graph in state never
  has a positioned node, and the highlighting effect never moves the viewport.\<close>

lemma runPage_unpositioned:
  assumes c: "\<forall>j g. cast j = IsGraph g \<longrightarrow> idEndpoints (links g) \<and> unpositioned g"
  shows "dataSeparate p \<Longrightarrow> unpositioned (pageGraph p) \<Longrightarrow>
         unpositioned (pageGraph (runPage lc parse cast p evs))"
proof (induction evs arbitrary: p)
  case Nil
  then show ?case by (simp add: runPage_def)
next
  case (Cons ev evs)
  have s: "dataSeparate (pageStep lc parse cast p ev)"
    using Cons.prems(1) c by (simp add: pageStep_separate)
  have u: "unpositioned (pageGraph (pageStep lc parse cast p ev))"
  proof (cases "isReplacement ev")
    case True
    from pageStep_replacement [OF True, of lc parse cast p] show ?thesis
      using Cons.prems(2) c by auto
  next
    case False
    then show ?thesis using pageStep_graph [OF Cons.prems(1) False] Cons.prems(2) by simp
  qed
  from Cons.IH [OF s u] show ?case by (simp add: runPage_def)
qed

lemma initialPage_graph: "pageGraph initialPage = INITIAL_DATA"
  by (simp add: pageGraph_def initialPage_def allocGraph_def readGraph_def readLink_def readEndpoint_def
      sample_defs)

lemma mount_graph: "pageGraph (mount lc w h) = INITIAL_DATA"
proof -
  have "pageGraph (afterDataChange lc initialPage) = INITIAL_DATA"
    using afterDataChange_graph [OF initialPage_separate] initialPage_graph by simp
  moreover have "dataSeparate (afterDataChange lc initialPage)"
    by (simp add: afterDataChange_separate initialPage_separate)
  ultimately show ?thesis by (simp add: mount_def handleResize_graph)
qed

lemma unpositioned_no_centre:
  "unpositioned (pageGraph p) \<Longrightarrow> zoomTo (pageHighlighting lc p) = None"
proof -
  assume "unpositioned (pageGraph p)"
  then have "\<forall>n \<in> set (nodes (readGraph (heap p) (graphData p))). node_x n = Undefined"
    by (simp add: unpositioned_def pageGraph_def list_all_iff)
  then have "autoCenter lc (filterText p) (readGraph (heap p) (graphData p)) (dimensions p) (zoomRef p) = None"
    by (rule autoCenter_needs_positions)
  then show ?thesis by (simp add: pageHighlighting_def highlightEffect_def)
qed

lemma never_auto_centres:
  assumes "\<forall>j g. cast j = IsGraph g \<longrightarrow> idEndpoints (links g) \<and> unpositioned g"
  shows "zoomTo (pageHighlighting lc (runPage lc parse cast (mount lc w h) evs)) = None"
proof -
  have "unpositioned (pageGraph (mount lc w h))"
    by (simp add: mount_graph unpositioned_def sample_defs)
  then have "unpositioned (pageGraph (runPage lc parse cast (mount lc w h) evs))"
    using runPage_unpositioned [OF assms mount_separate] by blast
  then show ?thesis by (rule unpositioned_no_centre)
qed

section \<open>The search on the sample page\<close>

lemma samplePage_pageGraph: "pageGraph samplePage = INITIAL_DATA"
  using samplePage_graph by (simp add: pageGraph_def)

lemma searchedPage_opacity:
  "map_option (\<lambda>s. map opacity (nodeElems s)) (svg searchedPage) = Some [0.1, 1, 0.1, 0.1, 0.1]"
proof -
  have n: "nodeOpacity (pageHighlighting toLowerCase_basic (samplePage\<lparr>filterText := label_ml\<rparr>)) =
      [0.1, 1, 0.1, 0.1, 0.1]"
    by (simp add: pageHighlighting_def svgNodeData_def samplePage_svg samplePage_heap highlightEffect_def
        isSearchActive_def isNodeHighlighted_def labelMatches_def simulationNodes_def sample_defs)
  show ?thesis
    by (simp add: searchedPage_def setFilterText_def samplePage_filterText label_ml_def highlightPage_def Let_def
        restyle_def restyleNode_def samplePage_svg n [unfolded label_ml_def])
qed

text \<open>
  Claim C3 at the sample data.  The search text is the label of "ml", the zoom behaviour is
  set up, and "ml" is the first match; yet no transform is applied: the match is looked up
  among the nodes of the graph in state, which carry no position (the simulation positions
  its own copies).  On the page, typing the label into the search box dims the other four
  nodes and leaves the viewport where it was.
\<close>

theorem auto_center_skipped_on_sample_data:
  "find (labelMatches toLowerCase_basic label_ml) (nodes INITIAL_DATA) =
     Some (mkNode (js ''ml'') label_ml group_tech) \<and>
   autoCenter toLowerCase_basic label_ml INITIAL_DATA (800, 600) True = None \<and>
   pageGraph samplePage = INITIAL_DATA \<and> zoomRef searchedPage \<and> filterText searchedPage = label_ml \<and>
   map_option (\<lambda>s. map opacity (nodeElems s)) (svg searchedPage) = Some [0.1, 1, 0.1, 0.1, 0.1] \<and>
   viewport searchedPage = viewport samplePage"
proof -
  have a: "find (labelMatches toLowerCase_basic label_ml) (nodes INITIAL_DATA) =
     Some (mkNode (js ''ml'') label_ml group_tech)"
    by (simp add: labelMatches_def sample_defs)
  have b: "autoCenter toLowerCase_basic label_ml INITIAL_DATA (800, 600) True = None"
    by (simp add: autoCenter_def isSearchActive_def labelMatches_def truthy_def sample_defs)
  have "unpositioned (pageGraph (samplePage\<lparr>filterText := label_ml\<rparr>))"
    using samplePage_pageGraph by (simp add: pageGraph_def unpositioned_def sample_defs)
  then have c: "zoomTo (pageHighlighting toLowerCase_basic (samplePage\<lparr>filterText := label_ml\<rparr>)) = None"
    by (rule unpositioned_no_centre)
  have d: "viewport searchedPage = viewport samplePage"
    using c by (simp add: searchedPage_def setFilterText_def highlightPage_def Let_def)
  have e: "zoomRef searchedPage"
    by (simp add: searchedPage_def setFilterText_def samplePage_misc)
  show ?thesis
    using a b d e samplePage_pageGraph searchedPage_opacity searchedPage_filterText by simp
qed


end
